(* ===== verification/Rust_Prelude.thy ===== *)
theory Rust_Prelude
  imports Main "HOL-Library.Word"
begin

text \<open>
  The prelude of the development: the machine integer types, results and error chains of the
  Rust code, the little-endian byte conversions, and the generic lemmas and lemma collections
  the component theories share.

  Errors. The program reports errors as \<^verbatim>\<open>anyhow::Error\<close>: a root message with contexts
  wrapped around it. Two places of the code look at the text of an error
  (\<^verbatim>\<open>should_reconnect\<close> and \<^verbatim>\<open>is_terminal_response_timeout\<close>), so an error is modelled as
  its chain of messages, the outermost context first; \<open>err_chain\<close> is the rendering
  \<^verbatim>\<open>{:#}\<close> and \<open>err_display\<close> the rendering \<^verbatim>\<open>{}\<close> (also \<^verbatim>\<open>to_string()\<close>).
\<close>

unbundle bit_operations_syntax

section \<open>Machine integers and bytes\<close>

type_synonym u8 = "8 word"
type_synonym u16 = "16 word"
type_synonym u32 = "32 word"
type_synonym u64 = "64 word"
type_synonym i32 = "32 word"
type_synonym bytes = "u8 list"

named_theorems codec_simps \<open>byte and word conversions of the wire formats\<close>
named_theorems stream_simps \<open>effects of the stream operations on the stream state\<close>
named_theorems session_simps \<open>functional behaviour of the command handlers\<close>

section \<open>Results and error chains\<close>

type_synonym err = "string list"
type_synonym 'a result = "err + 'a"

abbreviation Ok :: "'a \<Rightarrow> 'a result" where "Ok \<equiv> Inr"
abbreviation Err :: "err \<Rightarrow> 'a result" where "Err \<equiv> Inl"

text \<open>\<^verbatim>\<open>bail!(msg)\<close> and \<^verbatim>\<open>anyhow!(msg)\<close> make a chain of one message.\<close>

definition bail :: "string \<Rightarrow> 'a result" where
  "bail msg = Err [msg]"

text \<open>\<^verbatim>\<open>.context(ctx)\<close> wraps one more message around an error.\<close>

definition with_ctx :: "string \<Rightarrow> 'a result \<Rightarrow> 'a result" where
  "with_ctx ctx r = (case r of Inl e \<Rightarrow> Inl (ctx # e) | Inr x \<Rightarrow> Inr x)"

text \<open>\<^verbatim>\<open>r?\<close> followed by the rest of the function.\<close>

definition bind_result :: "'a result \<Rightarrow> ('a \<Rightarrow> 'b result) \<Rightarrow> 'b result" where
  "bind_result r f = (case r of Inl e \<Rightarrow> Inl e | Inr x \<Rightarrow> f x)"

definition ok_or :: "string \<Rightarrow> 'a option \<Rightarrow> 'a result" where
  "ok_or msg x = (case x of None \<Rightarrow> bail msg | Some v \<Rightarrow> Ok v)"

fun is_ok :: "'a result \<Rightarrow> bool" where
  "is_ok (Inr _) = True"
| "is_ok (Inl _) = False"

fun join :: "string \<Rightarrow> string list \<Rightarrow> string" where
  "join sep [] = []"
| "join sep [x] = x"
| "join sep (x # y # ys) = x @ sep @ join sep (y # ys)"

definition err_chain :: "err \<Rightarrow> string" where
  "err_chain e = join '': '' e"

definition err_display :: "err \<Rightarrow> string" where
  "err_display e = (case e of [] \<Rightarrow> [] | m # _ \<Rightarrow> m)"

lemma bind_result_simps [simp]:
  "bind_result (Inl e) f = Inl e"
  "bind_result (Inr x) f = f x"
  by (simp_all add: bind_result_def)

lemma with_ctx_simps [simp]:
  "with_ctx c (Inl e) = Inl (c # e)"
  "with_ctx c (Inr x) = Inr x"
  by (simp_all add: with_ctx_def)

lemma ok_or_simps [simp]:
  "ok_or m None = bail m"
  "ok_or m (Some v) = Ok v"
  by (simp_all add: ok_or_def)

lemma bail_neq_Ok [simp]: "bail m \<noteq> Ok x" "Ok x \<noteq> bail m"
  by (simp_all add: bail_def)

lemma is_ok_bail [simp]: "\<not> is_ok (bail m)"
  by (simp add: bail_def)

lemma is_ok_iff: "is_ok r \<longleftrightarrow> (\<exists>x. r = Ok x)"
  by (cases r) auto

lemma bind_result_Ok_iff:
  "bind_result r f = Ok y \<longleftrightarrow> (\<exists>x. r = Ok x \<and> f x = Ok y)"
  by (cases r) auto

lemma with_ctx_Ok_iff [simp]: "with_ctx c r = Ok x \<longleftrightarrow> r = Ok x"
  by (cases r) auto

lemma ok_or_Ok_iff [simp]: "ok_or m x = Ok v \<longleftrightarrow> x = Some v"
  by (cases x) auto

section \<open>Fallible operations on a state\<close>

text \<open>
  An operation that may fail and changes a state \<open>'s\<close> is a function from the state to a result
  and the new state. The state change stays when the operation fails, as in the code, where
  \<^verbatim>\<open>?\<close> returns early and leaves what was mutated so far.
\<close>

type_synonym ('s, 'a) op = "'s \<Rightarrow> 'a result \<times> 's"

definition bind_op :: "('s, 'a) op \<Rightarrow> ('a \<Rightarrow> ('s, 'b) op) \<Rightarrow> ('s, 'b) op" where
  "bind_op m f s = (case m s of (Inl e, s') \<Rightarrow> (Inl e, s') | (Inr x, s') \<Rightarrow> f x s')"

definition return_op :: "'a \<Rightarrow> ('s, 'a) op" where
  "return_op x s = (Ok x, s)"

definition fail_op :: "err \<Rightarrow> ('s, 'a) op" where
  "fail_op e s = (Err e, s)"

definition ctx_op :: "string \<Rightarrow> ('s, 'a) op \<Rightarrow> ('s, 'a) op" where
  "ctx_op c m s = (case m s of (r, s') \<Rightarrow> (with_ctx c r, s'))"

lemma bind_op_Ok: "m s = (Ok x, s') \<Longrightarrow> bind_op m f s = f x s'"
  by (simp add: bind_op_def)

lemma bind_op_Err: "m s = (Err e, s') \<Longrightarrow> bind_op m f s = (Err e, s')"
  by (simp add: bind_op_def)

lemma return_op_apply [simp]: "return_op x s = (Ok x, s)"
  by (simp add: return_op_def)

lemma fail_op_apply [simp]: "fail_op e s = (Err e, s)"
  by (simp add: fail_op_def)

section \<open>Little-endian byte conversions\<close>

text \<open>\<^verbatim>\<open>to_le_bytes\<close> of a word of \<open>n\<close> bytes, and \<^verbatim>\<open>u32::from_le_bytes\<close>.\<close>

definition to_le_bytes :: "nat \<Rightarrow> 'a::len word \<Rightarrow> bytes" where
  "to_le_bytes n w = map (\<lambda>i. ucast (drop_bit (8 * i) w)) [0..<n]"

fun from_le_bytes :: "bytes \<Rightarrow> 'a::len word" where
  "from_le_bytes [] = 0"
| "from_le_bytes (b # bs) = ucast b OR push_bit 8 (from_le_bytes bs)"

lemma length_to_le_bytes [simp]: "length (to_le_bytes n w) = n"
  by (simp add: to_le_bytes_def)

lemma to_le_bytes_Suc [codec_simps]:
  "to_le_bytes (Suc n) w = ucast w # to_le_bytes n (drop_bit 8 w)"
  by (simp add: to_le_bytes_def upt_conv_Cons map_Suc_upt [symmetric] o_def
      drop_bit_drop_bit ac_simps del: upt_Suc)

lemma to_le_bytes_0 [simp, codec_simps]: "to_le_bytes 0 w = []"
  by (simp add: to_le_bytes_def)

lemma from_to_le_bytes:
  "(from_le_bytes (to_le_bytes n (w :: 'b::len word)) :: 'a::len word) = ucast (take_bit (8 * n) w)"
proof (induction n arbitrary: w)
  case 0
  then show ?case by simp
next
  case (Suc n)
  show ?case
    unfolding to_le_bytes_Suc from_le_bytes.simps Suc.IH
    by (rule bit_word_eqI) (auto simp: bit_simps)
qed

lemma from_le_bytes_append_zero:
  "(from_le_bytes (bs @ replicate k 0) :: 'a::len word) = from_le_bytes bs"
proof (induction bs)
  case Nil
  show ?case by (induction k) auto
qed simp

end
