(* ===== verification/Rust_Strings.thy ===== *)
theory Rust_Strings
  imports Rust_Prelude "HOL-Library.Sublist"
begin

text \<open>
  The parts of Rust's \<^verbatim>\<open>str\<close> the program uses. A \<^verbatim>\<open>String\<close> is modelled by its UTF-8
  bytes, one \<open>char\<close> of HOL for each byte, so \<^verbatim>\<open>len()\<close> is \<open>length\<close>, byte offsets are
  list positions, and searching for an ASCII pattern is searching in the list.
  \<^verbatim>\<open>chars()\<close> groups a lead byte with its continuation bytes.
\<close>

section \<open>Patterns and searching\<close>

definition starts_with :: "string \<Rightarrow> string \<Rightarrow> bool" where
  "starts_with s p = (take (length p) s = p)"

definition ends_with :: "string \<Rightarrow> string \<Rightarrow> bool" where
  "ends_with s p = starts_with (rev s) (rev p)"

fun str_find :: "string \<Rightarrow> string \<Rightarrow> nat option" where
  "str_find [] p = (if p = [] then Some 0 else None)"
| "str_find (c # s) p =
     (if starts_with (c # s) p then Some 0 else map_option Suc (str_find s p))"

definition str_contains :: "string \<Rightarrow> string \<Rightarrow> bool" where
  "str_contains s p = (str_find s p \<noteq> None)"

fun rfind_char :: "string \<Rightarrow> char \<Rightarrow> nat option" where
  "rfind_char [] c = None"
| "rfind_char (x # xs) c =
     (case rfind_char xs c of Some i \<Rightarrow> Some (Suc i) | None \<Rightarrow> if x = c then Some 0 else None)"

text \<open>\<^verbatim>\<open>rsplit_once(c)\<close>: the part before and the part after the last \<open>c\<close>.\<close>

definition rsplit_once :: "string \<Rightarrow> char \<Rightarrow> (string \<times> string) option" where
  "rsplit_once s c = map_option (\<lambda>i. (take i s, drop (Suc i) s)) (rfind_char s c)"

text \<open>\<^verbatim>\<open>split(c)\<close>: always at least one piece.\<close>

fun split_char :: "char \<Rightarrow> string \<Rightarrow> string list" where
  "split_char c [] = [[]]"
| "split_char c (x # xs) =
     (if x = c then [] # split_char c xs
      else (case split_char c xs of p # ps \<Rightarrow> (x # p) # ps | [] \<Rightarrow> [[x]]))"

text \<open>\<^verbatim>\<open>s.split(c).next().unwrap_or(s)\<close>.\<close>

definition split_first :: "char \<Rightarrow> string \<Rightarrow> string" where
  "split_first c s = takeWhile (\<lambda>x. x \<noteq> c) s"

section \<open>Characters\<close>

abbreviation chr_code :: "char \<Rightarrow> nat" where "chr_code c \<equiv> of_char c"

definition is_ascii_digit :: "char \<Rightarrow> bool" where
  "is_ascii_digit c = (48 \<le> chr_code c \<and> chr_code c \<le> 57)"

definition to_ascii_lower :: "char \<Rightarrow> char" where
  "to_ascii_lower c = (if 65 \<le> chr_code c \<and> chr_code c \<le> 90 then char_of (chr_code c + 32) else c)"

definition to_ascii_lowercase :: "string \<Rightarrow> string" where
  "to_ascii_lowercase s = map to_ascii_lower s"

definition eq_ignore_ascii_case :: "string \<Rightarrow> string \<Rightarrow> bool" where
  "eq_ignore_ascii_case a b = (to_ascii_lowercase a = to_ascii_lowercase b)"

definition is_utf8_cont :: "char \<Rightarrow> bool" where
  "is_utf8_cont c = (128 \<le> chr_code c \<and> chr_code c < 192)"

declare length_dropWhile_le [termination_simp]

text \<open>\<^verbatim>\<open>s.chars()\<close>, each character as its UTF-8 bytes.\<close>

fun utf8_chars :: "string \<Rightarrow> string list" where
  "utf8_chars [] = []"
| "utf8_chars (c # s) = (c # takeWhile is_utf8_cont s) # utf8_chars (dropWhile is_utf8_cont s)"

definition chars_count :: "string \<Rightarrow> nat" where
  "chars_count s = length (utf8_chars s)"

definition str_bytes :: "string \<Rightarrow> bytes" where
  "str_bytes s = map (\<lambda>c. of_nat (chr_code c)) s"

section \<open>Trimming\<close>

text \<open>The UTF-8 encodings of the characters with the Unicode property White\_Space.\<close>

definition ws_encodings :: "string list" where
  "ws_encodings = map (map char_of)
     ([[9], [10], [11], [12], [13], [32], [194, 133], [194, 160], [225, 154, 128],
       [226, 128, 128], [226, 128, 129], [226, 128, 130], [226, 128, 131], [226, 128, 132],
       [226, 128, 133], [226, 128, 134], [226, 128, 135], [226, 128, 136], [226, 128, 137],
       [226, 128, 138], [226, 128, 168], [226, 128, 169], [226, 128, 175], [226, 129, 159],
       [227, 128, 128]] :: nat list list)"

definition ws_len :: "string list \<Rightarrow> string \<Rightarrow> nat" where
  "ws_len encs s = (case List.find (starts_with s) encs of None \<Rightarrow> 0 | Some w \<Rightarrow> length w)"

lemma ws_len_le: "ws_len encs s \<le> length s"
  by (auto simp: ws_len_def starts_with_def find_Some_iff split: option.splits)
    (metis length_take min.cobounded1)

function trim_with :: "string list \<Rightarrow> string \<Rightarrow> string" where
  "trim_with encs s = (if ws_len encs s = 0 then s else trim_with encs (drop (ws_len encs s) s))"
  by pat_completeness auto
termination
proof (relation "measure (\<lambda>(encs, s). length s)", simp)
  fix encs s
  assume "ws_len encs s \<noteq> 0"
  then show "((encs, drop (ws_len encs s) s), encs, s) \<in> measure (\<lambda>(encs, s). length s)"
    using ws_len_le [of encs s] by (auto simp: less_diff_conv2)
qed

declare trim_with.simps [simp del]

definition trim_start :: "string \<Rightarrow> string" where
  "trim_start s = trim_with ws_encodings s"

definition trim_end :: "string \<Rightarrow> string" where
  "trim_end s = rev (trim_with (map rev ws_encodings) (rev s))"

definition trim :: "string \<Rightarrow> string" where
  "trim s = trim_end (trim_start s)"

definition trim_end_matches :: "char list \<Rightarrow> string \<Rightarrow> string" where
  "trim_end_matches cs s = rev (dropWhile (\<lambda>c. c \<in> set cs) (rev s))"

section \<open>Numbers\<close>

definition digit_char :: "nat \<Rightarrow> char" where
  "digit_char d = char_of (48 + d)"

fun show_nat :: "nat \<Rightarrow> string" where
  "show_nat n = (if n < 10 then [digit_char n] else show_nat (n div 10) @ [digit_char (n mod 10)])"

declare show_nat.simps [simp del]

definition show_int :: "int \<Rightarrow> string" where
  "show_int i = (if i < 0 then CHR ''-'' # show_nat (nat (- i)) else show_nat (nat i))"

definition show_i32 :: "i32 \<Rightarrow> string" where
  "show_i32 w = show_int (sint w)"

definition show_bool :: "bool \<Rightarrow> string" where
  "show_bool b = (if b then ''true'' else ''false'')"

definition digit_val :: "char \<Rightarrow> nat" where
  "digit_val c = chr_code c - 48"

fun digits_value :: "nat \<Rightarrow> string \<Rightarrow> nat" where
  "digits_value acc [] = acc"
| "digits_value acc (c # cs) = digits_value (10 * acc + digit_val c) cs"

definition parse_digits :: "string \<Rightarrow> nat option" where
  "parse_digits s = (if s \<noteq> [] \<and> list_all is_ascii_digit s then Some (digits_value 0 s) else None)"

text \<open>
  \<^verbatim>\<open>str::parse\<close> for the unsigned and the signed types of \<open>w\<close> bits: an optional sign (a
  minus sign only for the signed types), then decimal digits, in range.
\<close>

definition parse_unsigned :: "nat \<Rightarrow> string \<Rightarrow> nat option" where
  "parse_unsigned w s =
     (case parse_digits (case s of c # r \<Rightarrow> if c = CHR ''+'' then r else s | [] \<Rightarrow> []) of
        Some n \<Rightarrow> if n < 2 ^ w then Some n else None
      | None \<Rightarrow> None)"

definition parse_signed :: "nat \<Rightarrow> string \<Rightarrow> int option" where
  "parse_signed w s =
     (case s of
        c # r \<Rightarrow>
          if c = CHR ''-'' then
            (case parse_digits r of
               Some n \<Rightarrow> if n \<le> 2 ^ (w - 1) then Some (- int n) else None
             | None \<Rightarrow> None)
          else
            (case parse_digits (if c = CHR ''+'' then r else s) of
               Some n \<Rightarrow> if n < 2 ^ (w - 1) then Some (int n) else None
             | None \<Rightarrow> None)
      | [] \<Rightarrow> None)"

definition parse_i32 :: "string \<Rightarrow> i32 option" where
  "parse_i32 s = map_option of_int (parse_signed 32 s)"

section \<open>Lemmas on searching\<close>

lemma starts_with_iff: "starts_with s p \<longleftrightarrow> (\<exists>r. s = p @ r)"
  unfolding starts_with_def by (metis append_eq_conv_conj append_take_drop_id)

lemma starts_with_Nil [simp]: "starts_with s []"
  by (simp add: starts_with_def)

lemma starts_with_append [simp]: "starts_with (p @ r) p"
  by (simp add: starts_with_def)

lemma starts_with_self [simp]: "starts_with p p"
  by (simp add: starts_with_def)

lemma starts_with_Cons [simp]:
  "starts_with (c # s) (d # p) \<longleftrightarrow> c = d \<and> starts_with s p"
  "\<not> starts_with [] (d # p)"
  by (auto simp: starts_with_def)

lemma starts_with_length: "starts_with s p \<Longrightarrow> length p \<le> length s"
  by (auto simp: starts_with_iff)

lemma ends_with_iff: "ends_with s p \<longleftrightarrow> (\<exists>r. s = r @ p)"
  unfolding ends_with_def starts_with_iff
  by (metis rev_append rev_rev_ident)

lemma str_find_Some:
  "str_find s p = Some i \<Longrightarrow>
     i + length p \<le> length s \<and> starts_with (drop i s) p \<and>
     (\<forall>j<i. \<not> starts_with (drop j s) p)"
proof (induction s p arbitrary: i rule: str_find.induct)
  case (1 p)
  then show ?case by (simp split: if_splits)
next
  case (2 c s p)
  show ?case
  proof (cases "starts_with (c # s) p")
    case True
    with "2.prems" show ?thesis using starts_with_length [OF True] by simp
  next
    case False
    with "2.prems" obtain k where k: "str_find s p = Some k" "i = Suc k" by auto
    with "2.IH" [OF False k(1)] False show ?thesis
      by (auto simp: less_Suc_eq_0_disj)
  qed
qed

lemma str_find_None: "str_find s p = None \<Longrightarrow> \<not> starts_with (drop j s) p"
proof (induction s p arbitrary: j rule: str_find.induct)
  case (1 p)
  then show ?case by (cases p) (auto split: if_splits)
next
  case (2 c s p)
  then show ?case by (cases j) (auto split: if_splits)
qed

lemma str_find_eqI:
  assumes "starts_with (drop i s) p" and "\<And>j. j < i \<Longrightarrow> \<not> starts_with (drop j s) p"
  shows "str_find s p = Some i"
proof (cases "str_find s p")
  case None
  with assms(1) show ?thesis by (auto dest: str_find_None)
next
  case (Some k)
  from str_find_Some [OF this] assms have "k = i"
    by (metis linorder_neqE_nat)
  with Some show ?thesis by simp
qed

lemma str_contains_iff: "str_contains s p \<longleftrightarrow> (\<exists>a b. s = a @ p @ b)"
proof
  assume "str_contains s p"
  then obtain i where "str_find s p = Some i" by (auto simp: str_contains_def)
  then obtain r where "drop i s = p @ r" by (auto dest!: str_find_Some simp: starts_with_iff)
  then have "s = take i s @ p @ r" by (metis append_take_drop_id)
  then show "\<exists>a b. s = a @ p @ b" by blast
next
  assume "\<exists>a b. s = a @ p @ b"
  then obtain a b where "s = a @ p @ b" by blast
  then have "starts_with (drop (length a) s) p" by simp
  then show "str_contains s p" by (metis str_contains_def str_find_None)
qed

lemma rfind_char_None: "rfind_char s c = None \<longleftrightarrow> c \<notin> set s"
  by (induction s) (auto split: option.splits)

lemma rfind_char_notin [simp]: "c \<notin> set s \<Longrightarrow> rfind_char s c = None"
  by (simp add: rfind_char_None)

lemma rfind_char_append_last:
  "c \<notin> set b \<Longrightarrow> rfind_char (a @ c # b) c = Some (length a)"
  by (induction a) simp_all

lemma rfind_char_Some:
  "rfind_char s c = Some i \<Longrightarrow> \<exists>a b. s = a @ c # b \<and> length a = i \<and> c \<notin> set b"
  by (metis option.distinct(1) option.inject rfind_char_None rfind_char_append_last split_list_last)

lemma rsplit_once_Some:
  "rsplit_once s c = Some (a, b) \<longleftrightarrow> s = a @ c # b \<and> c \<notin> set b"
proof
  assume "rsplit_once s c = Some (a, b)"
  then show "s = a @ c # b \<and> c \<notin> set b"
    by (auto simp: rsplit_once_def dest!: rfind_char_Some)
next
  assume "s = a @ c # b \<and> c \<notin> set b"
  then show "rsplit_once s c = Some (a, b)"
    by (simp add: rsplit_once_def rfind_char_append_last)
qed

lemma rsplit_once_None [simp]: "rsplit_once s c = None \<longleftrightarrow> c \<notin> set s"
  by (simp add: rsplit_once_def rfind_char_None)

lemma split_char_neq_Nil [simp]: "split_char c s \<noteq> []"
  by (induction s) (auto split: list.splits)

section \<open>Lemmas on numbers\<close>

lemma code_char_of [simp]: "n < 256 \<Longrightarrow> chr_code (char_of n) = n"
  by simp

lemma is_ascii_digit_digit_char [simp]: "d < 10 \<Longrightarrow> is_ascii_digit (digit_char d)"
  by (simp add: is_ascii_digit_def digit_char_def)

lemma digit_val_digit_char [simp]: "d < 10 \<Longrightarrow> digit_val (digit_char d) = d"
  by (simp add: digit_val_def digit_char_def)

lemma digit_chars:
  "digit_char 0 = CHR ''0''" "digit_char (Suc 0) = CHR ''1''" "digit_char 2 = CHR ''2''"
  "digit_char 3 = CHR ''3''" "digit_char 4 = CHR ''4''" "digit_char 5 = CHR ''5''"
  "digit_char 6 = CHR ''6''" "digit_char 7 = CHR ''7''" "digit_char 8 = CHR ''8''"
  "digit_char 9 = CHR ''9''"
  by (simp_all add: digit_char_def char_of_eq_iff take_bit_nat_eq_self)

lemmas show_nat_eval = show_nat.simps digit_chars

lemma digits_value_append: "digits_value a (xs @ ys) = digits_value (digits_value a xs) ys"
  by (induction xs arbitrary: a) auto

lemma show_nat_props:
  "show_nat n \<noteq> [] \<and> list_all is_ascii_digit (show_nat n) \<and> digits_value 0 (show_nat n) = n"
proof (induction n rule: show_nat.induct)
  case (1 n)
  show ?case
  proof (cases "n < 10")
    case True
    then show ?thesis by (simp add: show_nat.simps [of n])
  next
    case False
    with "1.IH" show ?thesis by (simp add: show_nat.simps [of n] digits_value_append)
  qed
qed

lemma parse_digits_show_nat [simp]: "parse_digits (show_nat n) = Some n"
  using show_nat_props [of n] by (simp add: parse_digits_def)

lemma show_nat_Cons:
  obtains c r where "show_nat n = c # r" and "is_ascii_digit c" and "c \<noteq> CHR ''+''" and "c \<noteq> CHR ''-''"
proof -
  from show_nat_props [of n] obtain c r where "show_nat n = c # r" and "is_ascii_digit c"
    by (cases "show_nat n") auto
  then show ?thesis by (intro that) (auto simp: is_ascii_digit_def)
qed

lemma parse_unsigned_show_nat: "n < 2 ^ w \<Longrightarrow> parse_unsigned w (show_nat n) = Some n"
proof -
  assume n: "n < 2 ^ w"
  obtain c r where cr: "show_nat n = c # r" "c \<noteq> CHR ''+''" by (rule show_nat_Cons [of n])
  have "parse_digits (c # r) = Some n" by (metis cr(1) parse_digits_show_nat)
  with n cr show ?thesis by (simp add: parse_unsigned_def)
qed

lemma parse_signed_show_int:
  assumes "- (2 ^ (w - 1)) \<le> i" and "i < 2 ^ (w - 1)"
  shows "parse_signed w (show_int i) = Some i"
proof (cases "i < 0")
  case True
  then have "nat (- i) \<le> 2 ^ (w - 1)" using assms(1) by (simp add: nat_le_iff)
  with True show ?thesis by (simp add: parse_signed_def show_int_def)
next
  case False
  then have n: "nat i < 2 ^ (w - 1)" using assms(2) by (simp add: nat_less_iff)
  obtain c r where cr: "show_nat (nat i) = c # r" "c \<noteq> CHR ''+''" "c \<noteq> CHR ''-''"
    by (rule show_nat_Cons [of "nat i"])
  have "parse_digits (c # r) = Some (nat i)" by (metis cr(1) parse_digits_show_nat)
  with False n cr show ?thesis by (simp add: parse_signed_def show_int_def)
qed

lemma parse_i32_show_i32 [simp]: "parse_i32 (show_i32 w) = Some w"
proof -
  have "parse_signed 32 (show_int (sint w)) = Some (sint w)"
    using sint_greater_eq [of w] sint_less [of w] by (intro parse_signed_show_int) simp_all
  then show ?thesis by (simp add: parse_i32_def show_i32_def)
qed

lemma split_char_append: "c \<notin> set a \<Longrightarrow> split_char c (a @ c # b) = a # split_char c b"
  by (induction a) auto

lemma split_char_notin: "c \<notin> set a \<Longrightarrow> split_char c a = [a]"
  by (induction a) auto

lemma show_i32_chars: "c \<in> set (show_i32 w) \<Longrightarrow> is_ascii_digit c \<or> c = CHR ''-''"
  using show_nat_props by (auto simp: show_i32_def show_int_def list_all_iff split: if_splits)

lemma comma_notin_show_i32 [simp]: "CHR '','' \<notin> set (show_i32 w)"
  using show_i32_chars [of "CHR '',''" w] by (auto simp: is_ascii_digit_def)

section \<open>Hexadecimal digits\<close>

definition hex_char :: "nat \<Rightarrow> char" where
  "hex_char d = (if d < 10 then digit_char d else char_of (87 + d))"

fun hex_digits :: "nat \<Rightarrow> nat \<Rightarrow> string" where
  "hex_digits 0 n = []"
| "hex_digits (Suc k) n = hex_digits k (n div 16) @ [hex_char (n mod 16)]"

lemma length_hex_digits: "length (hex_digits k n) = k"
  by (induction k arbitrary: n) auto

end
