(* ===== verification/Async_Env.thy ===== *)
theory Async_Env
  imports Rust_Strings
begin

text \<open>
  The environment of the asynchronous code above \<^verbatim>\<open>EncryptedStream\<close>: an encrypted stream seen
  from the program as a script of what it will deliver, the clock, and \<^verbatim>\<open>tokio\<close>'s timeouts.

  A state \<open>net\<close> holds the time in milliseconds, the results the coming calls of
  \<^verbatim>\<open>EncryptedStream::recv\<close> give with their times of arrival, the results of the coming sends
  (no entry: success), and what was sent so far; the same for the local socket towards the command
  line program (\<^verbatim>\<open>uds\<close>), and the service id the daemon passes down by reference. Theorems hold for all scripts, of any
  length, that is for everything the peer and the network can do in a finite time. A send never waits and takes no time;
  that \<^verbatim>\<open>write_all\<close> and \<^verbatim>\<open>flush\<close> may block when the peer does not read is left out. The theory Stream\_Refinement shows that the
  encrypted stream over a pipe implements this channel of whole messages, and what becomes of the stream when a \<^verbatim>\<open>recv\<close>
  is cancelled by a timeout inside a frame, which the channel leaves out.

  An asynchronous operation gets the deadline of the innermost enclosing timeouts and ends with a
  result, is cut off by the deadline, or waits for ever.
\<close>

section \<open>State and operations\<close>

record net =
  clock :: nat
  inbox :: "(nat \<times> bytes result) list"
  outbox :: "bytes list"
  faults :: "err option list"
  closed :: bool
  uds_out :: "bytes list"
  uds_faults :: "err option list"
  active_service_id :: "string option"

datatype 'a outcome = Done 'a | Elapsed | Hang

type_synonym ('a, 'w) aio = "nat option \<Rightarrow> 'w net_scheme \<Rightarrow> 'a result outcome \<times> 'w net_scheme"

type_synonym 'a async = "('a, unit) aio"

definition bind_async :: "('a, 'w) aio \<Rightarrow> ('a \<Rightarrow> ('b, 'w) aio) \<Rightarrow> ('b, 'w) aio" where
  "bind_async m f dl w =
     (case m dl w of
        (Done (Inr x), w') \<Rightarrow> f x dl w'
      | (Done (Inl e), w') \<Rightarrow> (Done (Inl e), w')
      | (Elapsed, w') \<Rightarrow> (Elapsed, w')
      | (Hang, w') \<Rightarrow> (Hang, w'))"

lemma bind_async_cong [fundef_cong]:
  assumes "dl = dl'" and "w = w'" and "m dl' w' = m' dl' w'"
    and "\<And>x v. m' dl' w' = (Done (Inr x), v) \<Longrightarrow> f x dl' v = f' x dl' v"
  shows "bind_async m f dl w = bind_async m' f' dl' w'"
  using assms by (auto simp: bind_async_def split: prod.splits outcome.splits sum.splits)

lemma bind_async_Ok:
  "bind_async m f dl w = (Done (Ok v), w') \<Longrightarrow> \<exists>u w1. m dl w = (Done (Ok u), w1) \<and> f u dl w1 = (Done (Ok v), w')"
  by (auto simp: bind_async_def split: prod.splits outcome.splits sum.splits)

definition lift_async :: "'a result \<Rightarrow> ('a, 'w) aio" where
  "lift_async r dl w = (Done r, w)"

abbreviation return_async :: "'a \<Rightarrow> ('a, 'w) aio" where
  "return_async x \<equiv> lift_async (Ok x)"

text \<open>The outcome of an operation whose error is looked at instead of passed on.\<close>

definition try_async :: "('a, 'w) aio \<Rightarrow> ('a result, 'w) aio" where
  "try_async m dl w =
     (case m dl w of
        (Done r, w') \<Rightarrow> (Done (Ok r), w')
      | (Elapsed, w') \<Rightarrow> (Elapsed, w')
      | (Hang, w') \<Rightarrow> (Hang, w'))"

definition ctx_async :: "string \<Rightarrow> ('a, 'w) aio \<Rightarrow> ('a, 'w) aio" where
  "ctx_async c m dl w =
     (case m dl w of (Done r, w') \<Rightarrow> (Done (with_ctx c r), w') | (Elapsed, w') \<Rightarrow> (Elapsed, w') | (Hang, w') \<Rightarrow> (Hang, w'))"

text \<open>Waiting for something at time \<open>t\<close> under a deadline; a tie goes to the operation.\<close>

definition stream_recv :: "(bytes, 'w) aio" where
  "stream_recv dl w =
     (case inbox w of
        [] \<Rightarrow> (case dl of
                None \<Rightarrow> (Hang, w)
              | Some d \<Rightarrow> (Elapsed, w\<lparr>clock := max (clock w) d\<rparr>))
      | (t, r) # rest \<Rightarrow>
          let t' = max t (clock w) in
          (case dl of
             None \<Rightarrow> (Done r, w\<lparr>clock := t', inbox := rest\<rparr>)
           | Some d \<Rightarrow>
               if t' \<le> d then (Done r, w\<lparr>clock := t', inbox := rest\<rparr>)
               else (Elapsed, w\<lparr>clock := max (clock w) d\<rparr>)))"

definition stream_send :: "bytes \<Rightarrow> (unit, 'w) aio" where
  "stream_send msg dl w =
     (case faults w of
        Some e # fs \<Rightarrow> (Done (Err e), w\<lparr>faults := fs\<rparr>)
      | None # fs \<Rightarrow> (Done (Ok ()), w\<lparr>faults := fs, outbox := outbox w @ [msg]\<rparr>)
      | [] \<Rightarrow> (Done (Ok ()), w\<lparr>outbox := outbox w @ [msg]\<rparr>))"

definition stream_close :: "(unit, 'w) aio" where
  "stream_close dl w =
     (case faults w of
        Some e # fs \<Rightarrow> (Done (Err e), w\<lparr>faults := fs\<rparr>)
      | None # fs \<Rightarrow> (Done (Ok ()), w\<lparr>faults := fs, closed := True\<rparr>)
      | [] \<Rightarrow> (Done (Ok ()), w\<lparr>closed := True\<rparr>))"

text \<open>\<^verbatim>\<open>write_all\<close> and \<^verbatim>\<open>flush\<close> on the local socket.\<close>

definition uds_write :: "bytes \<Rightarrow> (unit, 'w) aio" where
  "uds_write bs dl w =
     (case uds_faults w of
        Some e # fs \<Rightarrow> (Done (Err e), w\<lparr>uds_faults := fs\<rparr>)
      | None # fs \<Rightarrow> (Done (Ok ()), w\<lparr>uds_faults := fs, uds_out := uds_out w @ [bs]\<rparr>)
      | [] \<Rightarrow> (Done (Ok ()), w\<lparr>uds_out := uds_out w @ [bs]\<rparr>))"

definition set_service :: "string option \<Rightarrow> (unit, 'w) aio" where
  "set_service sid dl w = (Done (Ok ()), w\<lparr>active_service_id := sid\<rparr>)"

text \<open>\<^verbatim>\<open>let _ = m.await\<close>: the result is dropped.\<close>

definition ignore_async :: "(unit, 'w) aio \<Rightarrow> (unit, 'w) aio" where
  "ignore_async m = bind_async (try_async m) (\<lambda>_. return_async ())"

text \<open>\<^verbatim>\<open>tokio::time::timeout(d, m)\<close>: \<open>None\<close> when the time is up before \<open>m\<close> ends.\<close>

definition timeout :: "nat \<Rightarrow> ('a, 'w) aio \<Rightarrow> ('a result option, 'w) aio" where
  "timeout d m dl w =
     (let t = clock w + d;
          dl' = (case dl of None \<Rightarrow> t | Some outer \<Rightarrow> min outer t) in
      case m (Some dl') w of
        (Done r, w') \<Rightarrow> (Done (Ok (Some r)), w')
      | (Elapsed, w') \<Rightarrow>
          (case dl of
             None \<Rightarrow> (Done (Ok None), w')
           | Some outer \<Rightarrow> if t \<le> outer then (Done (Ok None), w') else (Elapsed, w'))
      | (Hang, w') \<Rightarrow> (Hang, w'))"

definition now :: "(nat, 'w) aio" where
  "now dl w = (Done (Ok (clock w)), w)"

section \<open>Rules for well-behaved operations\<close>

text \<open>
  What every operation of the program keeps: time does not run backwards and not past a deadline
  that lies ahead, messages are taken from the front of the inbox, none before it has arrived, and what was sent
  stays sent.
\<close>

definition steps_to :: "nat option \<Rightarrow> 'w net_scheme \<Rightarrow> 'w net_scheme \<Rightarrow> bool" where
  "steps_to dl w w' \<longleftrightarrow> clock w \<le> clock w' \<and>
     (\<forall>d. dl = Some d \<longrightarrow> clock w \<le> d \<longrightarrow> clock w' \<le> d) \<and>
     (\<exists>k. inbox w' = drop k (inbox w) \<and> (\<forall>p\<in>set (take k (inbox w)). fst p \<le> clock w')) \<and>
     (\<exists>ms. outbox w' = outbox w @ ms)"

definition well_behaved :: "('a, 'w) aio \<Rightarrow> bool" where
  "well_behaved m \<longleftrightarrow> (\<forall>dl w. steps_to dl w (snd (m dl w)) \<and> (fst (m dl w) = Hang \<longrightarrow> dl = None))"

lemma steps_to_refl [simp]: "steps_to dl w w"
  by (auto simp: steps_to_def intro: exI [of _ "0 :: nat"])

lemma steps_to_trans:
  assumes "steps_to dl w w1" and "steps_to dl w1 w2"
  shows "steps_to dl w w2"
proof -
  from assms(1) obtain k where k: "inbox w1 = drop k (inbox w)" "\<forall>p\<in>set (take k (inbox w)). fst p \<le> clock w1"
    by (auto simp: steps_to_def)
  from assms(2) obtain j where j: "inbox w2 = drop j (inbox w1)" "\<forall>p\<in>set (take j (inbox w1)). fst p \<le> clock w2"
    by (auto simp: steps_to_def)
  have "clock w1 \<le> clock w2" using assms(2) by (simp add: steps_to_def)
  moreover have "set (take (k + j) (inbox w)) = set (take k (inbox w)) \<union> set (take j (inbox w1))"
    by (simp add: take_add k(1))
  ultimately have "inbox w2 = drop (k + j) (inbox w) \<and> (\<forall>p\<in>set (take (k + j) (inbox w)). fst p \<le> clock w2)"
    using k j by (auto simp: add.commute)
  with assms show ?thesis unfolding steps_to_def by fastforce
qed

lemma well_behavedD:
  assumes "well_behaved m" and "m dl w = (r, w')"
  shows "steps_to dl w w'" and "r = Hang \<Longrightarrow> dl = None"
  using assms unfolding well_behaved_def by (metis snd_conv, metis fst_conv)

lemma wb_lift [intro, simp]: "well_behaved (lift_async r)"
  by (simp add: well_behaved_def lift_async_def)

lemma wb_now [intro, simp]: "well_behaved now"
  by (simp add: well_behaved_def now_def)

lemma wb_recv [intro, simp]: "well_behaved stream_recv"
  by (auto simp: well_behaved_def stream_recv_def steps_to_def Let_def
      split: list.splits option.splits prod.splits intro: exI [of _ "0 :: nat"] exI [of _ "1 :: nat"])

lemma wb_send [intro, simp]: "well_behaved (stream_send msg)"
  by (auto simp: well_behaved_def stream_send_def steps_to_def
      split: list.splits option.splits intro: exI [of _ "0 :: nat"])

lemma wb_close [intro, simp]: "well_behaved stream_close"
  by (auto simp: well_behaved_def stream_close_def steps_to_def
      split: list.splits option.splits intro: exI [of _ "0 :: nat"])

lemma wb_uds_write [intro, simp]: "well_behaved (uds_write bs)"
  by (auto simp: well_behaved_def uds_write_def steps_to_def
      split: list.splits option.splits intro: exI [of _ "0 :: nat"])

lemma wb_set_service [intro, simp]: "well_behaved (set_service sid)"
  by (auto simp: well_behaved_def set_service_def steps_to_def intro: exI [of _ "0 :: nat"])

lemma wb_bind [intro]:
  assumes "well_behaved m" and "\<And>x. well_behaved (f x)"
  shows "well_behaved (bind_async m f)"
  unfolding well_behaved_def
proof (intro allI)
  fix dl w
  obtain r w1 where m: "m dl w = (r, w1)" by force
  from well_behavedD [OF assms(1) m] have s: "steps_to dl w w1" "r = Hang \<Longrightarrow> dl = None" by auto
  show "steps_to dl w (snd (bind_async m f dl w)) \<and> (fst (bind_async m f dl w) = Hang \<longrightarrow> dl = None)"
  proof (cases r)
    case (Done q)
    show ?thesis
    proof (cases q)
      case (Inr x)
      have "steps_to dl w1 (snd (f x dl w1)) \<and> (fst (f x dl w1) = Hang \<longrightarrow> dl = None)"
        using assms(2) [of x] by (simp add: well_behaved_def)
      with s m Done Inr show ?thesis by (auto simp: bind_async_def intro: steps_to_trans)
    qed (use s m Done in \<open>simp add: bind_async_def\<close>)
  qed (use s m in \<open>simp_all add: bind_async_def\<close>)
qed

lemma wb_ctx [intro, simp]: "well_behaved m \<Longrightarrow> well_behaved (ctx_async c m)"
  unfolding well_behaved_def [of "ctx_async c m"]
  by (auto simp: ctx_async_def split: prod.splits outcome.splits dest: well_behavedD)

lemma wb_try [intro, simp]: "well_behaved m \<Longrightarrow> well_behaved (try_async m)"
  unfolding well_behaved_def [of "try_async m"]
  by (auto simp: try_async_def split: prod.splits outcome.splits dest: well_behavedD)

lemma wb_ignore [intro, simp]: "well_behaved m \<Longrightarrow> well_behaved (ignore_async m)"
  unfolding ignore_async_def by (intro wb_bind) auto

lemma wb_timeout [intro, simp]:
  fixes m :: "('a, 'w) aio"
  assumes "well_behaved m"
  shows "well_behaved (timeout d m)"
  unfolding well_behaved_def
proof (intro allI)
  fix dl and w :: "'w net_scheme"
  let ?t = "case dl of None \<Rightarrow> clock w + d | Some outer \<Rightarrow> min outer (clock w + d)"
  obtain r w1 where m: "m (Some ?t) w = (r, w1)" by force
  from well_behavedD [OF assms m] have s: "steps_to (Some ?t) w w1" "r \<noteq> Hang" by blast+
  then have "steps_to dl w w1"
    by (auto simp: steps_to_def split: option.splits)
  with s m show "steps_to dl w (snd (timeout d m dl w)) \<and> (fst (timeout d m dl w) = Hang \<longrightarrow> dl = None)"
    by (cases r) (auto simp: timeout_def Let_def split: option.splits)
qed

text \<open>
  The part of this that holds of operations over several connections, too: only about time.
\<close>

definition timely :: "('a, 'w) aio \<Rightarrow> bool" where
  "timely m \<longleftrightarrow> (\<forall>dl w. clock w \<le> clock (snd (m dl w)) \<and>
     (\<forall>d. dl = Some d \<longrightarrow> clock w \<le> d \<longrightarrow> clock (snd (m dl w)) \<le> d) \<and>
     (fst (m dl w) = Hang \<longrightarrow> dl = None))"

lemma timelyI:
  assumes "\<And>dl w r w'. m dl w = (r, w') \<Longrightarrow> clock w \<le> clock w' \<and>
     (\<forall>d. dl = Some d \<longrightarrow> clock w \<le> d \<longrightarrow> clock w' \<le> d) \<and> (r = Hang \<longrightarrow> dl = None)"
  shows "timely m"
  unfolding timely_def using assms by (metis prod.collapse)

lemma timelyD:
  assumes "timely m" and "m dl w = (r, w')"
  shows "clock w \<le> clock w'" and "dl = Some d \<Longrightarrow> clock w \<le> d \<Longrightarrow> clock w' \<le> d" and "r = Hang \<Longrightarrow> dl = None"
  using assms unfolding timely_def by (metis snd_conv, metis snd_conv, metis fst_conv)

lemma wb_timely [simp]: "well_behaved m \<Longrightarrow> timely m"
  unfolding well_behaved_def timely_def steps_to_def by auto

lemma timely_lift [simp, intro]: "timely (lift_async r)"
  by simp

lemma timely_ctx [simp, intro]: "timely m \<Longrightarrow> timely (ctx_async c m)"
  by (rule timelyI) (auto simp: ctx_async_def split: prod.splits outcome.splits dest: timelyD)

lemma timely_try [simp, intro]: "timely m \<Longrightarrow> timely (try_async m)"
  by (rule timelyI) (auto simp: try_async_def split: prod.splits outcome.splits dest: timelyD)

lemma timely_bind [intro]:
  assumes "timely m" and "\<And>x. timely (f x)"
  shows "timely (bind_async m f)"
proof (rule timelyI)
  fix dl w r w'
  assume run: "bind_async m f dl w = (r, w')"
  obtain q w1 where m: "m dl w = (q, w1)" by force
  note t = timelyD [OF assms(1) m]
  show "clock w \<le> clock w' \<and> (\<forall>d. dl = Some d \<longrightarrow> clock w \<le> d \<longrightarrow> clock w' \<le> d) \<and> (r = Hang \<longrightarrow> dl = None)"
  proof (cases "\<exists>x. q = Done (Ok x)")
    case True
    then obtain x where x: "q = Done (Ok x)" by blast
    with run m have "f x dl w1 = (r, w')" by (simp add: bind_async_def)
    from timelyD [OF assms(2) this] t show ?thesis by fastforce
  next
    case False
    with run m t show ?thesis by (auto simp: bind_async_def split: outcome.splits sum.splits)
  qed
qed

text \<open>The same for one run, as the induction rules of the loops need it.\<close>

definition timely_run :: "('a, 'w) aio \<Rightarrow> nat option \<Rightarrow> 'w net_scheme \<Rightarrow> bool" where
  "timely_run m dl w \<longleftrightarrow> clock w \<le> clock (snd (m dl w)) \<and>
     (\<forall>d. dl = Some d \<longrightarrow> clock w \<le> d \<longrightarrow> clock (snd (m dl w)) \<le> d) \<and> (fst (m dl w) = Hang \<longrightarrow> dl = None)"

lemma timely_iff: "timely m \<longleftrightarrow> (\<forall>dl w. timely_run m dl w)"
  by (simp add: timely_def timely_run_def)

lemma timely_run_bind:
  assumes "timely_run m dl w"
    and "\<And>x w1. m dl w = (Done (Inr x), w1) \<Longrightarrow> timely_run (g x) dl w1"
  shows "timely_run (bind_async m g) dl w"
proof -
  obtain r w1 where r: "m dl w = (r, w1)" by force
  show ?thesis
  proof (cases "\<exists>x. r = Done (Inr x)")
    case True
    then obtain x where x: "r = Done (Inr x)" by blast
    with assms(2) [of x w1] r have "timely_run (g x) dl w1" by simp
    with assms(1) r x show ?thesis by (auto simp: timely_run_def bind_async_def)
  next
    case False
    with assms(1) r show ?thesis by (auto simp: timely_run_def bind_async_def split: outcome.splits sum.splits)
  qed
qed

lemma timely_run_Done [simp]: "m dl w = (Done r, w) \<Longrightarrow> timely_run m dl w"
  by (auto simp: timely_run_def)

lemma timely_runI: "timely m \<Longrightarrow> timely_run m dl w"
  by (simp add: timely_iff)

lemma timely_timeout [simp, intro]:
  fixes m :: "('a, 'w) aio"
  assumes "timely m"
  shows "timely (timeout d m)"
proof (rule timelyI)
  fix dl r and w w' :: "'w net_scheme"
  assume run: "timeout d m dl w = (r, w')"
  let ?t = "case dl of None \<Rightarrow> clock w + d | Some outer \<Rightarrow> min outer (clock w + d)"
  obtain q w1 where m: "m (Some ?t) w = (q, w1)" by force
  have w1: "w1 = w'" using run m by (auto simp: timeout_def Let_def split: outcome.splits option.splits if_splits)
  from timelyD [OF assms m] run m show "clock w \<le> clock w' \<and>
      (\<forall>d. dl = Some d \<longrightarrow> clock w \<le> d \<longrightarrow> clock w' \<le> d) \<and> (r = Hang \<longrightarrow> dl = None)"
    unfolding w1 by (cases q; cases dl) (auto simp: timeout_def split: if_splits)
qed

text \<open>A timeout always ends, and by its deadline.\<close>

lemma timeout_ends:
  fixes m :: "('a, 'w) aio" and w :: "'w net_scheme"
  assumes "timely m"
  shows "\<exists>r w'. timeout d m None w = (Done (Ok r), w') \<and> clock w \<le> clock w' \<and> clock w' \<le> clock w + d"
proof -
  obtain r w1 where m: "m (Some (clock w + d)) w = (r, w1)" by force
  with timelyD [OF assms m] show ?thesis by (cases r) (auto simp: timeout_def)
qed

lemma stream_recv_shorter:
  "stream_recv dl w = (Done r, w') \<Longrightarrow> length (inbox w') < length (inbox w)"
  by (auto simp: stream_recv_def Let_def split: list.splits option.splits if_splits)

lemma stream_send_inbox: "inbox (snd (stream_send msg dl w)) = inbox w"
  by (auto simp: stream_send_def split: list.splits option.splits)

lemma stream_send_Done: "\<exists>r w'. stream_send msg dl w = (Done r, w')"
  by (auto simp: stream_send_def split: list.splits option.splits)

section \<open>Receiving until something happens\<close>

text \<open>
  \<^verbatim>\<open>loop { let raw = stream.recv().await...; ... }\<close> where the body \<open>f\<close> looks at what was received and
  either leaves the loop with a result or goes on.
\<close>

function recv_until :: "(bytes result \<Rightarrow> 'a result option) \<Rightarrow> ('a, 'w) aio" where
  "recv_until f dl w =
     (case stream_recv dl w of
        (Done r, w') \<Rightarrow> (case f r of Some res \<Rightarrow> (Done res, w') | None \<Rightarrow> recv_until f dl w')
      | (Elapsed, w') \<Rightarrow> (Elapsed, w')
      | (Hang, w') \<Rightarrow> (Hang, w'))"
  by pat_completeness auto
termination
  by (relation "measure (\<lambda>(f, dl, w). length (inbox w))") (auto dest: stream_recv_shorter [OF sym])

declare recv_until.simps [simp del]

lemma wb_recv_until [intro, simp]: "well_behaved (recv_until f)"
  unfolding well_behaved_def
proof (intro allI)
  fix dl w
  show "steps_to dl w (snd (recv_until f dl w)) \<and> (fst (recv_until f dl w) = Hang \<longrightarrow> dl = None)"
  proof (induction "length (inbox w)" arbitrary: w rule: less_induct)
    case (less w)
    obtain r w1 where r: "stream_recv dl w = (r, w1)" by force
    note s = well_behavedD [OF wb_recv r]
    show ?case
    proof (cases r)
      case (Done q)
      have "length (inbox w1) < length (inbox w)" using r Done by (auto dest: stream_recv_shorter)
      from less [OF this] s(1) r Done show ?thesis
        by (auto simp: recv_until.simps [of f dl w] split: option.splits intro: steps_to_trans)
    next
      case Elapsed
      have "recv_until f dl w = (Elapsed, w1)" using r Elapsed by (simp add: recv_until.simps [of f dl w])
      with s show ?thesis by simp
    next
      case Hang
      have "recv_until f dl w = (Hang, w1)" using r Hang by (simp add: recv_until.simps [of f dl w])
      with s Hang show ?thesis by simp
    qed
  qed
qed

lemma recv_until_Done:
  assumes "recv_until f dl w = (Done res, w')"
  shows "\<exists>pre t r. inbox w = pre @ (t, r) # inbox w' \<and> list_all (\<lambda>p. f (snd p) = None) pre \<and> f r = Some res \<and>
     outbox w' = outbox w"
  using assms
proof (induction "length (inbox w)" arbitrary: w rule: less_induct)
  case (less w)
  note step = recv_until.simps [of f dl w]
  from less.prems obtain r w1 where r: "stream_recv dl w = (Done r, w1)"
    by (auto simp: step split: prod.splits outcome.splits)
  then obtain t where t: "inbox w = (t, r) # inbox w1" "outbox w1 = outbox w"
    by (auto simp: stream_recv_def Let_def split: list.splits option.splits if_splits)
  show ?case
  proof (cases "f r")
    case (Some q)
    with less.prems r t show ?thesis by (intro exI [of _ "[]"]) (simp add: step)
  next
    case None
    with less.prems r have "recv_until f dl w1 = (Done res, w')" by (simp add: step)
    from less.hyps [OF _ this] t obtain pre t' r' where
      "inbox w1 = pre @ (t', r') # inbox w'" "list_all (\<lambda>p. f (snd p) = None) pre" "f r' = Some res"
      "outbox w' = outbox w" by auto
    with None t show ?thesis by (intro exI [of _ "(t, r) # pre"]) auto
  qed
qed

section \<open>Rules for total correctness\<close>

text \<open>
  \<open>ends m w P\<close>: run from \<open>w\<close> with no deadline around it, \<open>m\<close> comes to an end, and \<open>P\<close> holds of its result and
  of the state it leaves. The rules follow the structure of the code.
\<close>

definition ends :: "('a, 'w) aio \<Rightarrow> 'w net_scheme \<Rightarrow> ('a result \<Rightarrow> 'w net_scheme \<Rightarrow> bool) \<Rightarrow> bool" where
  "ends m w P \<longleftrightarrow> (\<exists>r w'. m None w = (Done r, w') \<and> P r w')"

lemma endsI: "m None w = (Done r, w') \<Longrightarrow> P r w' \<Longrightarrow> ends m w P"
  by (auto simp: ends_def)

lemma endsE:
  assumes "ends m w P"
  obtains r w' where "m None w = (Done r, w')" and "P r w'"
  using assms by (auto simp: ends_def)

lemma ends_mono: "ends m w Q \<Longrightarrow> (\<And>r w'. Q r w' \<Longrightarrow> P r w') \<Longrightarrow> ends m w P"
  by (auto simp: ends_def)

lemma ends_conj: "ends m w P \<Longrightarrow> ends m w Q \<Longrightarrow> ends m w (\<lambda>r w'. P r w' \<and> Q r w')"
  by (auto simp: ends_def)

lemma ends_bind:
  assumes "ends m w Q" and "\<And>x w1. Q (Ok x) w1 \<Longrightarrow> ends (f x) w1 P" and "\<And>e w1. Q (Err e) w1 \<Longrightarrow> P (Err e) w1"
  shows "ends (bind_async m f) w P"
proof -
  from assms(1) obtain r w1 where r: "m None w = (Done r, w1)" "Q r w1" by (rule endsE)
  show ?thesis
  proof (cases r)
    case (Inl e)
    with r assms(3) show ?thesis by (auto simp: ends_def bind_async_def)
  next
    case (Inr x)
    with r assms(2) show ?thesis by (auto simp: ends_def bind_async_def)
  qed
qed

lemma ends_lift: "P r w \<Longrightarrow> ends (lift_async r) w P"
  by (simp add: ends_def lift_async_def)

lemma ends_ctx: "ends m w (\<lambda>r. P (with_ctx c r)) \<Longrightarrow> ends (ctx_async c m) w P"
  by (auto simp: ends_def ctx_async_def)

lemma ends_try: "ends m w (\<lambda>r. P (Ok r)) \<Longrightarrow> ends (try_async m) w P"
  by (auto simp: ends_def try_async_def)

lemma ends_now: "P (Ok (clock w)) w \<Longrightarrow> ends now w P"
  by (simp add: ends_def now_def)

text \<open>A send either fails with the next fault of the script, or appends to what was sent.\<close>

lemma ends_send:
  assumes "\<And>e fs. P (Err e) (w\<lparr>faults := fs\<rparr>)" and "\<And>fs. P (Ok ()) (w\<lparr>faults := fs, outbox := outbox w @ [m]\<rparr>)"
  shows "ends (stream_send m) w P"
proof (cases "faults w")
  case Nil
  then have "w = w\<lparr>faults := []\<rparr>" by (cases w) simp
  with assms(2) [of "[]"] Nil show ?thesis
    by (intro endsI [where r = "Ok ()" and w' = "w\<lparr>outbox := outbox w @ [m]\<rparr>"]) (simp_all add: stream_send_def)
next
  case (Cons f fs)
  with assms show ?thesis by (cases f) (auto simp: ends_def stream_send_def)
qed

text \<open>The same for the steps that occur most at the head of a sequence.\<close>

lemma ends_bind_lift:
  assumes "\<And>x. r = Ok x \<Longrightarrow> ends (f x) w P" and "\<And>e. r = Err e \<Longrightarrow> P (Err e) w"
  shows "ends (bind_async (lift_async r) f) w P"
  using assms by (cases r) (simp_all add: ends_def bind_async_def lift_async_def)

lemma ends_bind_now: "ends (f (clock w)) w P \<Longrightarrow> ends (bind_async now f) w P"
  by (simp add: ends_def bind_async_def now_def)

lemma ends_bind_send:
  assumes "\<And>fs. ends (f ()) (w\<lparr>faults := fs, outbox := outbox w @ [m]\<rparr>) P" and "\<And>e fs. P (Err e) (w\<lparr>faults := fs\<rparr>)"
  shows "ends (bind_async (stream_send m) f) w P"
proof (rule ends_bind [OF ends_send [where P = "\<lambda>r w'. case r of Inl _ \<Rightarrow> \<exists>fs. w' = w\<lparr>faults := fs\<rparr>
      | Inr _ \<Rightarrow> \<exists>fs. w' = w\<lparr>faults := fs, outbox := outbox w @ [m]\<rparr>"]])
qed (use assms in auto)

end
