(* ===== verification/Framing.thy ===== *)
theory Framing
  imports Rust_Strings
begin

text \<open>
  \<^verbatim>\<open>src/transport.rs\<close>: the BytesCodec framing of \<^verbatim>\<open>FramedTransport\<close>, and its second copy
  in \<^verbatim>\<open>src/rendezvous.rs\<close> (\<^verbatim>\<open>bytescodec_send\<close>, \<^verbatim>\<open>bytescodec_recv\<close>).

  The byte stream underneath (\<^verbatim>\<open>S: AsyncRead + AsyncWrite\<close> of tokio) is a parameter: the
  record \<open>byte_stream\<close> of the four operations the code calls. \<open>pipe_laws\<close> states what tokio
  documents of them for an open pipe: \<^verbatim>\<open>write_all\<close> appends to what the peer can read,
  \<^verbatim>\<open>read_exact\<close> takes exactly the bytes asked for or fails at the end of the stream.
\<close>

section \<open>The byte stream\<close>

record 's byte_stream =
  write_all :: "bytes \<Rightarrow> ('s, unit) op"
  flush_io :: "('s, unit) op"
  read_exact :: "nat \<Rightarrow> ('s, bytes) op"
  shutdown_io :: "('s, unit) op"

definition pipe_laws :: "'s byte_stream \<Rightarrow> ('s \<Rightarrow> bytes) \<Rightarrow> ('s \<Rightarrow> bytes) \<Rightarrow> bool" where
  "pipe_laws io unread written \<longleftrightarrow>
     (\<forall>bs s. \<exists>s'. write_all io bs s = (Ok (), s') \<and>
        written s' = written s @ bs \<and> unread s' = unread s) \<and>
     (\<forall>s. \<exists>s'. flush_io io s = (Ok (), s') \<and> written s' = written s \<and> unread s' = unread s) \<and>
     (\<forall>n s. n \<le> length (unread s) \<longrightarrow>
        (\<exists>s'. read_exact io n s = (Ok (take n (unread s)), s') \<and>
           unread s' = drop n (unread s) \<and> written s' = written s)) \<and>
     (\<forall>n s. length (unread s) < n \<longrightarrow> (\<exists>e s'. read_exact io n s = (Err e, s')))"

section \<open>FramedTransport\<close>

text \<open>The header \<^verbatim>\<open>FramedTransport::send\<close> writes for a payload of \<open>len\<close> bytes.\<close>

definition frame_header :: "nat \<Rightarrow> bytes option" where
  "frame_header len =
     (if len \<le> 0x3F then Some [push_bit 2 (of_nat len :: u8) OR 0]
      else if len \<le> 0x3FFF then Some (to_le_bytes 2 (push_bit 2 (of_nat len :: u16) OR 1))
      else if len \<le> 0x3FFFFF then Some (take 3 (to_le_bytes 4 (push_bit 2 (of_nat len :: u32) OR 2)))
      else if len \<le> 0x3FFFFFFF then Some (to_le_bytes 4 (push_bit 2 (of_nat len :: u32) OR 3))
      else None)"

definition framed_send :: "'s byte_stream \<Rightarrow> bytes \<Rightarrow> ('s, unit) op" where
  "framed_send io msg =
     (case frame_header (length msg) of
        Some header \<Rightarrow>
          bind_op (write_all io header) (\<lambda>_.
          bind_op (write_all io msg) (\<lambda>_.
          bind_op (flush_io io) (\<lambda>_.
          return_op ())))
      | None \<Rightarrow>
          fail_op [''payload too large for BytesCodec: '' @ show_nat (length msg) @ '' bytes''])"

definition max_recv_payload :: nat where
  "max_recv_payload = 64 * 1024 * 1024"

text \<open>\<^verbatim>\<open>FramedTransport::recv\<close>: first byte, rest of the header, payload.\<close>

definition recv_header :: "'s byte_stream \<Rightarrow> ('s, u32) op" where
  "recv_header io =
     bind_op (read_exact io 1) (\<lambda>first.
     let tag = hd first AND 0x03; header_len = unat (tag + 1) in
     bind_op (if 1 < header_len then read_exact io (header_len - 1) else return_op []) (\<lambda>more.
     let raw = first @ more @ replicate (4 - header_len) 0 in
     return_op (from_le_bytes raw)))"

definition framed_recv :: "'s byte_stream \<Rightarrow> ('s, bytes) op" where
  "framed_recv io =
     bind_op (recv_header io) (\<lambda>combined.
     let payload_len = unat (drop_bit 2 combined) in
     if max_recv_payload < payload_len
     then fail_op [''payload length '' @ show_nat payload_len @ '' exceeds 64 MiB safety limit'']
     else read_exact io payload_len)"

definition framed_close :: "'s byte_stream \<Rightarrow> ('s, unit) op" where
  "framed_close io = bind_op (shutdown_io io) (\<lambda>_. return_op ())"

section \<open>The copy of the codec in the rendezvous client\<close>

definition bytescodec_send :: "'s byte_stream \<Rightarrow> bytes \<Rightarrow> ('s, unit) op" where
  "bytescodec_send io msg =
     (let len = length msg;
          put = (\<lambda>header. bind_op (write_all io header) (\<lambda>_.
                 bind_op (write_all io msg) (\<lambda>_.
                 bind_op (flush_io io) (\<lambda>_. return_op ())))) in
      if len \<le> 0x3F then put [push_bit 2 (of_nat len :: u8) OR 0]
      else if len \<le> 0x3FFF then put (to_le_bytes 2 (push_bit 2 (of_nat len :: u16) OR 1))
      else if len \<le> 0x3FFFFF then put (take 3 (to_le_bytes 4 (push_bit 2 (of_nat len :: u32) OR 2)))
      else if len \<le> 0x3FFFFFFF then put (to_le_bytes 4 (push_bit 2 (of_nat len :: u32) OR 3))
      else fail_op [''bytescodec_send: payload too large: '' @ show_nat len @ '' bytes''])"

definition bytescodec_recv :: "'s byte_stream \<Rightarrow> ('s, bytes) op" where
  "bytescodec_recv io =
     bind_op (read_exact io 1) (\<lambda>first.
     let tag = hd first AND 0x03; header_len = unat (tag + 1) in
     bind_op (if 1 < header_len then read_exact io (header_len - 1) else return_op []) (\<lambda>more.
     let raw = first @ more @ replicate (4 - header_len) 0;
         combined = (from_le_bytes raw :: u32);
         payload_len = unat (drop_bit 2 combined) in
     if max_recv_payload < payload_len
     then fail_op [''bytescodec_recv: payload '' @ show_nat payload_len @ '' exceeds 64 MiB limit'']
     else read_exact io payload_len))"

section \<open>Header lemmas\<close>

lemma bit_of_nat_less:
  assumes "(n :: nat) < 2 ^ k" and "bit n i"
  shows "i < k"
proof -
  from assms(1) have "take_bit k n = n" by (simp add: take_bit_nat_eq_self)
  with assms(2) show ?thesis by (metis bit_take_bit_iff)
qed

lemma tag_bits:
  fixes w :: "'a::len word"
  assumes "8 \<le> LENGTH('a)" and "k < 4"
  shows "(ucast (push_bit 2 w OR of_nat k) :: u8) AND 3 = of_nat k"
proof -
  have 3: "(3 :: u8) = mask 2" by (simp add: mask_eq_exp_minus_1)
  have "bit k i \<Longrightarrow> i < 2" for i using bit_of_nat_less [of k 2 i] assms(2) by simp
  then show ?thesis
    unfolding 3 using assms(1) by (intro bit_word_eqI) (auto simp: bit_simps)
qed

lemma header_value:
  fixes w :: "'a::len word"
  assumes w: "w = push_bit 2 (of_nat len) OR of_nat k" and "k < 4"
    and "len < 2 ^ m" and "m + 2 \<le> 8 * n" and "8 * n \<le> LENGTH('a)" and "LENGTH('a) \<le> 32"
  shows "drop_bit 2 (from_le_bytes (to_le_bytes n w) :: u32) = of_nat len"
proof -
  have "bit k i \<Longrightarrow> i < 2" for i using bit_of_nat_less [of k 2 i] assms(2) by simp
  moreover have "bit len i \<Longrightarrow> i < m" for i using bit_of_nat_less [of len m i] assms(3) by simp
  ultimately show ?thesis
    unfolding from_to_le_bytes w using assms(4-)
    by (intro bit_word_eqI) (force simp: bit_simps)
qed

lemma take_to_le_bytes: "k \<le> n \<Longrightarrow> take k (to_le_bytes n w) = to_le_bytes k w"
  by (simp add: to_le_bytes_def take_map)

lemma to_le_bytes_Cons: "0 < n \<Longrightarrow> to_le_bytes n w = ucast w # to_le_bytes (n - 1) (drop_bit 8 w)"
  by (cases n) (simp_all add: to_le_bytes_Suc)

text \<open>Every header is \<open>n\<close> little-endian bytes of \<open>len * 4 + (n - 1)\<close>.\<close>

lemma header_decodes:
  fixes w :: "'a::len word"
  assumes "w = push_bit 2 (of_nat len) OR of_nat (n - 1)" and "0 < n" and "n \<le> 4"
    and "len < 2 ^ (8 * n - 2)" and "8 * n \<le> LENGTH('a)" and "LENGTH('a) \<le> 32"
    and h: "h = to_le_bytes n w"
  shows "\<exists>b hs. h = b # hs \<and> unat ((b AND 3) + 1) = length h \<and>
     unat (drop_bit 2 (from_le_bytes (h @ replicate (4 - length h) 0) :: u32)) = len"
proof -
  have tag: "(ucast w :: u8) AND 3 = of_nat (n - 1)"
    unfolding assms(1) using assms(2,3,5) by (intro tag_bits) auto
  have len: "drop_bit 2 (from_le_bytes h :: u32) = of_nat len"
    unfolding h using assms(1-6) by (intro header_value [where k = "n - 1" and m = "8 * n - 2"]) auto
  have "len < 2 ^ (8 * n - 2)" by fact
  also have "(2 :: nat) ^ (8 * n - 2) \<le> 2 ^ 30" using assms(3) by (intro power_increasing) auto
  finally have "unat (of_nat len :: u32) = len" by (simp add: unat_of_nat)
  moreover have "unat ((of_nat (n - 1) :: u8) + 1) = n"
    using assms(2,3) by (simp add: of_nat_diff unat_of_nat)
  ultimately show ?thesis
    using assms(2) tag len
    by (simp add: h from_le_bytes_append_zero to_le_bytes_Cons)
qed

lemma frame_header_decodes:
  assumes "frame_header len = Some h"
  shows "\<exists>b hs. h = b # hs \<and> unat ((b AND 3) + 1) = length h \<and>
     unat (drop_bit 2 (from_le_bytes (h @ replicate (4 - length h) 0) :: u32)) = len"
proof -
  consider (1) "len < 2 ^ 6" "h = to_le_bytes 1 (push_bit 2 (of_nat len :: u8) OR of_nat 0)"
    | (2) "len < 2 ^ 14" "h = to_le_bytes 2 (push_bit 2 (of_nat len :: u16) OR of_nat 1)"
    | (3) "len < 2 ^ 22" "h = to_le_bytes 3 (push_bit 2 (of_nat len :: u32) OR of_nat 2)"
    | (4) "len < 2 ^ 30" "h = to_le_bytes 4 (push_bit 2 (of_nat len :: u32) OR of_nat 3)"
    using assms
    by (auto simp: frame_header_def take_to_le_bytes to_le_bytes_Suc [of 0] split: if_splits)
  then show ?thesis
  proof cases
    case 1
    then show ?thesis by (intro header_decodes [where n = 1, OF _ _ _ _ _ _ 1(2)]) auto
  next
    case 2
    then show ?thesis by (intro header_decodes [where n = 2, OF _ _ _ _ _ _ 2(2)]) auto
  next
    case 3
    then show ?thesis by (intro header_decodes [where n = 3, OF _ _ _ _ _ _ 3(2)]) auto
  next
    case 4
    then show ?thesis by (intro header_decodes [where n = 4, OF _ _ _ _ _ _ 4(2)]) auto
  qed
qed

lemma frame_header_None: "frame_header len = None \<longleftrightarrow> 0x3FFFFFFF < len"
  by (auto simp: frame_header_def)

lemma frame_header_length: "frame_header len = Some h \<Longrightarrow> 1 \<le> length h \<and> length h \<le> 4"
  by (auto simp: frame_header_def split: if_splits)

section \<open>The codec over a pipe\<close>

definition wire_frame :: "bytes \<Rightarrow> bytes" where
  "wire_frame msg = (case frame_header (length msg) of Some h \<Rightarrow> h @ msg | None \<Rightarrow> [])"

lemma pipe_write:
  assumes "pipe_laws io unread written"
  obtains s' where "write_all io bs s = (Ok (), s')"
    and "written s' = written s @ bs" and "unread s' = unread s"
  using assms unfolding pipe_laws_def by meson

lemma pipe_flush:
  assumes "pipe_laws io unread written"
  obtains s' where "flush_io io s = (Ok (), s')"
    and "written s' = written s" and "unread s' = unread s"
  using assms unfolding pipe_laws_def by meson

lemma pipe_read:
  assumes "pipe_laws io unread written" and "n \<le> length (unread s)"
  obtains s' where "read_exact io n s = (Ok (take n (unread s)), s')"
    and "unread s' = drop n (unread s)" and "written s' = written s"
  using assms unfolding pipe_laws_def by meson

lemma pipe_read_eof:
  assumes "pipe_laws io unread written" and "length (unread s) < n"
  obtains e s' where "read_exact io n s = (Err e, s')"
  using assms unfolding pipe_laws_def by meson

lemma framed_send_pipe:
  assumes "pipe_laws io unread written" and "length msg \<le> 0x3FFFFFFF"
  shows "\<exists>s'. framed_send io msg s = (Ok (), s') \<and>
     written s' = written s @ wire_frame msg \<and> unread s' = unread s"
proof -
  from assms(2) obtain h where h: "frame_header (length msg) = Some h"
    using frame_header_None [of "length msg"] by (cases "frame_header (length msg)") auto
  obtain s1 where s1: "write_all io h s = (Ok (), s1)" "written s1 = written s @ h" "unread s1 = unread s"
    by (rule pipe_write [OF assms(1)])
  obtain s2 where s2: "write_all io msg s1 = (Ok (), s2)" "written s2 = written s1 @ msg" "unread s2 = unread s1"
    by (rule pipe_write [OF assms(1)])
  obtain s3 where s3: "flush_io io s2 = (Ok (), s3)" "written s3 = written s2" "unread s3 = unread s2"
    by (rule pipe_flush [OF assms(1)])
  show ?thesis
    using h s1 s2 s3 by (simp add: framed_send_def wire_frame_def bind_op_def)
qed

text \<open>Reading a header that the peer wrote gives back the length it encodes.\<close>

lemma recv_header_pipe:
  assumes io: "pipe_laws io unread written" and h: "frame_header len = Some h"
    and unread: "unread s = h @ rest"
  shows "\<exists>c s'. recv_header io s = (Ok c, s') \<and> unat (drop_bit 2 c) = len \<and>
     unread s' = rest \<and> written s' = written s"
proof -
  obtain b hs where b: "h = b # hs" "unat ((b AND 3) + 1) = length h"
    and len: "unat (drop_bit 2 (from_le_bytes (h @ replicate (4 - length h) 0) :: u32)) = len"
    using frame_header_decodes [OF h] by blast
  have "1 \<le> length (unread s)" by (simp add: unread b)
  then obtain s1 where s1: "read_exact io 1 s = (Ok (take 1 (unread s)), s1)"
    "unread s1 = drop 1 (unread s)" "written s1 = written s"
    by (rule pipe_read [OF io])
  show ?thesis
  proof (cases "hs = []")
    case True
    with s1 b len unread show ?thesis by (simp add: recv_header_def bind_op_def Let_def)
  next
    case False
    have "length h - 1 \<le> length (unread s1)" by (simp add: s1 unread b)
    then obtain s2 where s2: "read_exact io (length h - 1) s1 = (Ok (take (length h - 1) (unread s1)), s2)"
      "unread s2 = drop (length h - 1) (unread s1)" "written s2 = written s1"
      by (rule pipe_read [OF io])
    from False have "1 < length h" by (cases hs) (auto simp: b)
    with s1 s2 b len unread show ?thesis by (simp add: recv_header_def bind_op_def Let_def)
  qed
qed

lemma framed_recv_pipe:
  assumes io: "pipe_laws io unread written" and m: "length msg \<le> max_recv_payload"
    and unread: "unread s = wire_frame msg @ rest"
  shows "\<exists>s'. framed_recv io s = (Ok msg, s') \<and> unread s' = rest \<and> written s' = written s"
proof -
  from m obtain h where h: "frame_header (length msg) = Some h"
    using frame_header_None [of "length msg"]
    by (cases "frame_header (length msg)") (auto simp: max_recv_payload_def)
  with unread have "unread s = h @ (msg @ rest)" by (simp add: wire_frame_def)
  from recv_header_pipe [OF io h this] obtain c s1
    where c: "recv_header io s = (Ok c, s1)" "unat (drop_bit 2 c) = length msg"
      "unread s1 = msg @ rest" "written s1 = written s" by blast
  have "length msg \<le> length (unread s1)" by (simp add: c)
  then obtain s2 where "read_exact io (length msg) s1 = (Ok (take (length msg) (unread s1)), s2)"
    "unread s2 = drop (length msg) (unread s1)" "written s2 = written s1"
    by (rule pipe_read [OF io])
  with c m show ?thesis by (simp add: framed_recv_def bind_op_def Let_def)
qed

text \<open>
  A receive that finds only a part of a frame ends in the read that lacks bytes, and with what that read
  does: it is never a shorter payload.
\<close>

lemma framed_recv_short:
  assumes io: "pipe_laws io unread written" and m: "length msg \<le> max_recv_payload"
    and k: "k < length (wire_frame msg)" and unread: "unread s = take k (wire_frame msg)"
    and short: "\<And>n s. length (unread s) < n \<Longrightarrow> \<exists>e s'. read_exact io n s = (Err e, s') \<and> Q e s'"
  shows "\<exists>e s'. framed_recv io s = (Err e, s') \<and> Q e s'"
proof -
  from m obtain h where h: "frame_header (length msg) = Some h"
    using frame_header_None [of "length msg"]
    by (cases "frame_header (length msg)") (auto simp: max_recv_payload_def)
  then have w: "wire_frame msg = h @ msg" by (simp add: wire_frame_def)
  obtain b hs where b: "h = b # hs" "unat ((b AND 3) + 1) = length h"
    using frame_header_decodes [OF h] by blast
  consider (empty) "k = 0" | (header) "0 < k" "k < length h" | (payload) "length h \<le> k"
    by linarith
  then show ?thesis
  proof cases
    case empty
    then have "length (unread s) < 1" by (simp add: unread)
    then obtain e s1 where "read_exact io 1 s = (Err e, s1)" "Q e s1" using short by blast
    then show ?thesis by (simp add: framed_recv_def recv_header_def bind_op_def)
  next
    case header
    then have u: "unread s = b # take (k - 1) hs" by (simp add: unread w b take_Cons')
    then obtain s1 where s1: "read_exact io 1 s = (Ok (take 1 (unread s)), s1)"
      "unread s1 = drop 1 (unread s)"
      by (metis One_nat_def Suc_le_mono le0 length_Cons pipe_read [OF io])
    have "length (unread s1) < length h - 1" using header by (auto simp: s1 u b)
    then obtain e s2 where "read_exact io (length h - 1) s1 = (Err e, s2)" "Q e s2"
      using short by blast
    moreover have "1 < length h" using header by linarith
    ultimately show ?thesis using s1 u b
      by (simp add: framed_recv_def recv_header_def bind_op_def Let_def)
  next
    case payload
    then have "unread s = h @ take (k - length h) msg" by (simp add: unread w)
    from recv_header_pipe [OF io h this] obtain c s1
      where c: "recv_header io s = (Ok c, s1)" "unat (drop_bit 2 c) = length msg"
        "unread s1 = take (k - length h) msg" by blast
    have "length (unread s1) < length msg" using payload k by (auto simp: c w)
    then obtain e s2 where "read_exact io (length msg) s1 = (Err e, s2)" "Q e s2"
      using short by blast
    with c m show ?thesis by (simp add: framed_recv_def bind_op_def Let_def)
  qed
qed

lemma framed_recv_truncated:
  assumes io: "pipe_laws io unread written" and m: "length msg \<le> max_recv_payload"
    and k: "k < length (wire_frame msg)" and unread: "unread s = take k (wire_frame msg)"
  shows "\<exists>e s'. framed_recv io s = (Err e, s')"
  using framed_recv_short [OF assms, of "\<lambda>e s. True"] pipe_read_eof [OF io] by (metis (no_types))

text \<open>The two copies of the codec agree on everything but the text of two errors.\<close>

lemma bytescodec_send_eq:
  "length msg \<le> 0x3FFFFFFF \<Longrightarrow> bytescodec_send io msg = framed_send io msg"
  by (auto simp: bytescodec_send_def framed_send_def frame_header_def Let_def)

definition reword :: "'a result \<times> 's \<Rightarrow> 'a result \<times> 's \<Rightarrow> bool" where
  "reword r q \<longleftrightarrow> r = q \<or> (snd r = snd q \<and> \<not> is_ok (fst r) \<and> \<not> is_ok (fst q))"

lemma bytescodec_recv_eq: "reword (bytescodec_recv io s) (framed_recv io s)"
  by (auto simp: reword_def bytescodec_recv_def framed_recv_def recv_header_def bind_op_def Let_def
      split: prod.splits sum.splits)

section \<open>Ordered channels\<close>

fun send_frames :: "('m \<Rightarrow> ('s, unit) op) \<Rightarrow> 'm list \<Rightarrow> ('s, unit) op" where
  "send_frames put [] = return_op ()"
| "send_frames put (m # ms) = bind_op (put m) (\<lambda>_. send_frames put ms)"

fun recv_frames :: "('s, 'm) op \<Rightarrow> nat \<Rightarrow> ('s, 'm list) op" where
  "recv_frames get 0 = return_op []"
| "recv_frames get (Suc n) =
     bind_op get (\<lambda>m. bind_op (recv_frames get n) (\<lambda>ms. return_op (m # ms)))"

text \<open>
  The contract of a channel over a byte stream: each end keeps a position for either
  direction (nothing for the plain framing, the nonce counter for the encrypted stream), an
  item is written as the bytes \<open>wire\<close> for the position of the sender, and a receiver at the
  same position gets back what the item \<open>view\<close>s as. The environment \<open>e\<close> holds what is
  not part of the program.
\<close>

locale ordered_channel =
  fixes put :: "'e \<Rightarrow> 'm \<Rightarrow> ('s, unit) op"
    and get :: "'e \<Rightarrow> ('s, 'v) op"
    and good :: "'e \<Rightarrow> 's \<Rightarrow> bool"
    and ok :: "'m \<Rightarrow> bool"
    and view :: "'m \<Rightarrow> 'v"
    and wire :: "'e \<Rightarrow> 'k \<Rightarrow> 'm \<Rightarrow> bytes"
    and nxt :: "'m \<Rightarrow> 'k \<Rightarrow> 'k"
    and out_pos in_pos :: "'s \<Rightarrow> 'k"
    and written unread :: "'e \<Rightarrow> 's \<Rightarrow> bytes"
  assumes put_writes: "good e s \<Longrightarrow> ok m \<Longrightarrow>
      \<exists>s'. put e m s = (Ok (), s') \<and> good e s' \<and> out_pos s' = nxt m (out_pos s) \<and>
        written e s' = written e s @ wire e (out_pos s) m"
    and get_reads: "good e s \<Longrightarrow> ok m \<Longrightarrow> unread e s = wire e (in_pos s) m @ rest \<Longrightarrow>
      \<exists>s'. get e s = (Ok (view m), s') \<and> good e s' \<and> in_pos s' = nxt m (in_pos s) \<and>
        unread e s' = rest"
begin

fun wires :: "'e \<Rightarrow> 'k \<Rightarrow> 'm list \<Rightarrow> bytes" where
  "wires e k [] = []"
| "wires e k (m # ms) = wire e k m @ wires e (nxt m k) ms"

lemma send_all:
  assumes "good e s" and "\<forall>m\<in>set ms. ok m"
  shows "\<exists>s'. send_frames (put e) ms s = (Ok (), s') \<and> good e s' \<and>
     out_pos s' = fold nxt ms (out_pos s) \<and> written e s' = written e s @ wires e (out_pos s) ms"
  using assms
proof (induction ms arbitrary: s)
  case (Cons m ms)
  then obtain s1 where "put e m s = (Ok (), s1)" and s1: "good e s1"
    and "out_pos s1 = nxt m (out_pos s)" "written e s1 = written e s @ wire e (out_pos s) m"
    using put_writes [of e s m] by auto
  moreover obtain s2 where "send_frames (put e) ms s1 = (Ok (), s2)" and "good e s2"
    and "out_pos s2 = fold nxt ms (out_pos s1)"
    and "written e s2 = written e s1 @ wires e (out_pos s1) ms"
    using Cons.IH [OF s1] Cons.prems by auto
  ultimately show ?case by (simp add: bind_op_def)
qed simp

lemma recv_all:
  assumes "good e s" and "\<forall>m\<in>set ms. ok m" and "unread e s = wires e (in_pos s) ms @ rest"
  shows "\<exists>s'. recv_frames (get e) (length ms) s = (Ok (map view ms), s') \<and> good e s' \<and>
     in_pos s' = fold nxt ms (in_pos s) \<and> unread e s' = rest"
  using assms
proof (induction ms arbitrary: s)
  case (Cons m ms)
  then obtain s1 where "get e s = (Ok (view m), s1)" and s1: "good e s1"
    and pos: "in_pos s1 = nxt m (in_pos s)" and u: "unread e s1 = wires e (nxt m (in_pos s)) ms @ rest"
    using get_reads [of e s m "wires e (nxt m (in_pos s)) ms @ rest"] by auto
  moreover obtain s2 where "recv_frames (get e) (length ms) s1 = (Ok (map view ms), s2)"
    and "good e s2" and "in_pos s2 = fold nxt ms (in_pos s1)" and "unread e s2 = rest"
    using Cons.IH [OF s1] Cons.prems u pos by auto
  ultimately show ?case by (simp add: bind_op_def)
qed simp

text \<open>What one end sends, the other end receives, in order, from the same position on.\<close>

lemma delivery:
  assumes "good e s" and "\<forall>m\<in>set ms. ok m"
  shows "\<exists>s' sent. send_frames (put e) ms s = (Ok (), s') \<and> written e s' = written e s @ sent \<and>
     (\<forall>r rest. good e r \<longrightarrow> in_pos r = out_pos s \<longrightarrow> unread e r = sent @ rest \<longrightarrow>
        (\<exists>r'. recv_frames (get e) (length ms) r = (Ok (map view ms), r') \<and>
           unread e r' = rest \<and> in_pos r' = out_pos s'))"
  using send_all [OF assms] recv_all [OF _ assms(2)] by metis

end

section \<open>The contract of a frame codec\<close>

type_synonym 's pipe_env = "'s byte_stream \<times> ('s \<Rightarrow> bytes) \<times> ('s \<Rightarrow> bytes)"

locale frame_codec =
  fixes send :: "'s byte_stream \<Rightarrow> bytes \<Rightarrow> ('s, unit) op"
    and recv :: "'s byte_stream \<Rightarrow> ('s, bytes) op"
    and wire :: "bytes \<Rightarrow> bytes"
  assumes send_writes: "pipe_laws io unread written \<Longrightarrow> length m \<le> max_recv_payload \<Longrightarrow>
      \<exists>s'. send io m s = (Ok (), s') \<and> written s' = written s @ wire m \<and> unread s' = unread s"
    and recv_reads: "pipe_laws io unread written \<Longrightarrow> length m \<le> max_recv_payload \<Longrightarrow>
      unread s = wire m @ rest \<Longrightarrow>
      \<exists>s'. recv io s = (Ok m, s') \<and> unread s' = rest \<and> written s' = written s"
    and recv_short: "pipe_laws io unread written \<Longrightarrow> length m \<le> max_recv_payload \<Longrightarrow>
      k < length (wire m) \<Longrightarrow> unread s = take k (wire m) \<Longrightarrow> \<exists>e s'. recv io s = (Err e, s')"

text \<open>A frame codec is an ordered channel that keeps no position.\<close>

sublocale frame_codec \<subseteq> chan: ordered_channel
  "\<lambda>(io, u, w). send io" "\<lambda>(io, u, w). recv io" "\<lambda>(io, u, w) s. pipe_laws io u w"
  "\<lambda>m. length m \<le> max_recv_payload" "\<lambda>m. m" "\<lambda>e k. wire" "\<lambda>m k. ()" "\<lambda>s. ()" "\<lambda>s. ()"
  "\<lambda>(io, u, w). w" "\<lambda>(io, u, w). u"
  by unfold_locales (auto dest: send_writes recv_reads)

interpretation framed: frame_codec framed_send framed_recv wire_frame
proof
  fix io :: "'a byte_stream" and unread written :: "'a \<Rightarrow> bytes"
    and m rest :: bytes and s :: 'a and k :: nat
  assume io: "pipe_laws io unread written" and m: "length m \<le> max_recv_payload"
  then show "\<exists>s'. framed_send io m s = (Ok (), s') \<and>
      written s' = written s @ wire_frame m \<and> unread s' = unread s"
    by (intro framed_send_pipe) (auto simp: max_recv_payload_def)
  show "\<exists>s'. framed_recv io s = (Ok m, s') \<and> unread s' = rest \<and> written s' = written s"
    if "unread s = wire_frame m @ rest"
    using io m that by (rule framed_recv_pipe)
  show "\<exists>e s'. framed_recv io s = (Err e, s')"
    if "k < length (wire_frame m)" "unread s = take k (wire_frame m)"
    using io m that by (rule framed_recv_truncated)
qed

lemma reword_Ok: "reword r (Ok x, s) \<Longrightarrow> r = (Ok x, s)"
  by (cases r) (auto simp: reword_def)

lemma reword_Err: "reword r (Err e, s) \<Longrightarrow> \<exists>e'. r = (Err e', s)"
  by (cases r; cases "fst r") (auto simp: reword_def)

interpretation bytescodec: frame_codec bytescodec_send bytescodec_recv wire_frame
proof
  fix io :: "'a byte_stream" and unread written :: "'a \<Rightarrow> bytes"
    and m rest :: bytes and s :: 'a and k :: nat
  assume io: "pipe_laws io unread written" and m: "length m \<le> max_recv_payload"
  then show "\<exists>s'. bytescodec_send io m s = (Ok (), s') \<and>
      written s' = written s @ wire_frame m \<and> unread s' = unread s"
    using framed.send_writes [OF io m] by (simp add: bytescodec_send_eq max_recv_payload_def)
  show "\<exists>s'. bytescodec_recv io s = (Ok m, s') \<and> unread s' = rest \<and> written s' = written s"
    if "unread s = wire_frame m @ rest"
    using framed.recv_reads [OF io m that] bytescodec_recv_eq [of io s] by (auto dest!: reword_Ok)
  show "\<exists>e s'. bytescodec_recv io s = (Err e, s')"
    if "k < length (wire_frame m)" "unread s = take k (wire_frame m)"
    using framed.recv_short [OF io m that] bytescodec_recv_eq [of io s] by (auto dest!: reword_Err)
qed

section \<open>A concrete pipe\<close>

text \<open>
  One end of an in-memory duplex pipe, as the unit tests of the code use it: the bytes the
  peer has written and this end has not read, and the bytes this end has written.
\<close>

record pipe =
  p_in :: bytes
  p_out :: bytes

definition pipe_io :: "pipe byte_stream" where
  "pipe_io = \<lparr>
     write_all = (\<lambda>bs s. (Ok (), s\<lparr>p_out := p_out s @ bs\<rparr>)),
     flush_io = return_op (),
     read_exact = (\<lambda>n s. if n \<le> length (p_in s)
        then (Ok (take n (p_in s)), s\<lparr>p_in := drop n (p_in s)\<rparr>)
        else (Err [''early eof''], s\<lparr>p_in := []\<rparr>)),
     shutdown_io = return_op ()\<rparr>"

lemma pipe_io_laws: "pipe_laws pipe_io p_in p_out"
  by (simp add: pipe_laws_def pipe_io_def)

section \<open>Properties\<close>

text \<open>
  C4. Framing round trip. A sender that writes any list of payloads of at most 64 MiB each
  through \<^verbatim>\<open>FramedTransport::send\<close> succeeds, and a receiver that reads the bytes so written
  (with anything after them) through \<^verbatim>\<open>FramedTransport::recv\<close> gets exactly those payloads, in
  order, and leaves the stream at the first byte after the last frame.
\<close>

theorem framed_stream_roundtrip:
  assumes io: "pipe_laws io unread written"
    and ms: "\<forall>m\<in>set ms. length m \<le> max_recv_payload"
  shows "\<exists>s' sent. send_frames (framed_send io) ms s = (Ok (), s') \<and>
     written s' = written s @ sent \<and>
     (\<forall>r rest. unread r = sent @ rest \<longrightarrow>
        (\<exists>r'. recv_frames (framed_recv io) (length ms) r = (Ok ms, r') \<and> unread r' = rest))"
  using framed.chan.delivery [of "(io, unread, written)" s ms] io ms by simp

theorem framed_stream_roundtrip_witness:
  "\<exists>s' sent. send_frames (framed_send pipe_io) [[1, 2], [], [3]] \<lparr>p_in = [], p_out = []\<rparr> = (Ok (), s') \<and>
     p_out s' = p_out \<lparr>p_in = [], p_out = []\<rparr> @ sent \<and>
     (\<forall>r rest. p_in r = sent @ rest \<longrightarrow>
        (\<exists>r'. recv_frames (framed_recv pipe_io) (length [[1, 2], [], [3 :: u8]]) r =
              (Ok [[1, 2], [], [3]], r') \<and> p_in r' = rest))"
  by (rule framed_stream_roundtrip [OF pipe_io_laws]) (simp add: max_recv_payload_def)

text \<open>
  Truncated streams. If the connection ends at any point inside a frame, \<^verbatim>\<open>recv\<close>
  returns an error: it never returns a payload shorter than the one that was sent.
\<close>

theorem framed_recv_rejects_truncation:
  assumes "pipe_laws io unread written" and "length msg \<le> max_recv_payload"
    and "k < length (wire_frame msg)" and "unread s = take k (wire_frame msg)"
  shows "\<not> is_ok (fst (framed_recv io s))"
  using framed.recv_short [OF assms] by auto

theorem framed_recv_rejects_truncation_witness:
  "\<not> is_ok (fst (framed_recv pipe_io \<lparr>p_in = take 2 (wire_frame [7, 8, 9]), p_out = []\<rparr>))"
  by (rule framed_recv_rejects_truncation [OF pipe_io_laws, of "[7, 8, 9]" 2])
    (simp_all add: max_recv_payload_def wire_frame_def frame_header_def)

text \<open>
  The sender's limit is not the receiver's. A payload above the 64 MiB safety limit and
  up to \<^verbatim>\<open>0x3FFFFFFF\<close> bytes is accepted and written in full by \<^verbatim>\<open>send\<close>, and the \<^verbatim>\<open>recv\<close>
  of the same program refuses it after the header, without reading the payload.
\<close>

theorem framed_limit_mismatch:
  assumes io: "pipe_laws io unread written"
    and big: "max_recv_payload < length msg" and len: "length msg \<le> 0x3FFFFFFF"
  shows "(\<exists>s'. framed_send io msg s = (Ok (), s') \<and> written s' = written s @ wire_frame msg) \<and>
     (\<forall>r rest. unread r = wire_frame msg @ rest \<longrightarrow>
        (\<exists>r'. framed_recv io r = (Err [''payload length '' @ show_nat (length msg) @
                 '' exceeds 64 MiB safety limit''], r') \<and> unread r' = msg @ rest))"
proof (intro conjI allI impI)
  show "\<exists>s'. framed_send io msg s = (Ok (), s') \<and> written s' = written s @ wire_frame msg"
    using framed_send_pipe [OF io len] by blast
next
  fix r rest
  assume r: "unread r = wire_frame msg @ rest"
  from len obtain h where h: "frame_header (length msg) = Some h"
    using frame_header_None [of "length msg"] by (cases "frame_header (length msg)") auto
  with r have "unread r = h @ (msg @ rest)" by (simp add: wire_frame_def)
  from recv_header_pipe [OF io h this] obtain c r'
    where "recv_header io r = (Ok c, r')" "unat (drop_bit 2 c) = length msg" "unread r' = msg @ rest"
    by blast
  with big show "\<exists>r'. framed_recv io r = (Err [''payload length '' @ show_nat (length msg) @
                 '' exceeds 64 MiB safety limit''], r') \<and> unread r' = msg @ rest"
    by (simp add: framed_recv_def bind_op_def Let_def)
qed

theorem framed_limit_mismatch_witness:
  "\<exists>s'. framed_send pipe_io (replicate (max_recv_payload + 1) 0) \<lparr>p_in = [], p_out = []\<rparr> = (Ok (), s')"
  using framed_limit_mismatch [OF pipe_io_laws, of "replicate (max_recv_payload + 1) 0"
      "\<lparr>p_in = [], p_out = []\<rparr>"]
  by (auto simp: max_recv_payload_def)

text \<open>
  C28. The two copies of the codec are interchangeable on the wire: for every payload that can
  be framed, \<^verbatim>\<open>bytescodec_send\<close> of the rendezvous client performs the same writes as
  \<^verbatim>\<open>FramedTransport::send\<close>, and \<^verbatim>\<open>bytescodec_recv\<close> and \<^verbatim>\<open>FramedTransport::recv\<close> read
  the same bytes and either return the same payload or both fail.
\<close>

theorem bytescodec_equivalent:
  "(length msg \<le> 0x3FFFFFFF \<longrightarrow> bytescodec_send io msg s = framed_send io msg s) \<and>
   (\<exists>r q s'. bytescodec_recv io s = (r, s') \<and> framed_recv io s = (q, s') \<and>
      (r = q \<or> (\<not> is_ok r \<and> \<not> is_ok q)))"
  using bytescodec_recv_eq [of io s]
  by (cases "bytescodec_recv io s"; cases "framed_recv io s")
    (auto simp: reword_def bytescodec_send_eq)

theorem bytescodec_equivalent_witness:
  "bytescodec_send pipe_io [1, 2, 3] \<lparr>p_in = [], p_out = []\<rparr> =
     framed_send pipe_io [1, 2, 3] \<lparr>p_in = [], p_out = []\<rparr>"
  using bytescodec_equivalent [of "[1, 2, 3]" pipe_io] by simp

end
