(* ===== verification/Crypto.thy ===== *)
theory Crypto
  imports Framing
begin

text \<open>
  \<^verbatim>\<open>src/crypto.rs\<close>: the password hash, the key exchange and \<^verbatim>\<open>EncryptedStream\<close>, with the
  \<^verbatim>\<open>Transport\<close> interface of \<^verbatim>\<open>src/transport.rs\<close> it is written against.

  The primitives (SHA-256, X25519 box, XSalsa20-Poly1305, the random generator) are
  third-party code and parameters here. \<open>cipher_laws\<close> states what the documentation of the
  secretbox cipher promises: encryption succeeds and adds a tag of 16 bytes, decryption
  under the same nonce inverts it, and a ciphertext that decryption accepts is the
  encryption of what it returns.
\<close>

section \<open>Transport\<close>

record 's transport =
  tr_send :: "bytes \<Rightarrow> ('s, unit) op"
  tr_recv :: "('s, bytes) op"
  tr_close :: "('s, unit) op"

definition tcp_transport :: "'s byte_stream \<Rightarrow> 's transport" where
  "tcp_transport io = \<lparr>tr_send = framed_send io, tr_recv = framed_recv io, tr_close = framed_close io\<rparr>"

section \<open>Password hash\<close>

definition password_hash :: "(bytes \<Rightarrow> bytes) \<Rightarrow> string \<Rightarrow> bytes \<Rightarrow> bytes \<Rightarrow> bytes" where
  "password_hash sha256 password salt challenge =
     (let stage1 = sha256 (str_bytes password @ salt) in sha256 (stage1 @ challenge))"

section \<open>Key exchange\<close>

record KeyExchangeResult =
  ephemeral_pk :: bytes
  sealed_key :: bytes
  session_key :: bytes

text \<open>
  The primitives of the key exchange: the conversion of an Ed25519 key
  (\<^verbatim>\<open>VerifyingKey::from_bytes\<close> and \<^verbatim>\<open>to_montgomery\<close>), the public key of a secret key,
  and \<^verbatim>\<open>SalsaBox::encrypt\<close>. The random bytes drawn for the secret key and for the session
  key are arguments.
\<close>

record box_prims =
  ed_to_montgomery :: "bytes \<Rightarrow> bytes result"
  box_public_key :: "bytes \<Rightarrow> bytes"
  box_encrypt :: "bytes \<Rightarrow> bytes \<Rightarrow> bytes \<Rightarrow> bytes \<Rightarrow> bytes result"

definition key_exchange_with_box_pk ::
  "box_prims \<Rightarrow> bytes \<Rightarrow> bytes \<Rightarrow> bytes \<Rightarrow> KeyExchangeResult result" where
  "key_exchange_with_box_pk prims ephemeral_sk key_ga their_box_pk =
     (let zero_nonce = replicate 24 0 in
      case box_encrypt prims their_box_pk ephemeral_sk zero_nonce key_ga of
        Inl e \<Rightarrow> Err [''Failed to seal session key: '' @ err_display e]
      | Inr sealed \<Rightarrow>
          Ok \<lparr>ephemeral_pk = box_public_key prims ephemeral_sk, sealed_key = sealed,
              session_key = key_ga\<rparr>)"

definition key_exchange ::
  "box_prims \<Rightarrow> bytes \<Rightarrow> bytes \<Rightarrow> bytes \<Rightarrow> KeyExchangeResult result" where
  "key_exchange prims ephemeral_sk key_ga server_ed25519_pk =
     bind_result (with_ctx ''Invalid Ed25519 public key'' (ed_to_montgomery prims server_ed25519_pk))
       (key_exchange_with_box_pk prims ephemeral_sk key_ga)"

definition key_exchange_curve25519 ::
  "box_prims \<Rightarrow> bytes \<Rightarrow> bytes \<Rightarrow> bytes \<Rightarrow> KeyExchangeResult result" where
  "key_exchange_curve25519 prims ephemeral_sk key_ga their_pk_bytes =
     key_exchange_with_box_pk prims ephemeral_sk key_ga their_pk_bytes"

section \<open>EncryptedStream\<close>

record aead =
  seal :: "bytes \<Rightarrow> bytes \<Rightarrow> bytes result"
  unseal :: "bytes \<Rightarrow> bytes \<Rightarrow> bytes result"

record 's EncryptedStream =
  inner :: 's
  cipher :: aead
  send_seq :: u64
  recv_seq :: u64
  last_recv_at :: nat

text \<open>
  \<open>mk\<close> is \<^verbatim>\<open>XSalsa20Poly1305::new\<close>; \<open>now\<close> is the value of \<^verbatim>\<open>Instant::now()\<close> at the
  call, in milliseconds.
\<close>

definition es_new :: "(bytes \<Rightarrow> aead) \<Rightarrow> nat \<Rightarrow> 's \<Rightarrow> bytes \<Rightarrow> 's EncryptedStream" where
  "es_new mk now transport key =
     \<lparr>inner = transport, cipher = mk key, send_seq = 0, recv_seq = 0, last_recv_at = now\<rparr>"

definition make_nonce :: "u64 \<Rightarrow> bytes" where
  "make_nonce seq = to_le_bytes 8 seq @ replicate 16 0"

definition on_inner :: "('s, 'a) op \<Rightarrow> ('s EncryptedStream, 'a) op" where
  "on_inner m s = (case m (inner s) of (r, i) \<Rightarrow> (r, s\<lparr>inner := i\<rparr>))"

definition es_send :: "'s transport \<Rightarrow> bytes \<Rightarrow> ('s EncryptedStream, unit) op" where
  "es_send tr plaintext s =
     (let s = s\<lparr>send_seq := send_seq s + 1\<rparr>; nonce = make_nonce (send_seq s) in
      case seal (cipher s) nonce plaintext of
        Inl e \<Rightarrow> (Err [''Encryption failed: '' @ err_display e], s)
      | Inr ciphertext \<Rightarrow> on_inner (tr_send tr ciphertext) s)"

definition es_send_heartbeat :: "'s transport \<Rightarrow> ('s EncryptedStream, unit) op" where
  "es_send_heartbeat tr s = on_inner (tr_send tr []) s"

definition es_recv :: "'s transport \<Rightarrow> nat \<Rightarrow> ('s EncryptedStream, bytes) op" where
  "es_recv tr now =
     bind_op (on_inner (tr_recv tr)) (\<lambda>ciphertext s.
       let s = s\<lparr>last_recv_at := now\<rparr> in
       if ciphertext = [] then (Ok [], s)
       else
         let s = s\<lparr>recv_seq := recv_seq s + 1\<rparr>; nonce = make_nonce (recv_seq s) in
         case unseal (cipher s) nonce ciphertext of
           Inl _ \<Rightarrow> (Err [''Decryption failed: invalid ciphertext or wrong key''], s)
         | Inr plaintext \<Rightarrow> (Ok plaintext, s))"

definition recv_idle_for :: "nat \<Rightarrow> 's EncryptedStream \<Rightarrow> nat" where
  "recv_idle_for now s = now - last_recv_at s"

definition es_close :: "'s transport \<Rightarrow> ('s EncryptedStream, unit) op" where
  "es_close tr s = on_inner (tr_close tr) s"

section \<open>Laws of the cipher\<close>

definition cipher_laws :: "aead \<Rightarrow> bool" where
  "cipher_laws c \<longleftrightarrow>
     (\<forall>n p. \<exists>ct. seal c n p = Ok ct \<and> length ct = length p + 16 \<and> unseal c n ct = Ok p) \<and>
     (\<forall>n ct p. unseal c n ct = Ok p \<longrightarrow> seal c n p = Ok ct)"

lemma cipher_seal:
  assumes "cipher_laws c"
  obtains ct where "seal c n p = Ok ct" and "length ct = length p + 16" and "unseal c n ct = Ok p"
  using assms unfolding cipher_laws_def by meson

lemma cipher_unseal: "cipher_laws c \<Longrightarrow> unseal c n ct = Ok p \<Longrightarrow> seal c n p = Ok ct"
  by (simp add: cipher_laws_def)

section \<open>Nonces\<close>

lemma length_make_nonce: "length (make_nonce seq) = 24"
  by (simp add: make_nonce_def)

lemma make_nonce_inj: "make_nonce i = make_nonce j \<longleftrightarrow> i = j"
proof
  assume "make_nonce i = make_nonce j"
  then have "to_le_bytes 8 i = to_le_bytes 8 j" by (simp add: make_nonce_def)
  then have "(from_le_bytes (to_le_bytes 8 i) :: u64) = from_le_bytes (to_le_bytes 8 j)" by simp
  then show "i = j" by (simp add: from_to_le_bytes take_bit_word_eq_self)
qed simp

lemma es_send_seq: "send_seq (snd (es_send tr p s)) = send_seq s + 1"
  by (auto simp: es_send_def on_inner_def Let_def split: sum.splits prod.splits)

section \<open>The encrypted stream as an ordered channel\<close>

datatype item = Data bytes | Heartbeat

definition put_item :: "'s transport \<Rightarrow> item \<Rightarrow> ('s EncryptedStream, unit) op" where
  "put_item tr i = (case i of Data p \<Rightarrow> es_send tr p | Heartbeat \<Rightarrow> es_send_heartbeat tr)"

fun item_view :: "item \<Rightarrow> bytes" where
  "item_view (Data p) = p"
| "item_view Heartbeat = []"

fun item_next :: "item \<Rightarrow> u64 \<Rightarrow> u64" where
  "item_next (Data p) k = k + 1"
| "item_next Heartbeat k = k"

fun item_ok :: "item \<Rightarrow> bool" where
  "item_ok (Data p) = (length p + 16 \<le> max_recv_payload)"
| "item_ok Heartbeat = True"

text \<open>The environment of an encrypted stream: the pipe, the cipher, and the clock reading.\<close>

record 's crypt_env =
  ce_io :: "'s byte_stream"
  ce_unread :: "'s \<Rightarrow> bytes"
  ce_written :: "'s \<Rightarrow> bytes"
  ce_cipher :: aead
  ce_now :: nat

fun item_wire :: "'s crypt_env \<Rightarrow> u64 \<Rightarrow> item \<Rightarrow> bytes" where
  "item_wire e k (Data p) =
     (case seal (ce_cipher e) (make_nonce (k + 1)) p of Inr ct \<Rightarrow> wire_frame ct | Inl _ \<Rightarrow> [])"
| "item_wire e k Heartbeat = wire_frame []"

definition crypt_good :: "'s crypt_env \<Rightarrow> 's EncryptedStream \<Rightarrow> bool" where
  "crypt_good e s \<longleftrightarrow> pipe_laws (ce_io e) (ce_unread e) (ce_written e) \<and>
     cipher_laws (ce_cipher e) \<and> cipher s = ce_cipher e"

lemma put_item_writes:
  assumes "crypt_good e s" and "item_ok m"
  shows "\<exists>s'. put_item (tcp_transport (ce_io e)) m s = (Ok (), s') \<and> crypt_good e s' \<and>
     send_seq s' = item_next m (send_seq s) \<and>
     ce_written e (inner s') = ce_written e (inner s) @ item_wire e (send_seq s) m"
proof -
  from assms have io: "pipe_laws (ce_io e) (ce_unread e) (ce_written e)"
    and ci: "cipher_laws (ce_cipher e)" "cipher s = ce_cipher e" by (auto simp: crypt_good_def)
  show ?thesis
  proof (cases m)
    case (Data p)
    obtain ct where ct: "seal (ce_cipher e) (make_nonce (send_seq s + 1)) p = Ok ct"
      "length ct = length p + 16" by (rule cipher_seal [OF ci(1)])
    with assms(2) Data have "length ct \<le> max_recv_payload" by simp
    from framed.send_writes [OF io this] obtain i where
      "framed_send (ce_io e) ct (inner s) = (Ok (), i)"
      "ce_written e i = ce_written e (inner s) @ wire_frame ct" by blast
    with Data ct ci io show ?thesis
      by (simp add: put_item_def es_send_def on_inner_def tcp_transport_def crypt_good_def)
  next
    case Heartbeat
    from framed.send_writes [OF io, of "[]" "inner s"] obtain i where
      "framed_send (ce_io e) [] (inner s) = (Ok (), i)"
      "ce_written e i = ce_written e (inner s) @ wire_frame []" by auto
    with Heartbeat ci io show ?thesis
      by (simp add: put_item_def es_send_heartbeat_def on_inner_def tcp_transport_def crypt_good_def)
  qed
qed

lemma es_recv_reads:
  assumes "crypt_good e s" and "item_ok m"
    and "ce_unread e (inner s) = item_wire e (recv_seq s) m @ rest"
  shows "\<exists>s'. es_recv (tcp_transport (ce_io e)) (ce_now e) s = (Ok (item_view m), s') \<and>
     crypt_good e s' \<and> recv_seq s' = item_next m (recv_seq s) \<and> ce_unread e (inner s') = rest"
proof -
  from assms have io: "pipe_laws (ce_io e) (ce_unread e) (ce_written e)"
    and ci: "cipher_laws (ce_cipher e)" "cipher s = ce_cipher e" by (auto simp: crypt_good_def)
  show ?thesis
  proof (cases m)
    case (Data p)
    obtain ct where ct: "seal (ce_cipher e) (make_nonce (recv_seq s + 1)) p = Ok ct"
      "length ct = length p + 16" "unseal (ce_cipher e) (make_nonce (recv_seq s + 1)) ct = Ok p"
      by (rule cipher_seal [OF ci(1)])
    with assms(2) Data have "length ct \<le> max_recv_payload" by simp
    from framed.recv_reads [OF io this, of "inner s" rest] assms(3) Data ct obtain i where
      "framed_recv (ce_io e) (inner s) = (Ok ct, i)" "ce_unread e i = rest" by auto
    moreover from ct have "ct \<noteq> []" by auto
    ultimately show ?thesis using Data ct ci io
      by (simp add: es_recv_def on_inner_def tcp_transport_def crypt_good_def bind_op_def Let_def)
  next
    case Heartbeat
    from framed.recv_reads [OF io, of "[]" "inner s" rest] assms(3) Heartbeat obtain i where
      "framed_recv (ce_io e) (inner s) = (Ok [], i)" "ce_unread e i = rest" by auto
    with Heartbeat ci io show ?thesis
      by (simp add: es_recv_def on_inner_def tcp_transport_def crypt_good_def bind_op_def Let_def)
  qed
qed

interpretation encrypted: ordered_channel
  "\<lambda>e. put_item (tcp_transport (ce_io e))" "\<lambda>e. es_recv (tcp_transport (ce_io e)) (ce_now e)"
  crypt_good item_ok item_view item_wire item_next send_seq recv_seq
  "\<lambda>e s. ce_written e (inner s)" "\<lambda>e s. ce_unread e (inner s)"
  by unfold_locales (rule put_item_writes, assumption+, rule es_recv_reads)

section \<open>A concrete cipher\<close>

text \<open>A cipher that satisfies the laws, for concrete instances: the tag is the first 16 bytes of the nonce.\<close>

definition tag_cipher :: aead where
  "tag_cipher = \<lparr>
     seal = (\<lambda>n p. Ok (take 16 (n @ replicate 16 0) @ p)),
     unseal = (\<lambda>n ct. if take 16 ct = take 16 (n @ replicate 16 0) then Ok (drop 16 ct)
                       else Err [''aead::Error''])\<rparr>"

lemma tag_cipher_laws: "cipher_laws tag_cipher"
proof -
  have "take 16 (n @ replicate 16 0) @ drop 16 ct = ct" if "take 16 ct = take 16 (n @ replicate 16 0)"
    for n ct :: bytes using that by (metis append_take_drop_id)
  then show ?thesis by (auto simp: cipher_laws_def tag_cipher_def min_def)
qed

definition pipe_env :: "pipe crypt_env" where
  "pipe_env = \<lparr>ce_io = pipe_io, ce_unread = p_in, ce_written = p_out, ce_cipher = tag_cipher, ce_now = 0\<rparr>"

abbreviation pipe_end :: "pipe EncryptedStream" where
  "pipe_end \<equiv> es_new (\<lambda>key. tag_cipher) 0 \<lparr>p_in = [], p_out = []\<rparr> (replicate 32 0)"

lemma pipe_end_good: "crypt_good pipe_env (es_new (\<lambda>key. tag_cipher) t p k)"
  by (simp add: crypt_good_def pipe_env_def es_new_def pipe_io_laws tag_cipher_laws)

section \<open>Properties\<close>

text \<open>
  C1. Delivery over an encrypted connection. Any sequence of messages and heartbeats that one
  end sends is received by the other end, whose receive counter equals the sender's send
  counter, in order and unchanged: each message decrypts to its plaintext, each heartbeat
  arrives as the empty message and uses up no nonce, and afterwards the two counters agree
  again, so that the connection goes on from there.
\<close>

theorem encrypted_stream_delivery:
  assumes "crypt_good e s" and "\<forall>m\<in>set ms. item_ok m"
  shows "\<exists>s' sent. send_frames (put_item (tcp_transport (ce_io e))) ms s = (Ok (), s') \<and>
     ce_written e (inner s') = ce_written e (inner s) @ sent \<and>
     (\<forall>r rest. crypt_good e r \<longrightarrow> recv_seq r = send_seq s \<longrightarrow> ce_unread e (inner r) = sent @ rest \<longrightarrow>
        (\<exists>r'. recv_frames (es_recv (tcp_transport (ce_io e)) (ce_now e)) (length ms) r =
              (Ok (map item_view ms), r') \<and>
           ce_unread e (inner r') = rest \<and> recv_seq r' = send_seq s'))"
  by (rule encrypted.delivery [OF assms])

theorem encrypted_stream_delivery_witness:
  "\<exists>s' sent. send_frames (put_item (tcp_transport (ce_io pipe_env))) [Data [1, 2], Heartbeat, Data [3]]
       pipe_end = (Ok (), s') \<and>
     ce_written pipe_env (inner s') = ce_written pipe_env (inner pipe_end) @ sent \<and>
     (\<forall>r rest. crypt_good pipe_env r \<longrightarrow> recv_seq r = send_seq pipe_end \<longrightarrow>
        ce_unread pipe_env (inner r) = sent @ rest \<longrightarrow>
        (\<exists>r'. recv_frames (es_recv (tcp_transport (ce_io pipe_env)) (ce_now pipe_env))
                (length [Data [1, 2], Heartbeat, Data [3]]) r =
              (Ok (map item_view [Data [1, 2], Heartbeat, Data [3]]), r') \<and>
           ce_unread pipe_env (inner r') = rest \<and> recv_seq r' = send_seq s'))"
  by (rule encrypted_stream_delivery [OF pipe_end_good]) (simp add: max_recv_payload_def)

text \<open>
  C13. Only authentic frames in their turn are accepted. When \<^verbatim>\<open>recv\<close> returns a message, the
  transport delivered either a heartbeat, which leaves the counter alone, or exactly the
  ciphertext of that message under the next receive nonce; a frame made for another position
  (lost, repeated or reordered frames before it) or altered on the way is an error.
\<close>

theorem es_recv_authentic:
  assumes "cipher_laws (cipher s)" and "es_recv tr now s = (Ok msg, s')"
  shows "\<exists>frame i. tr_recv tr (inner s) = (Ok frame, i) \<and> inner s' = i \<and> last_recv_at s' = now \<and>
     (if frame = [] then msg = [] \<and> recv_seq s' = recv_seq s
      else seal (cipher s) (make_nonce (recv_seq s + 1)) msg = Ok frame \<and>
           recv_seq s' = recv_seq s + 1)"
  using assms cipher_unseal [OF assms(1)]
  by (auto simp: es_recv_def on_inner_def bind_op_def Let_def split: prod.splits sum.splits if_splits)

theorem es_recv_authentic_witness:
  "\<exists>(s' :: pipe EncryptedStream) frame i.
      tr_recv (tcp_transport pipe_io) \<lparr>p_in = item_wire pipe_env 0 (Data [7]), p_out = []\<rparr> =
      (Ok frame, i) \<and> inner s' = i \<and> last_recv_at s' = 0 \<and>
      (if frame = [] then [7 :: u8] = [] \<and> recv_seq s' = 0
       else seal tag_cipher (make_nonce 1) [7] = Ok frame \<and> recv_seq s' = 1)"
proof -
  let ?r = "es_new (\<lambda>key. tag_cipher) 0 \<lparr>p_in = item_wire pipe_env 0 (Data [7]), p_out = []\<rparr> []"
  have c: "cipher_laws (cipher ?r)" by (simp add: es_new_def tag_cipher_laws)
  have "ce_unread pipe_env (inner ?r) = item_wire pipe_env (recv_seq ?r) (Data [7]) @ []"
    by (simp add: es_new_def pipe_env_def)
  from es_recv_reads [OF pipe_end_good _ this] obtain s' where
    r: "es_recv (tcp_transport pipe_io) 0 ?r = (Ok [7], s')"
    by (auto simp: max_recv_payload_def pipe_env_def)
  show ?thesis
    using es_recv_authentic [OF c r] unfolding es_new_def EncryptedStream.simps add_0 by blast
qed

definition state_after :: "'s transport \<Rightarrow> bytes list \<Rightarrow> 's EncryptedStream \<Rightarrow> 's EncryptedStream" where
  "state_after tr ps s = fold (\<lambda>p s. snd (es_send tr p s)) ps s"

lemma send_seq_state_after: "send_seq (state_after tr ps s) = send_seq s + of_nat (length ps)"
  unfolding state_after_def by (induction ps arbitrary: s) (simp_all add: es_send_seq)

lemma fst_es_send:
  "fst (es_send tr p s) =
     (case seal (cipher s) (make_nonce (send_seq (snd (es_send tr p s)))) p of
        Inl e \<Rightarrow> Err [''Encryption failed: '' @ err_display e]
      | Inr ct \<Rightarrow> fst (tr_send tr ct (inner s)))"
  by (auto simp: es_send_def on_inner_def Let_def split: sum.splits prod.splits)

text \<open>
  C14. Nonces are never reused. On a new stream, however its sends go (a send that fails in
  the cipher or in the transport has used its counter value), the nonces of any fewer than
  \<open>2 ^ 64\<close> consecutive sends are pairwise different, and each send encrypts under the nonce
  of the counter it leaves behind.
\<close>

theorem nonces_never_repeat:
  assumes "length ps < 2 ^ 64"
  shows "distinct (map (\<lambda>k. make_nonce (send_seq (state_after tr (take k ps) (es_new mk t p key))))
       [1..<Suc (length ps)]) \<and>
     (\<forall>m s. fst (es_send tr m s) =
        (case seal (cipher s) (make_nonce (send_seq (snd (es_send tr m s)))) m of
           Inl e \<Rightarrow> Err [''Encryption failed: '' @ err_display e]
         | Inr ct \<Rightarrow> fst (tr_send tr ct (inner s))))"
proof -
  have "(of_nat i :: u64) = of_nat j \<longleftrightarrow> i = j" if "i \<le> length ps" "j \<le> length ps" for i j
    using that assms by (simp add: unat_of_nat word_of_nat_eq_iff take_bit_nat_eq_self)
  then show ?thesis
    by (auto simp: distinct_map inj_on_def make_nonce_inj send_seq_state_after es_new_def
        fst_es_send min_def)
qed

theorem nonces_never_repeat_witness:
  "distinct (map (\<lambda>k. make_nonce (send_seq (state_after (tcp_transport pipe_io) (take k [[1], [2]])
       (es_new (\<lambda>key. tag_cipher) 0 \<lparr>p_in = [], p_out = []\<rparr> []))))
     [1..<Suc (length [[1], [2 :: u8]])])"
  using nonces_never_repeat [of "[[1], [2]]" "tcp_transport pipe_io"] by simp

text \<open>
  What the key exchange sends fits what it keeps: the sealed key is the session key kept
  locally, sealed for the peer's key with the ephemeral secret key whose public key is sent,
  under the zero nonce; the Ed25519 variant seals for the converted key and rejects a key the
  conversion rejects.
\<close>

theorem key_exchange_correct:
  "(key_exchange_curve25519 prims sk k pk = Ok r \<longleftrightarrow>
     box_encrypt prims pk sk (replicate 24 0) k = Ok (sealed_key r) \<and> session_key r = k \<and>
     ephemeral_pk r = box_public_key prims sk) \<and>
   key_exchange prims sk k ed = (case ed_to_montgomery prims ed of
     Inl e \<Rightarrow> Err (''Invalid Ed25519 public key'' # e)
   | Inr pk \<Rightarrow> key_exchange_curve25519 prims sk k pk)"
  by (cases r) (auto simp: key_exchange_curve25519_def key_exchange_with_box_pk_def
      key_exchange_def split: sum.splits)

end
