(* ===== verification/Stream_Refinement.thy ===== *)
theory Stream_Refinement
  imports Async_Env Crypto
begin

text \<open>
  The stream of the theory Async\_Env, on which everything above the connection is modelled, is implemented by
  \<^verbatim>\<open>EncryptedStream\<close> over \<^verbatim>\<open>FramedTransport\<close> over a byte pipe (the theories Crypto and Framing). The two are run side by
  side on arbitrary sequences of sends, heartbeats and receives with deadlines; a simulation relation says that the
  bytes on the pipe are the frames of the coming messages under the coming nonces, and those of the messages sent.
  The one assumption is that a receive that is cut off by its deadline has not read a part of a frame; what happens
  otherwise is the subject of the last section.
\<close>

section \<open>Simulations\<close>

text \<open>
  Two machines that answer the same requests. When every step answers alike and keeps the relation, so does every run.
\<close>

fun run_ops :: "('op \<Rightarrow> 'c \<Rightarrow> 'r \<times> 'c) \<Rightarrow> 'op list \<Rightarrow> 'c \<Rightarrow> 'r list \<times> 'c" where
  "run_ops step [] c = ([], c)"
| "run_ops step (p # ps) c = (case step p c of (r, c1) \<Rightarrow> case run_ops step ps c1 of (rs, c2) \<Rightarrow> (r # rs, c2))"

locale simulation =
  fixes concrete :: "'e \<Rightarrow> 'op \<Rightarrow> 'c \<Rightarrow> 'r \<times> 'c"
    and abstract :: "'op \<Rightarrow> 'a \<Rightarrow> 'r \<times> 'a"
    and rel :: "'e \<Rightarrow> 'c \<Rightarrow> 'a \<Rightarrow> bool"
    and ok :: "'op \<Rightarrow> bool"
  assumes step: "rel e c a \<Longrightarrow> ok p \<Longrightarrow>
    \<exists>r c' a'. concrete e p c = (r, c') \<and> abstract p a = (r, a') \<and> rel e c' a'"
begin

lemma runs:
  assumes "rel e c a" and "\<forall>p\<in>set ps. ok p"
  shows "\<exists>rs c' a'. run_ops (concrete e) ps c = (rs, c') \<and> run_ops abstract ps a = (rs, a') \<and> rel e c' a'"
  using assms
proof (induction ps arbitrary: c a)
  case (Cons p ps)
  then obtain r c1 a1 where "concrete e p c = (r, c1)" "abstract p a = (r, a1)" and rel: "rel e c1 a1"
    using step [of e c a p] by auto
  moreover from Cons.IH [OF rel] Cons.prems obtain rs c' a' where
    "run_ops (concrete e) ps c1 = (rs, c')" "run_ops abstract ps a1 = (rs, a')" "rel e c' a'" by auto
  ultimately show ?case by simp
qed simp

end

section \<open>The two machines\<close>

text \<open>
  A request with the deadline it is made under: to send a message or a heartbeat, or to receive. In the stream of
  messages a heartbeat is the empty message, as it is for the receiver.
\<close>

datatype stream_op = SSend "nat option" item | SRecv "nat option"

datatype stream_answer = Sent "unit result outcome" | Got "bytes result outcome"

fun net_step :: "stream_op \<Rightarrow> 'w net_scheme \<Rightarrow> stream_answer \<times> 'w net_scheme" where
  "net_step (SSend dl i) w = (case stream_send (item_view i) dl w of (r, w') \<Rightarrow> (Sent r, w'))"
| "net_step (SRecv dl) w = (case stream_recv dl w of (r, w') \<Rightarrow> (Got r, w'))"

fun sent_item :: "stream_op \<Rightarrow> item list" where
  "sent_item (SSend dl i) = [i]"
| "sent_item (SRecv dl) = []"

text \<open>The messages and heartbeats sent so far are kept beside the state.\<close>

fun logged_step :: "stream_op \<Rightarrow> 'w net_scheme \<times> item list \<Rightarrow> stream_answer \<times> 'w net_scheme \<times> item list" where
  "logged_step p (w, sent) = (case net_step p w of (r, w') \<Rightarrow> (r, w', sent @ sent_item p))"

lemma run_logged:
  "run_ops logged_step ps (w, sent) =
     (case run_ops net_step ps w of (rs, w') \<Rightarrow> (rs, w', sent @ concat (map sent_item ps)))"
  by (induction ps arbitrary: w sent) (auto split: prod.splits)

text \<open>One end of a connection: the clock, when the coming frames are complete, and the encrypted stream.\<close>

record 's wire_end =
  we_clock :: nat
  we_times :: "nat list"
  we_stream :: "'s EncryptedStream"

fun wire_step :: "'s crypt_env \<Rightarrow> stream_op \<Rightarrow> 's wire_end \<Rightarrow> stream_answer \<times> 's wire_end" where
  "wire_step e (SSend dl i) c =
     (case put_item (tcp_transport (ce_io e)) i (we_stream c) of
        (r, s) \<Rightarrow> (Sent (Done r), c\<lparr>we_stream := s\<rparr>))"
| "wire_step e (SRecv dl) c =
     (case we_times c of
        [] \<Rightarrow> (case dl of None \<Rightarrow> (Got Hang, c) | Some d \<Rightarrow> (Got Elapsed, c\<lparr>we_clock := max (we_clock c) d\<rparr>))
      | t # ts \<Rightarrow>
          if (case dl of None \<Rightarrow> True | Some d \<Rightarrow> max t (we_clock c) \<le> d) then
            (case es_recv (tcp_transport (ce_io e)) (max t (we_clock c)) (we_stream c) of
               (r, s) \<Rightarrow> (Got (Done r), \<lparr>we_clock = max t (we_clock c), we_times = ts, we_stream = s\<rparr>))
          else (Got Elapsed, c\<lparr>we_clock := max (we_clock c) (the dl)\<rparr>))"

fun op_fits :: "stream_op \<Rightarrow> bool" where
  "op_fits (SSend dl i) = item_ok i"
| "op_fits (SRecv dl) = True"

text \<open>
  \<open>k0\<close> and \<open>base\<close> are the send counter and what was on the pipe when nothing was sent yet. The idle time of the stream is
  counted from the last frame.
\<close>

definition carries ::
  "'s crypt_env \<times> u64 \<times> bytes \<Rightarrow> 's wire_end \<Rightarrow> 'w net_scheme \<times> item list \<Rightarrow> bool" where
  "carries = (\<lambda>(e, k0, base) c (w, sent). crypt_good e (we_stream c) \<and> we_clock c = clock w \<and> faults w = [] \<and>
     last_recv_at (we_stream c) \<le> clock w \<and>
     (\<exists>items. list_all item_ok items \<and> length items = length (we_times c) \<and>
        inbox w = zip (we_times c) (map (\<lambda>i. Ok (item_view i)) items) \<and>
        ce_unread e (inner (we_stream c)) = encrypted.wires e (recv_seq (we_stream c)) items) \<and>
     outbox w = map item_view sent \<and>
     send_seq (we_stream c) = fold item_next sent k0 \<and>
     ce_written e (inner (we_stream c)) = base @ encrypted.wires e k0 sent)"

section \<open>One step\<close>

lemma put_item_keeps:
  assumes "crypt_good e s" and "item_ok i"
  shows "\<exists>s'. put_item (tcp_transport (ce_io e)) i s = (Ok (), s') \<and> crypt_good e s' \<and>
     send_seq s' = item_next i (send_seq s) \<and> recv_seq s' = recv_seq s \<and> last_recv_at s' = last_recv_at s \<and>
     ce_unread e (inner s') = ce_unread e (inner s) \<and>
     ce_written e (inner s') = ce_written e (inner s) @ item_wire e (send_seq s) i"
proof -
  from assms(1) have io: "pipe_laws (ce_io e) (ce_unread e) (ce_written e)"
    and ci: "cipher_laws (ce_cipher e)" "cipher s = ce_cipher e" by (auto simp: crypt_good_def)
  have writes: "\<exists>t. framed_send (ce_io e) ct (inner s) = (Ok (), t) \<and> ce_unread e t = ce_unread e (inner s) \<and>
      ce_written e t = ce_written e (inner s) @ wire_frame ct" if "length ct \<le> max_recv_payload" for ct
    using framed.send_writes [OF io that, of "inner s"] by blast
  show ?thesis
  proof (cases i)
    case (Data m)
    obtain ct where ct: "seal (ce_cipher e) (make_nonce (send_seq s + 1)) m = Ok ct" "length ct = length m + 16"
      by (rule cipher_seal [OF ci(1)])
    with assms(2) Data writes [of ct] obtain t where "framed_send (ce_io e) ct (inner s) = (Ok (), t)"
      "ce_unread e t = ce_unread e (inner s)" "ce_written e t = ce_written e (inner s) @ wire_frame ct" by auto
    with Data ct ci io show ?thesis
      by (simp add: put_item_def es_send_def on_inner_def tcp_transport_def crypt_good_def)
  next
    case Heartbeat
    from writes [of "[]"] obtain t where "framed_send (ce_io e) [] (inner s) = (Ok (), t)"
      "ce_unread e t = ce_unread e (inner s)" "ce_written e t = ce_written e (inner s) @ wire_frame []" by auto
    with Heartbeat ci io show ?thesis
      by (simp add: put_item_def es_send_heartbeat_def on_inner_def tcp_transport_def crypt_good_def)
  qed
qed

lemma es_recv_keeps:
  assumes "crypt_good e s" and "item_ok i" and "ce_unread e (inner s) = item_wire e (recv_seq s) i @ rest"
  shows "\<exists>s'. es_recv (tcp_transport (ce_io e)) at s = (Ok (item_view i), s') \<and> crypt_good e s' \<and>
     recv_seq s' = item_next i (recv_seq s) \<and> last_recv_at s' = at \<and> ce_unread e (inner s') = rest \<and>
     send_seq s' = send_seq s \<and> ce_written e (inner s') = ce_written e (inner s)"
proof -
  from assms(1) have io: "pipe_laws (ce_io e) (ce_unread e) (ce_written e)"
    and ci: "cipher_laws (ce_cipher e)" "cipher s = ce_cipher e" by (auto simp: crypt_good_def)
  have "\<exists>ct. item_wire e (recv_seq s) i = wire_frame ct \<and> length ct \<le> max_recv_payload \<and>
      (ct = [] \<longleftrightarrow> i = Heartbeat) \<and>
      (i \<noteq> Heartbeat \<longrightarrow> unseal (ce_cipher e) (make_nonce (recv_seq s + 1)) ct = Ok (item_view i))"
  proof (cases i)
    case (Data p)
    obtain ct where "seal (ce_cipher e) (make_nonce (recv_seq s + 1)) p = Ok ct" "length ct = length p + 16"
      "unseal (ce_cipher e) (make_nonce (recv_seq s + 1)) ct = Ok p" by (rule cipher_seal [OF ci(1)])
    with Data assms(2) show ?thesis by (intro exI [of _ ct]) auto
  qed simp
  then obtain ct where ct: "item_wire e (recv_seq s) i = wire_frame ct" "length ct \<le> max_recv_payload"
    "ct = [] \<longleftrightarrow> i = Heartbeat"
    "i \<noteq> Heartbeat \<Longrightarrow> unseal (ce_cipher e) (make_nonce (recv_seq s + 1)) ct = Ok (item_view i)" by blast
  from framed.recv_reads [OF io ct(2), of "inner s" rest] assms(3) ct(1) obtain j where
    "framed_recv (ce_io e) (inner s) = (Ok ct, j)" "ce_unread e j = rest" "ce_written e j = ce_written e (inner s)" by auto
  with ct ci io show ?thesis
    by (cases i) (simp_all add: es_recv_def on_inner_def tcp_transport_def crypt_good_def bind_op_def Let_def)
qed

lemma wires_snoc: "encrypted.wires e k (ms @ [m]) = encrypted.wires e k ms @ item_wire e (fold item_next ms k) m"
  by (induction ms arbitrary: k) simp_all

lemma carries_send:
  assumes "carries (e, k0, base) c (w, sent)" and "item_ok i"
  shows "\<exists>r c' w'. wire_step e (SSend dl i) c = (r, c') \<and> net_step (SSend dl i) w = (r, w') \<and>
    carries (e, k0, base) c' (w', sent @ [i])"
proof -
  from assms(1) have good: "crypt_good e (we_stream c)" by (simp add: carries_def)
  from put_item_keeps [OF this assms(2)] obtain s where
    s: "put_item (tcp_transport (ce_io e)) i (we_stream c) = (Ok (), s)" "crypt_good e s"
    "send_seq s = item_next i (send_seq (we_stream c))" "recv_seq s = recv_seq (we_stream c)"
    "last_recv_at s = last_recv_at (we_stream c)" "ce_unread e (inner s) = ce_unread e (inner (we_stream c))"
    "ce_written e (inner s) = ce_written e (inner (we_stream c)) @ item_wire e (send_seq (we_stream c)) i" by blast
  with assms(1) have "carries (e, k0, base) (c\<lparr>we_stream := s\<rparr>) (w\<lparr>outbox := outbox w @ [item_view i]\<rparr>, sent @ [i])"
    by (simp add: carries_def wires_snoc)
  with s(1) assms(1) show ?thesis by (simp add: stream_send_def carries_def)
qed

lemma carries_recv:
  assumes "carries (e, k0, base) c (w, sent)"
  shows "\<exists>r c' w'. wire_step e (SRecv dl) c = (r, c') \<and> net_step (SRecv dl) w = (r, w') \<and>
    carries (e, k0, base) c' (w', sent)"
proof -
  from assms obtain items where items: "list_all item_ok items" "length items = length (we_times c)"
    "inbox w = zip (we_times c) (map (\<lambda>i. Ok (item_view i)) items)"
    "ce_unread e (inner (we_stream c)) = encrypted.wires e (recv_seq (we_stream c)) items"
    and clk: "we_clock c = clock w" and good: "crypt_good e (we_stream c)" and seen: "last_recv_at (we_stream c) \<le> clock w"
    by (auto simp: carries_def)
  have later: "carries (e, k0, base) (c\<lparr>we_clock := max (clock w) d\<rparr>) (w\<lparr>clock := max (clock w) d\<rparr>, sent)" for d
    using assms seen by (auto simp: carries_def)
  show ?thesis
  proof (cases "we_times c")
    case Nil
    with items clk assms later show ?thesis by (cases dl) (simp_all add: stream_recv_def)
  next
    case (Cons t ts)
    with items(2) obtain i js where js: "items = i # js" "length js = length ts" by (cases items) auto
    show ?thesis
    proof (cases "case dl of None \<Rightarrow> True | Some d \<Rightarrow> max t (clock w) \<le> d")
      case False
      with Cons items(3) clk later js show ?thesis
        by (cases dl) (auto simp: stream_recv_def Let_def)
    next
      case True
      from es_recv_keeps [OF good, of i "encrypted.wires e (item_next i (recv_seq (we_stream c))) js" "max t (clock w)"]
        items(1,4) js obtain s where
        s: "es_recv (tcp_transport (ce_io e)) (max t (clock w)) (we_stream c) = (Ok (item_view i), s)" "crypt_good e s"
        "recv_seq s = item_next i (recv_seq (we_stream c))" "last_recv_at s = max t (clock w)"
        "ce_unread e (inner s) = encrypted.wires e (item_next i (recv_seq (we_stream c))) js"
        "send_seq s = send_seq (we_stream c)" "ce_written e (inner s) = ce_written e (inner (we_stream c))" by auto
      let ?w = "w\<lparr>clock := max t (clock w), inbox := zip ts (map (\<lambda>i. Ok (item_view i)) js)\<rparr>"
      have "carries (e, k0, base) \<lparr>we_clock = max t (clock w), we_times = ts, we_stream = s\<rparr> (?w, sent)"
        using assms s items(1) js by (auto simp: carries_def)
      moreover have "net_step (SRecv dl) w = (Got (Done (Ok (item_view i))), ?w)"
        using True items(3) Cons js by (cases dl) (auto simp: stream_recv_def Let_def)
      moreover have "wire_step e (SRecv dl) c =
          (Got (Done (Ok (item_view i))), \<lparr>we_clock = max t (clock w), we_times = ts, we_stream = s\<rparr>)"
        using True Cons s(1) clk by (cases dl) auto
      ultimately show ?thesis by blast
    qed
  qed
qed

interpretation channel: simulation "\<lambda>(e, k0, base). wire_step e" logged_step carries op_fits
proof
  fix x :: "'a crypt_env \<times> u64 \<times> bytes" and c :: "'a wire_end" and a :: "'b net_scheme \<times> item list" and p
  assume rel: "carries x c a" and "op_fits p"
  obtain e k0 base where x: "x = (e, k0, base)" by (cases x)
  obtain w sent where a: "a = (w, sent)" by (cases a)
  have "\<exists>r c' w'. wire_step e p c = (r, c') \<and> net_step p w = (r, w') \<and> carries x c' (w', sent @ sent_item p)"
  proof (cases p)
    case (SSend dl i)
    with \<open>op_fits p\<close> carries_send [OF rel [unfolded x a], of i dl] x show ?thesis by (simp only: op_fits.simps sent_item.simps)
  next
    case (SRecv dl)
    with carries_recv [OF rel [unfolded x a], of dl] x show ?thesis by (simp only: sent_item.simps append_Nil2)
  qed
  then show "\<exists>r c' a'. (case x of (e, k0, base) \<Rightarrow> wire_step e) p c = (r, c') \<and> logged_step p a = (r, a') \<and> carries x c' a'"
    unfolding x a by auto
qed

section \<open>Properties\<close>

text \<open>
  C2. The encrypted stream implements the stream the program is modelled on. Started in related states, any sequence
  of sends, heartbeats and receives under any deadlines gives the same answers on the frames of the encrypted connection
  as on the script of messages, and the states stay related. So what is on the wire at the end are the frames of exactly
  the messages and heartbeats sent, in order, the messages under consecutive nonces and the heartbeats without one.
\<close>

theorem stream_implemented:
  assumes "carries (e, k0, base) c (w, sent)" and "\<forall>p\<in>set ps. op_fits p"
  shows "\<exists>rs c' w'. run_ops (wire_step e) ps c = (rs, c') \<and> run_ops net_step ps w = (rs, w') \<and>
     carries (e, k0, base) c' (w', sent @ concat (map sent_item ps)) \<and>
     outbox w' = outbox w @ map item_view (concat (map sent_item ps)) \<and>
     ce_written e (inner (we_stream c')) = base @ encrypted.wires e k0 (sent @ concat (map sent_item ps))"
proof -
  from channel.runs [OF assms] obtain rs c' w' where "run_ops (wire_step e) ps c = (rs, c')"
    "run_ops net_step ps w = (rs, w')" and rel: "carries (e, k0, base) c' (w', sent @ concat (map sent_item ps))"
    by (auto simp: run_logged split: prod.splits)
  moreover from rel assms(1) have "outbox w' = outbox w @ map item_view (concat (map sent_item ps))"
    "ce_written e (inner (we_stream c')) = base @ encrypted.wires e k0 (sent @ concat (map sent_item ps))"
    by (simp_all add: carries_def)
  ultimately show ?thesis by blast
qed

definition wire_demo :: "pipe wire_end" where
  "wire_demo = \<lparr>we_clock = 0, we_times = [5, 9], we_stream = es_new (\<lambda>key. tag_cipher) 0
     \<lparr>p_in = encrypted.wires pipe_env 0 [Data [1, 2], Heartbeat], p_out = []\<rparr> []\<rparr>"

definition net_demo :: net where
  "net_demo = \<lparr>clock = 0, inbox = [(5, Ok [1, 2]), (9, Ok [])], outbox = [], faults = [], closed = False, uds_out = [],
     uds_faults = [], active_service_id = None\<rparr>"

theorem stream_implemented_witness:
  "\<exists>c'. run_ops (wire_step pipe_env) [SRecv (Some 3), SRecv (Some 7), SSend None (Data [8]), SSend None Heartbeat,
        SRecv None, SRecv None] wire_demo =
       ([Got Elapsed, Got (Done (Ok [1, 2])), Sent (Done (Ok ())), Sent (Done (Ok ())), Got (Done (Ok [])), Got Hang], c') \<and>
     p_out (inner (we_stream c')) = encrypted.wires pipe_env 0 [Data [8], Heartbeat]"
proof -
  let ?ps = "[SRecv (Some 3), SRecv (Some 7), SSend None (Data [8]), SSend None Heartbeat, SRecv None, SRecv None]"
  have "carries (pipe_env, 0, []) wire_demo (net_demo, [])"
    using pipe_end_good by (auto simp: carries_def wire_demo_def net_demo_def es_new_def pipe_env_def max_recv_payload_def
        crypt_good_def pipe_io_laws tag_cipher_laws intro!: exI [of _ "[Data [1, 2], Heartbeat]"])
  from stream_implemented [OF this, of ?ps] obtain rs c' w' where
    run: "run_ops (wire_step pipe_env) ?ps wire_demo = (rs, c')" "run_ops net_step ?ps net_demo = (rs, w')"
    and out: "ce_written pipe_env (inner (we_stream c')) = encrypted.wires pipe_env 0 [Data [8], Heartbeat]"
    by (auto simp: max_recv_payload_def simp del: run_ops.simps encrypted.wires.simps)
  from run(2) have "rs = [Got Elapsed, Got (Done (Ok [1, 2])), Sent (Done (Ok ())), Sent (Done (Ok ())),
      Got (Done (Ok [])), Got Hang]"
    by (auto simp: net_demo_def stream_recv_def stream_send_def)
  moreover have "ce_written pipe_env = p_out" by (simp add: pipe_env_def)
  ultimately show ?thesis using run(1) out by auto
qed

section \<open>A receive that is cut off inside a frame\<close>

text \<open>
  \<^verbatim>\<open>recv\<close> reads the first byte, the rest of the header and the payload one after the other, and keeps what it has read
  in its own variables. Polled while only a part of a frame has arrived, it goes as far as it can. What tokio documents
  of \<^verbatim>\<open>read_exact\<close> then is stated by \<open>poll_laws\<close>: a read that asks for more than has arrived takes what is there into its
  buffer and is pending, written here as the error \<open>pending\<close>, which ends \<open>framed_recv\<close> as every other error does. A
  future that is pending and dropped, by a timeout or a \<^verbatim>\<open>select!\<close>, is forgotten with its buffers; the next receive
  starts over on what is then unread.
\<close>

definition poll_laws :: "'s byte_stream \<Rightarrow> ('s \<Rightarrow> bytes) \<Rightarrow> ('s \<Rightarrow> bytes) \<Rightarrow> err \<Rightarrow> bool" where
  "poll_laws io arrived written pending \<longleftrightarrow> pipe_laws io arrived written \<and>
     (\<forall>n s. length (arrived s) < n \<longrightarrow> (\<exists>s'. read_exact io n s = (Err pending, s') \<and> arrived s' = []))"

text \<open>A poll with a proper part of a frame is pending and has taken all that arrived.\<close>

lemma poll_recv_pending:
  assumes "poll_laws io arrived written pending" and "length m \<le> max_recv_payload"
    and "wire_frame m = a @ b" and "b \<noteq> []" and "arrived s = a"
  shows "\<exists>s'. framed_recv io s = (Err pending, s') \<and> arrived s' = []"
proof -
  from assms(1) have io: "pipe_laws io arrived written"
    and short: "\<And>n s. length (arrived s) < n \<Longrightarrow> \<exists>s'. read_exact io n s = (Err pending, s') \<and> arrived s' = []"
    unfolding poll_laws_def by blast+
  have "length a < length (wire_frame m)" "arrived s = take (length a) (wire_frame m)" using assms(3-5) by auto
  from framed_recv_short [OF io assms(2) this, of "\<lambda>e s. e = pending \<and> arrived s = []"] short
  show ?thesis by blast
qed

text \<open>
  C39. A dropped receive loses the frame boundaries. When only the bytes \<open>a\<close> of a frame have arrived, a poll of
  \<^verbatim>\<open>FramedTransport::recv\<close> is pending and has taken them off the stream. If it is dropped then, the next receive reads
  from the first byte that had not arrived: wherever in the frame that is, when the rest of the frame starts with bytes
  that form a frame themselves, their contents are delivered, which is not the message that was sent, and the message
  that was sent is lost. Dropped before its first byte arrived, a receive does no harm.
\<close>

theorem dropped_recv_misframes:
  assumes "poll_laws pio arrived sent pending" and "pipe_laws io unread written"
    and "length m \<le> max_recv_payload" and "wire_frame m = a @ b" and "b \<noteq> []" and "arrived p = a"
  shows "\<exists>p'. framed_recv pio p = (Err pending, p') \<and>
     (\<forall>s rest. unread s = arrived p' @ b @ rest \<longrightarrow>
        (if a = [] then \<exists>s'. framed_recv io s = (Ok m, s') \<and> unread s' = rest
         else \<forall>m' c. b = wire_frame m' @ c \<and> length m' \<le> max_recv_payload \<longrightarrow>
           m' \<noteq> m \<and> (\<exists>s'. framed_recv io s = (Ok m', s') \<and> unread s' = c @ rest)))"
proof -
  from poll_recv_pending [OF assms(1,3-6)] obtain p' where
    p': "framed_recv pio p = (Err pending, p')" "arrived p' = []" by blast
  have whole: "\<exists>s'. framed_recv io s = (Ok m, s') \<and> unread s' = rest" if "a = []" "unread s = b @ rest" for s rest
    using framed.recv_reads [OF assms(2,3), of s rest] assms(4) that by auto
  have inner: "m' \<noteq> m \<and> (\<exists>s'. framed_recv io s = (Ok m', s') \<and> unread s' = c @ rest)"
    if "a \<noteq> []" "unread s = b @ rest" "b = wire_frame m' @ c" "length m' \<le> max_recv_payload" for s rest m' c
  proof -
    have "length (wire_frame m') < length (wire_frame m)" using that(1,3) assms(4) by simp
    with framed.recv_reads [OF assms(2) that(4), of s "c @ rest"] that show ?thesis by auto
  qed
  show ?thesis
  proof (intro exI [of _ p'] conjI allI impI)
    fix s rest
    assume "unread s = arrived p' @ b @ rest"
    then have s: "unread s = b @ rest" by (simp add: p'(2))
    show "if a = [] then \<exists>s'. framed_recv io s = (Ok m, s') \<and> unread s' = rest
      else \<forall>m' c. b = wire_frame m' @ c \<and> length m' \<le> max_recv_payload \<longrightarrow>
        m' \<noteq> m \<and> (\<exists>s'. framed_recv io s = (Ok m', s') \<and> unread s' = c @ rest)"
    proof (cases "a = []")
      case True
      with whole [OF True s] show ?thesis by simp
    next
      case False
      from inner [OF False s] show ?thesis unfolding if_not_P [OF False] by blast
    qed
  qed (fact p'(1))
qed

text \<open>Three bytes of a frame of five have arrived; the last two form a frame.\<close>

definition poll_io :: "pipe byte_stream" where
  "poll_io = pipe_io\<lparr>read_exact := (\<lambda>n s. if n \<le> length (p_in s)
     then (Ok (take n (p_in s)), s\<lparr>p_in := drop n (p_in s)\<rparr>) else (Err [''pending''], s\<lparr>p_in := []\<rparr>))\<rparr>"

lemma poll_io_laws: "poll_laws poll_io p_in p_out [''pending'']"
  by (auto simp: poll_laws_def pipe_laws_def poll_io_def pipe_io_def)

theorem dropped_recv_misframes_witness:
  "wire_frame [8, 9, 4, 7] = [16, 8, 9, 4, 7] \<and>
   (\<exists>p'. framed_recv poll_io \<lparr>p_in = [16, 8, 9], p_out = []\<rparr> = (Err [''pending''], p') \<and>
      (\<exists>s'. framed_recv pipe_io \<lparr>p_in = p_in p' @ [4, 7], p_out = []\<rparr> = (Ok [7], s')))"
proof -
  have w: "wire_frame [8, 9, 4, 7] = [16, 8, 9, 4, 7]" "wire_frame [7] = [4, 7]"
    by (simp_all add: wire_frame_def frame_header_def)
  have "\<exists>p'. framed_recv poll_io \<lparr>p_in = [16, 8, 9], p_out = []\<rparr> = (Err [''pending''], p') \<and>
     (\<forall>s rest. p_in s = p_in p' @ [4, 7] @ rest \<longrightarrow>
        (if [16, 8, 9 :: u8] = [] then \<exists>s'. framed_recv pipe_io s = (Ok [8, 9, 4, 7], s') \<and> p_in s' = rest
         else \<forall>m' c. [4, 7] = wire_frame m' @ c \<and> length m' \<le> max_recv_payload \<longrightarrow>
           m' \<noteq> [8, 9, 4, 7] \<and> (\<exists>s'. framed_recv pipe_io s = (Ok m', s') \<and> p_in s' = c @ rest)))"
    by (rule dropped_recv_misframes [OF poll_io_laws pipe_io_laws]) (simp_all add: w max_recv_payload_def)
  then obtain p' where p': "framed_recv poll_io \<lparr>p_in = [16, 8, 9], p_out = []\<rparr> = (Err [''pending''], p')"
    and nxt: "\<forall>s rest. p_in s = p_in p' @ [4, 7] @ rest \<longrightarrow>
        (\<forall>m' c. [4, 7] = wire_frame m' @ c \<and> length m' \<le> max_recv_payload \<longrightarrow>
           m' \<noteq> [8, 9, 4, 7] \<and> (\<exists>s'. framed_recv pipe_io s = (Ok m', s') \<and> p_in s' = c @ rest))"
    by (simp only: list.distinct if_False) blast
  have "\<exists>s'. framed_recv pipe_io \<lparr>p_in = p_in p' @ [4, 7], p_out = []\<rparr> = (Ok [7], s') \<and> p_in s' = [] @ []"
    by (rule nxt [rule_format, THEN conjunct2]) (simp_all add: w max_recv_payload_def)
  with p' w(1) show ?thesis by blast
qed

end
