(* ===== verification/Net_World.thy ===== *)
theory Net_World
  imports Async_Env
begin

text \<open>
  The network while a connection is being made: beside the one TCP stream that is open (the fields of
  \<open>net\<close>, with everything received and sent on it) the UDP socket towards the rendezvous server, what the
  coming TCP connection attempts give, and a record of what was sent on the streams before. A stream starts
  in plain text; \<open>secure\<close> marks where \<^verbatim>\<open>EncryptedStream::new\<close> takes it over, and from there on the
  entries of \<open>inbox\<close> are what \<^verbatim>\<open>EncryptedStream::recv\<close> returns and those of \<open>outbox\<close> what is given to
  \<^verbatim>\<open>EncryptedStream::send\<close>. The program holds at most one TCP stream at a time.
\<close>

section \<open>State\<close>

text \<open>One stretch of a stream: where it goes, the key it is encrypted with, and what was sent.\<close>

record phase =
  ph_addr :: string
  ph_key :: "bytes option"
  ph_out :: "bytes list"

record stream_script =
  ss_inbox :: "(nat \<times> bytes result) list"
  ss_faults :: "err option list"

text \<open>\<open>heartbeats\<close> counts the background tasks of \<^verbatim>\<open>start_heartbeat\<close> that have not been aborted.\<close>

record world = net +
  udp_in :: "(nat \<times> bytes result) list"
  udp_out :: "bytes list"
  udp_faults :: "err option list"
  dials :: "(nat \<times> stream_script result) list"
  peer_addr :: string
  stream_key :: "bytes option"
  past :: "phase list"
  heartbeats :: nat

type_synonym 'a wio = "nat option \<Rightarrow> world \<Rightarrow> 'a result outcome \<times> world"

section \<open>Operations\<close>

definition udp_send :: "bytes \<Rightarrow> unit wio" where
  "udp_send bs dl w =
     (case udp_faults w of
        Some e # fs \<Rightarrow> (Done (Err e), w\<lparr>udp_faults := fs\<rparr>)
      | None # fs \<Rightarrow> (Done (Ok ()), w\<lparr>udp_faults := fs, udp_out := udp_out w @ [bs]\<rparr>)
      | [] \<Rightarrow> (Done (Ok ()), w\<lparr>udp_out := udp_out w @ [bs]\<rparr>))"

text \<open>Waiting for the next entry of a script of events.\<close>

definition await :: "(nat \<times> 'a) list \<Rightarrow> nat option \<Rightarrow> nat \<Rightarrow> (nat \<times> 'a) outcome \<times> nat" where
  "await script dl t0 =
     (case script of
        [] \<Rightarrow> (case dl of None \<Rightarrow> (Hang, t0) | Some d \<Rightarrow> (Elapsed, max t0 d))
      | (t, r) # _ \<Rightarrow>
          (case dl of
             None \<Rightarrow> (Done (max t t0, r), max t t0)
           | Some d \<Rightarrow> if max t t0 \<le> d then (Done (max t t0, r), max t t0) else (Elapsed, max t0 d)))"

text \<open>\<^verbatim>\<open>UdpSocket::recv\<close> into a buffer of 4096 bytes.\<close>

definition udp_recv :: "bytes wio" where
  "udp_recv dl w =
     (case await (udp_in w) dl (clock w) of
        (Done (t, r), _) \<Rightarrow>
          (Done (bind_result r (\<lambda>d. Ok (take 4096 d))), w\<lparr>clock := t, udp_in := tl (udp_in w)\<rparr>)
      | (Elapsed, t) \<Rightarrow> (Elapsed, w\<lparr>clock := t\<rparr>)
      | (Hang, t) \<Rightarrow> (Hang, w))"

definition current_phase :: "world \<Rightarrow> phase" where
  "current_phase w = \<lparr>ph_addr = peer_addr w, ph_key = stream_key w, ph_out = outbox w\<rparr>"

text \<open>\<^verbatim>\<open>TcpStream::connect(addr)\<close>: the new stream replaces the old one.\<close>

definition tcp_connect :: "string \<Rightarrow> unit wio" where
  "tcp_connect addr dl w =
     (case await (dials w) dl (clock w) of
        (Done (t, r), _) \<Rightarrow>
          let w = w\<lparr>clock := t, dials := tl (dials w)\<rparr> in
          (case r of
             Inl e \<Rightarrow> (Done (Err e), w)
           | Inr script \<Rightarrow>
               (Done (Ok ()), w\<lparr>past := past w @ [current_phase w], peer_addr := addr, stream_key := None,
                  inbox := ss_inbox script, faults := ss_faults script, outbox := [], closed := False\<rparr>))
      | (Elapsed, t) \<Rightarrow> (Elapsed, w\<lparr>clock := t\<rparr>)
      | (Hang, t) \<Rightarrow> (Hang, w))"

definition secure :: "bytes \<Rightarrow> unit wio" where
  "secure key dl w =
     (Done (Ok ()), w\<lparr>past := past w @ [current_phase w], stream_key := Some key, outbox := []\<rparr>)"

definition add_heartbeat :: "unit wio" where
  "add_heartbeat dl w = (Done (Ok ()), w\<lparr>heartbeats := heartbeats w + 1\<rparr>)"

definition abort_heartbeat :: "unit wio" where
  "abort_heartbeat dl w = (Done (Ok ()), w\<lparr>heartbeats := heartbeats w - 1\<rparr>)"

definition sleep :: "nat \<Rightarrow> (unit, 'w) aio" where
  "sleep d dl w =
     (case dl of
        None \<Rightarrow> (Done (Ok ()), w\<lparr>clock := clock w + d\<rparr>)
      | Some t \<Rightarrow>
          if clock w + d \<le> t then (Done (Ok ()), w\<lparr>clock := clock w + d\<rparr>)
          else (Elapsed, w\<lparr>clock := max (clock w) t\<rparr>))"

text \<open>An operation on the open stream, run in a larger state.\<close>

definition on_stream :: "'a async \<Rightarrow> ('a, 'w) aio" where
  "on_stream m dl w =
     (case m dl (net.truncate w) of (r, n) \<Rightarrow> (r, net.extend n (net.more w)))"

section \<open>Rules\<close>

lemma await_clock:
  assumes "await script dl t0 = (r, t)"
  shows "t0 \<le> t" and "dl = Some d \<Longrightarrow> t0 \<le> d \<Longrightarrow> t \<le> d" and "r = Hang \<Longrightarrow> dl = None"
    and "r = Done (t', a) \<Longrightarrow> t' = t \<and> (\<exists>u. script = (u, a) # tl script)"
  using assms by (auto simp: await_def split: list.splits option.splits if_splits prod.splits)

lemma timely_udp_send [simp, intro]: "timely (udp_send bs)"
  by (rule timelyI) (auto simp: udp_send_def split: list.splits option.splits)

lemma timely_udp_recv [simp, intro]: "timely udp_recv"
proof (rule timelyI)
  fix dl r and w w' :: world
  assume run: "udp_recv dl w = (r, w')"
  obtain q t where q: "await (udp_in w) dl (clock w) = (q, t)" by force
  from await_clock [OF q] q run
  show "clock w \<le> clock w' \<and> (\<forall>d. dl = Some d \<longrightarrow> clock w \<le> d \<longrightarrow> clock w' \<le> d) \<and> (r = Hang \<longrightarrow> dl = None)"
    by (cases q) (auto simp: udp_recv_def)
qed

lemma timely_tcp_connect [simp, intro]: "timely (tcp_connect addr)"
proof (rule timelyI)
  fix dl r and w w' :: world
  assume run: "tcp_connect addr dl w = (r, w')"
  obtain q t where q: "await (dials w) dl (clock w) = (q, t)" by force
  from await_clock [OF q] q run
  show "clock w \<le> clock w' \<and> (\<forall>d. dl = Some d \<longrightarrow> clock w \<le> d \<longrightarrow> clock w' \<le> d) \<and> (r = Hang \<longrightarrow> dl = None)"
    by (cases q) (auto simp: tcp_connect_def Let_def split: sum.splits)
qed

lemma timely_world [simp, intro]:
  "timely (secure key)" "timely add_heartbeat" "timely abort_heartbeat" "timely (sleep d)"
  by (rule timelyI, auto simp: secure_def add_heartbeat_def abort_heartbeat_def sleep_def
      split: option.splits if_splits)+

lemma net_truncate_simps [simp]:
  "clock (net.truncate w) = clock w" "inbox (net.truncate w) = inbox w" "outbox (net.truncate w) = outbox w"
  "faults (net.truncate w) = faults w" "active_service_id (net.truncate w) = active_service_id w"
  "uds_out (net.truncate w) = uds_out w" "uds_faults (net.truncate w) = uds_faults w"
  by (simp_all add: net.defs)

lemma net_extend_simps [simp]:
  "clock (net.extend n m) = clock n" "inbox (net.extend n m) = inbox n" "outbox (net.extend n m) = outbox n"
  "faults (net.extend n m) = faults n" "active_service_id (net.extend n m) = active_service_id n"
  "uds_out (net.extend n m) = uds_out n" "uds_faults (net.extend n m) = uds_faults n"
  "net.more (net.extend n m) = m"
  by (simp_all add: net.defs)

lemma timely_on_stream [simp, intro]:
  assumes "timely m"
  shows "timely (on_stream m)"
proof (rule timelyI)
  fix dl r and w w' :: "'b net_scheme"
  assume run: "on_stream m dl w = (r, w')"
  obtain q n where n: "m dl (net.truncate w) = (q, n)" by force
  from timelyD [OF assms n] run n
  show "clock w \<le> clock w' \<and> (\<forall>d. dl = Some d \<longrightarrow> clock w \<le> d \<longrightarrow> clock w' \<le> d) \<and> (r = Hang \<longrightarrow> dl = None)"
    by (auto simp: on_stream_def)
qed

section \<open>What an operation leaves alone\<close>

definition keeps :: "('w net_scheme \<Rightarrow> 'b) \<Rightarrow> ('a, 'w) aio \<Rightarrow> bool" where
  "keeps f m \<longleftrightarrow> (\<forall>dl w. f (snd (m dl w)) = f w)"

lemma keepsD: "keeps f m \<Longrightarrow> m dl w = (r, w') \<Longrightarrow> f w' = f w"
  by (metis keeps_def snd_conv)

lemma keepsI: "(\<And>dl w r w'. m dl w = (r, w') \<Longrightarrow> f w' = f w) \<Longrightarrow> keeps f m"
  unfolding keeps_def by (metis prod.collapse)

lemma keeps_lift [simp, intro]: "keeps f (lift_async r)"
  by (simp add: keeps_def lift_async_def)

lemma keeps_bind [intro]:
  assumes "keeps f m" and "\<And>x. keeps f (g x)"
  shows "keeps f (bind_async m g)"
proof (rule keepsI)
  fix dl w r w'
  assume "bind_async m g dl w = (r, w')"
  then show "f w' = f w"
    using keepsD [OF assms(1)] keepsD [OF assms(2)]
    by (auto simp: bind_async_def split: prod.splits outcome.splits sum.splits)
qed

text \<open>The same for one run, as the induction rules of the loops need it.\<close>

lemma kept_bind:
  assumes "f (snd (m dl w)) = f w"
    and "\<And>x w1. m dl w = (Done (Inr x), w1) \<Longrightarrow> f (snd (g x dl w1)) = f w1"
  shows "f (snd (bind_async m g dl w)) = f w"
proof -
  obtain r w1 where r: "m dl w = (r, w1)" by force
  show ?thesis
  proof (cases "\<exists>x. r = Done (Inr x)")
    case True
    with assms r show ?thesis by (auto simp: bind_async_def)
  next
    case False
    with assms r show ?thesis by (auto simp: bind_async_def split: outcome.splits sum.splits)
  qed
qed

lemma kept: "keeps f m \<Longrightarrow> f (snd (m dl w)) = f w"
  by (simp add: keeps_def)

lemma keeps_ctx [simp, intro]: "keeps f m \<Longrightarrow> keeps f (ctx_async c m)"
  by (rule keepsI) (auto simp: ctx_async_def split: prod.splits outcome.splits dest: keepsD)

lemma keeps_try [simp, intro]: "keeps f m \<Longrightarrow> keeps f (try_async m)"
  by (rule keepsI) (auto simp: try_async_def split: prod.splits outcome.splits dest: keepsD)

lemma keeps_timeout [simp, intro]: "keeps f m \<Longrightarrow> keeps f (timeout d m)"
  by (rule keepsI) (auto simp: timeout_def Let_def split: prod.splits outcome.splits option.splits if_splits dest: keepsD)

lemma keeps_now [simp, intro]: "keeps f now"
  by (simp add: keeps_def now_def)

text \<open>
  A part of the state that the operations on the sockets do not touch: the programs built from them in the
  theories Rendezvous and Connection do not touch it either. The interfaces ask this of the open stream only, of all sockets, of the local
  socket, and of the heartbeat tasks too.
\<close>

locale untouched_io =
  fixes f :: "'w net_scheme \<Rightarrow> 'b"
  assumes recv_keeps [simp, intro]: "keeps f stream_recv"
    and send_keeps [simp, intro]: "keeps f (stream_send m)"

locale untouched_world = untouched_io f for f :: "world \<Rightarrow> 'b"

locale untouched = untouched_world +
  assumes udp_send_keeps [simp, intro]: "keeps f (udp_send m)"
    and udp_recv_keeps [simp, intro]: "keeps f udp_recv"
    and tcp_connect_keeps [simp, intro]: "keeps f (tcp_connect addr)"
    and secure_keeps [simp, intro]: "keeps f (secure key)"
    and sleep_keeps [simp, intro]: "keeps f (sleep d)"

locale untouched_local = untouched_io +
  assumes uds_write_keeps [simp, intro]: "keeps f (uds_write bs)"

locale untouched_by_tasks = untouched +
  assumes add_heartbeat_keeps [simp, intro]: "keeps f add_heartbeat"
    and abort_heartbeat_keeps [simp, intro]: "keeps f abort_heartbeat"

context untouched_io
begin

lemma recv_until_keeps [simp, intro]: "keeps f (recv_until g)"
  unfolding keeps_def
proof (intro allI)
  fix dl w
  show "f (snd (recv_until g dl w)) = f w"
  proof (induction "length (inbox w)" arbitrary: w rule: less_induct)
    case (less w)
    obtain r w1 where r: "stream_recv dl w = (r, w1)" by force
    have "f w1 = f w" using recv_keeps r by (rule keepsD)
    moreover have "r = Done q \<Longrightarrow> length (inbox w1) < length (inbox w)" for q
      using r by (auto dest: stream_recv_shorter)
    ultimately show ?case using less [of w1] r
      by (auto simp: recv_until.simps [of g dl w] split: outcome.splits option.splits)
  qed
qed

end

lemmas io_defs = stream_recv_def stream_send_def udp_send_def udp_recv_def tcp_connect_def secure_def
  sleep_def add_heartbeat_def abort_heartbeat_def Let_def

interpretation hb: untouched heartbeats
  by unfold_locales (rule keepsI, auto simp: io_defs
      split: list.splits option.splits prod.splits outcome.splits sum.splits if_splits)+

interpretation svc: untouched_by_tasks active_service_id
  by unfold_locales (rule keepsI, auto simp: io_defs
      split: list.splits option.splits prod.splits outcome.splits sum.splits if_splits)+

interpretation uds: untouched_by_tasks "\<lambda>w. (uds_out w, uds_faults w)"
  by unfold_locales (rule keepsI, auto simp: io_defs
      split: list.splits option.splits prod.splits outcome.splits sum.splits if_splits)+

end
