(* ===== verification/Rendezvous.thy ===== *)
theory Rendezvous
  imports Net_World Crypto
begin

text \<open>
  \<^verbatim>\<open>src/rendezvous.rs\<close>: the client of the rendezvous server, over UDP for the registration and over TCP for
  \<^verbatim>\<open>PunchHoleRequest\<close> and \<^verbatim>\<open>RequestRelay\<close>, with the key exchange the server may start on the TCP stream.
  The codec of the messages, the Ed25519 signature check and the base64 crate are third-party code, the record
  \<open>rdv_ext\<close>; the primitives of the key exchange are those of the theory Crypto. The framing of the TCP streams
  is the subject of the theory Framing.
\<close>

section \<open>Messages\<close>

datatype ConnType = DefaultConn | FileTransfer | PortForward | Rdp | ViewCamera | TerminalConn

record PunchHoleRequest =
  pq_id :: string
  pq_nat_type :: i32
  pq_licence_key :: string
  pq_conn_type :: ConnType
  pq_token :: string
  pq_version :: string
  pq_udp_port :: i32
  pq_force_relay :: bool
  pq_upnp_port :: i32
  pq_socket_addr_v6 :: bytes

record PunchHoleResponse =
  pr_socket_addr :: bytes
  pr_failure :: i32
  pr_relay_server :: string
  pr_other_failure :: string

record RequestRelay =
  rq_id :: string
  rq_uuid :: string
  rq_socket_addr :: bytes
  rq_relay_server :: string
  rq_secure :: bool
  rq_licence_key :: string
  rq_conn_type :: ConnType
  rq_token :: string

record RelayResponse =
  rs_uuid :: string
  rs_relay_server :: string
  rs_refuse_reason :: string

record RegisterPk =
  rk_id :: string
  rk_uuid :: bytes
  rk_pk :: bytes
  rk_old_id :: string
  rk_no_register_device :: bool

text \<open>\<open>RdvOther\<close> is any message the program does not look into, \<open>RdvNone\<close> one whose union is not set.\<close>

datatype rendezvous_message =
    RegisterPeer string i32
  | RegisterPeerResponse bool
  | RegisterPkMsg RegisterPk
  | RegisterPkResponse i32
  | PunchHoleRequestMsg PunchHoleRequest
  | PunchHoleResponseMsg PunchHoleResponse
  | RequestRelayMsg RequestRelay
  | RelayResponseMsg RelayResponse
  | KeyExchangeMsg "bytes list"
  | RdvOther
  | RdvNone

text \<open>
  \<open>enc_rdv\<close>, \<open>dec_rdv\<close> and \<open>dbg_rdv\<close> are \<^verbatim>\<open>prost\<close>'s codec and the derived debug text; \<open>b64_std\<close> is
  \<^verbatim>\<open>base64::engine::general_purpose::STANDARD.decode\<close>; \<open>ed_key_ok\<close> is \<^verbatim>\<open>VerifyingKey::from_bytes\<close> and
  \<open>ed_verify\<close> the check of a signature of 64 bytes; \<open>local_port\<close> is the port of the UDP socket.
\<close>

record rdv_ext =
  enc_rdv :: "rendezvous_message \<Rightarrow> bytes"
  dec_rdv :: "bytes \<Rightarrow> rendezvous_message result"
  dbg_rdv :: "rendezvous_message \<Rightarrow> string"
  b64_std :: "string \<Rightarrow> bytes result"
  ed_key_ok :: "bytes \<Rightarrow> unit result"
  ed_verify :: "bytes \<Rightarrow> bytes \<Rightarrow> bytes \<Rightarrow> bool"
  local_port :: "16 word result"

datatype PunchRelayResponse = PunchHole PunchHoleResponse | Relay RelayResponse

definition CARGO_PKG_VERSION :: string where "CARGO_PKG_VERSION = ''0.2.0''"

section \<open>Registration over UDP\<close>

definition udp_bind_addr :: "string \<Rightarrow> string" where
  "udp_bind_addr server_addr = (if CHR ''['' \<in> set server_addr then ''[::]:0'' else ''0.0.0.0:0'')"

definition register_peer :: "rdv_ext \<Rightarrow> string \<Rightarrow> bool wio" where
  "register_peer x my_id =
     bind_async (udp_send (enc_rdv x (RegisterPeer my_id 0))) (\<lambda>_.
     bind_async udp_recv (\<lambda>d.
     bind_async (lift_async (dec_rdv x d)) (\<lambda>response.
     lift_async (case response of
        RegisterPeerResponse request_pk \<Rightarrow> Ok request_pk
      | other \<Rightarrow> bail (''unexpected rendezvous response to RegisterPeer: '' @ dbg_rdv x other)))))"

lemma udp_recv_shorter:
  "udp_recv dl w = (Done r, w') \<Longrightarrow> length (udp_in w') < length (udp_in w)"
proof -
  assume run: "udp_recv dl w = (Done r, w')"
  obtain q t where q: "await (udp_in w) dl (clock w) = (q, t)" by force
  with run obtain t' a where d: "q = Done (t', a)" "w' = w\<lparr>clock := t', udp_in := tl (udp_in w)\<rparr>"
    by (cases q) (auto simp: udp_recv_def)
  obtain u where "udp_in w = (u, a) # tl (udp_in w)" using await_clock(4) [OF q d(1)] by blast
  then show ?thesis using d(2) by (cases "udp_in w") simp_all
qed

text \<open>The loop of \<^verbatim>\<open>send_request\<close> that skips the answers to heartbeats.\<close>

function send_request_loop :: "rdv_ext \<Rightarrow> rendezvous_message wio" where
  "send_request_loop x dl w =
     bind_async udp_recv (\<lambda>d dl w'.
       case dec_rdv x d of
         Inl e \<Rightarrow> (Done (Err e), w')
       | Inr (RegisterPeerResponse _) \<Rightarrow> send_request_loop x dl w'
       | Inr response \<Rightarrow> (Done (Ok response), w')) dl w"
  by pat_completeness auto
termination
  by (relation "measure (\<lambda>(x, dl, w). length (udp_in w))") (auto dest: udp_recv_shorter)

declare send_request_loop.simps [simp del]

definition send_request :: "rdv_ext \<Rightarrow> rendezvous_message \<Rightarrow> rendezvous_message wio" where
  "send_request x msg = bind_async (udp_send (enc_rdv x msg)) (\<lambda>_. send_request_loop x)"

definition register_pk :: "rdv_ext \<Rightarrow> string \<Rightarrow> bytes \<Rightarrow> bytes \<Rightarrow> i32 wio" where
  "register_pk x my_id uuid public_key =
     bind_async (send_request x (RegisterPkMsg \<lparr>rk_id = my_id, rk_uuid = uuid, rk_pk = public_key, rk_old_id = [],
        rk_no_register_device = False\<rparr>)) (\<lambda>response.
     lift_async (case response of
        RegisterPkResponse r \<Rightarrow> Ok r
      | other \<Rightarrow> bail (''unexpected rendezvous response to RegisterPk: '' @ dbg_rdv x other)))"

definition punch_hole_request :: "string \<Rightarrow> string \<Rightarrow> ConnType \<Rightarrow> 16 word \<Rightarrow> rendezvous_message" where
  "punch_hole_request target_id licence_key conn_type port =
     PunchHoleRequestMsg \<lparr>pq_id = target_id, pq_nat_type = 0, pq_licence_key = licence_key,
       pq_conn_type = conn_type, pq_token = [], pq_version = CARGO_PKG_VERSION, pq_udp_port = ucast port,
       pq_force_relay = True, pq_upnp_port = 0, pq_socket_addr_v6 = []\<rparr>"

definition punch_hole_or_relay_with_conn_type ::
  "rdv_ext \<Rightarrow> string \<Rightarrow> string \<Rightarrow> ConnType \<Rightarrow> PunchRelayResponse wio" where
  "punch_hole_or_relay_with_conn_type x target_id licence_key conn_type =
     bind_async (lift_async (local_port x)) (\<lambda>port.
     bind_async (send_request x (punch_hole_request target_id licence_key conn_type port)) (\<lambda>response.
     lift_async (case response of
        PunchHoleResponseMsg r \<Rightarrow> Ok (PunchHole r)
      | RelayResponseMsg r \<Rightarrow> Ok (Relay r)
      | other \<Rightarrow> bail (''unexpected rendezvous response to PunchHoleRequest: '' @ dbg_rdv x other))))"

definition punch_hole_with_conn_type ::
  "rdv_ext \<Rightarrow> string \<Rightarrow> string \<Rightarrow> ConnType \<Rightarrow> PunchHoleResponse wio" where
  "punch_hole_with_conn_type x target_id licence_key conn_type =
     bind_async (punch_hole_or_relay_with_conn_type x target_id licence_key conn_type) (\<lambda>r.
     lift_async (case r of
        PunchHole response \<Rightarrow> Ok response
      | Relay response \<Rightarrow>
          bail (''unexpected RelayResponse to PunchHoleRequest: '' @ dbg_rdv x (RelayResponseMsg response))))"

definition send_punch_hole_with_conn_type :: "rdv_ext \<Rightarrow> string \<Rightarrow> string \<Rightarrow> ConnType \<Rightarrow> unit wio" where
  "send_punch_hole_with_conn_type x target_id licence_key conn_type =
     bind_async (lift_async (local_port x)) (\<lambda>port.
     udp_send (enc_rdv x (punch_hole_request target_id licence_key conn_type port)))"

definition request_relay_message ::
  "string \<Rightarrow> string \<Rightarrow> bytes \<Rightarrow> string \<Rightarrow> string \<Rightarrow> ConnType \<Rightarrow> rendezvous_message" where
  "request_relay_message target_id relay_server socket_addr licence_key uuid conn_type =
     RequestRelayMsg \<lparr>rq_id = target_id, rq_uuid = uuid, rq_socket_addr = socket_addr,
       rq_relay_server = relay_server, rq_secure = True, rq_licence_key = licence_key,
       rq_conn_type = conn_type, rq_token = []\<rparr>"

definition request_relay_for_with_conn_type ::
  "rdv_ext \<Rightarrow> string \<Rightarrow> string \<Rightarrow> bytes \<Rightarrow> string \<Rightarrow> ConnType \<Rightarrow> RelayResponse wio" where
  "request_relay_for_with_conn_type x target_id relay_server socket_addr licence_key conn_type =
     bind_async (send_request x (request_relay_message target_id relay_server socket_addr licence_key [] conn_type)) (\<lambda>response.
     lift_async (case response of
        RelayResponseMsg r \<Rightarrow> Ok r
      | other \<Rightarrow> bail (''unexpected rendezvous response to RequestRelay: '' @ dbg_rdv x other)))"

section \<open>RequestRelay over TCP\<close>

definition request_relay_via_tcp_with_conn_type ::
  "rdv_ext \<Rightarrow> string \<Rightarrow> string \<Rightarrow> string \<Rightarrow> bytes \<Rightarrow> string \<Rightarrow> string \<Rightarrow> ConnType \<Rightarrow> RelayResponse wio" where
  "request_relay_via_tcp_with_conn_type x server_addr target_id relay_server socket_addr licence_key uuid conn_type =
     bind_async (ctx_async (''failed to open TCP to rendezvous server '' @ server_addr @ '' for RequestRelay'')
       (tcp_connect server_addr)) (\<lambda>_.
     bind_async (stream_send
       (enc_rdv x (request_relay_message target_id relay_server socket_addr licence_key uuid conn_type))) (\<lambda>_.
     bind_async (ctx_async ''reading RelayResponse over TCP'' stream_recv) (\<lambda>resp_bytes.
     bind_async (lift_async (with_ctx ''decode RelayResponse from TCP'' (dec_rdv x resp_bytes))) (\<lambda>response.
     lift_async (case response of
        RelayResponseMsg r \<Rightarrow> Ok r
      | other \<Rightarrow> bail (''expected RelayResponse over TCP, got '' @ dbg_rdv x other))))))"

section \<open>The key of the rendezvous server\<close>

definition decode_rendezvous_verifying_key :: "rdv_ext \<Rightarrow> string \<Rightarrow> bytes result" where
  "decode_rendezvous_verifying_key x server_key_b64 =
     bind_result (with_ctx ''base64 decode rendezvous server key'' (b64_std x server_key_b64)) (\<lambda>decoded.
     if length decoded \<noteq> 32
     then bail (''rendezvous server key is '' @ show_nat (length decoded) @ '' bytes, expected 32'')
     else bind_result (with_ctx ''invalid rendezvous server Ed25519 key'' (ed_key_ok x decoded)) (\<lambda>_. Ok decoded))"

definition extract_verified_rendezvous_key ::
  "rdv_ext \<Rightarrow> bytes option \<Rightarrow> bytes \<Rightarrow> (bytes \<times> string) option" where
  "extract_verified_rendezvous_key x verifying_key signed_key =
     (case verifying_key of
        None \<Rightarrow> None
      | Some vk \<Rightarrow>
          if 96 \<le> length signed_key \<and> length (drop 64 signed_key) = 32 \<and>
             ed_verify x vk (drop 64 signed_key) (take 64 signed_key)
          then Some (drop 64 signed_key, ''signature||key'')
          else if length signed_key = 96 \<and> ed_verify x vk (take 32 signed_key) (take 64 (drop 32 signed_key))
          then Some (take 32 signed_key, ''key||signature'')
          else None)"

definition verify_rendezvous_server_key :: "rdv_ext \<Rightarrow> string \<Rightarrow> bytes \<Rightarrow> bytes result" where
  "verify_rendezvous_server_key x server_key_b64 signed_key =
     (if length signed_key = 32 then Ok signed_key
      else if length signed_key < 96 then
        bail (''signed rendezvous TCP key is '' @ show_nat (length signed_key) @ '' bytes, expected 32 or at least 96'')
      else
        let verification_key = (case decode_rendezvous_verifying_key x server_key_b64 of Inr k \<Rightarrow> Some k | Inl _ \<Rightarrow> None) in
        case extract_verified_rendezvous_key x verification_key signed_key of
          Some (peer_box_pk, layout) \<Rightarrow> Ok peer_box_pk
        | None \<Rightarrow>
            if length (drop 64 signed_key) = 32 then Ok (drop 64 signed_key)
            else Ok (take 32 signed_key))"

text \<open>\<open>sk\<close> and \<open>key_ga\<close> are the random bytes drawn for the exchange.\<close>

definition complete_tcp_key_exchange ::
  "rdv_ext \<Rightarrow> box_prims \<Rightarrow> bytes \<Rightarrow> bytes \<Rightarrow> string \<Rightarrow> bytes list \<Rightarrow> unit wio" where
  "complete_tcp_key_exchange x prims sk key_ga server_key_b64 keys =
     bind_async (lift_async (ok_or ''TCP KeyExchange missing server key payload''
       (case keys of [] \<Rightarrow> None | k # _ \<Rightarrow> Some k))) (\<lambda>signed_key.
     bind_async (lift_async (with_ctx ''verifying signed rendezvous TCP key''
       (verify_rendezvous_server_key x server_key_b64 signed_key))) (\<lambda>peer_box_pk.
     bind_async (lift_async (with_ctx ''creating TCP rendezvous symmetric key''
       (key_exchange_curve25519 prims sk key_ga peer_box_pk))) (\<lambda>key_result.
     bind_async (ctx_async ''sending TCP KeyExchange response''
       (stream_send (enc_rdv x (KeyExchangeMsg [ephemeral_pk key_result, sealed_key key_result])))) (\<lambda>_.
     secure (session_key key_result)))))"

section \<open>PunchHoleRequest over TCP\<close>

definition punch_timed_out :: "PunchHoleResponse option \<Rightarrow> nat \<Rightarrow> PunchRelayResponse result" where
  "punch_timed_out punch_response timeout_duration =
     (case punch_response of
        Some response \<Rightarrow> Ok (PunchHole response)
      | None \<Rightarrow> bail (''timed out waiting for PunchHoleResponse or RelayResponse over TCP after '' @
                  show_nat (timeout_duration div 1000) @ ''s''))"

lemma stream_recv_timeout_shorter:
  "timeout d stream_recv dl w = (Done (Ok (Some r)), w') \<Longrightarrow> length (inbox w') < length (inbox w)"
  by (auto simp: timeout_def Let_def split: prod.splits outcome.splits option.splits if_splits
      dest: stream_recv_shorter)

lemma stream_send_same_inbox: "stream_send m dl w = (r, w') \<Longrightarrow> inbox w' = inbox w"
  by (metis snd_conv stream_send_inbox)

lemma complete_tcp_key_exchange_inbox:
  "complete_tcp_key_exchange x prims sk key_ga b64 keys dl w = (r, w') \<Longrightarrow> inbox w' = inbox w"
  by (auto simp: complete_tcp_key_exchange_def bind_async_def lift_async_def ctx_async_def secure_def
      split: sum.splits prod.splits outcome.splits dest!: stream_send_same_inbox)

text \<open>
  The loop of \<^verbatim>\<open>punch_hole_via_tcp_with_conn_type\<close>. What is received ends the loop, is a punch hole response to
  remember, starts the key exchange, or is skipped. \<open>encrypted\<close> tells whether the key exchange took place;
  \<^verbatim>\<open>resent_after_key_exchange\<close> is set together with it.
\<close>

datatype punch_input = PStop "PunchRelayResponse result" | PNote PunchHoleResponse | PKeys "bytes list" | PSkip

definition punch_input :: "rdv_ext \<Rightarrow> bytes result \<Rightarrow> punch_input" where
  "punch_input x received =
     (case with_ctx ''reading rendezvous response over TCP'' received of
        Inl e \<Rightarrow> PStop (Err e)
      | Inr resp_bytes \<Rightarrow>
          (case with_ctx ''decode rendezvous response from TCP'' (dec_rdv x resp_bytes) of
             Inl e \<Rightarrow> PStop (Err e)
           | Inr (PunchHoleResponseMsg resp) \<Rightarrow> PNote resp
           | Inr (RelayResponseMsg resp) \<Rightarrow> PStop (Ok (Relay resp))
           | Inr (KeyExchangeMsg keys) \<Rightarrow> PKeys keys
           | Inr (RegisterPeerResponse _) \<Rightarrow> PSkip
           | Inr other \<Rightarrow>
               PStop (bail (''unexpected rendezvous response to TCP PunchHoleRequest: '' @ dbg_rdv x other))))"

function punch_loop ::
  "rdv_ext \<Rightarrow> box_prims \<Rightarrow> bytes \<Rightarrow> bytes \<Rightarrow> string \<Rightarrow> bytes \<Rightarrow> nat \<Rightarrow> nat \<Rightarrow>
     PunchHoleResponse option \<Rightarrow> bool \<Rightarrow> PunchRelayResponse wio" where
  "punch_loop x prims sk key_ga licence_key request_bytes timeout_duration deadline punch_response encrypted dl w =
     (let remaining = deadline - clock w in
      if remaining = 0 then (Done (punch_timed_out punch_response timeout_duration), w)
      else bind_async (timeout remaining stream_recv) (\<lambda>received dl w1.
        case received of
          None \<Rightarrow> (Done (punch_timed_out punch_response timeout_duration), w1)
        | Some q \<Rightarrow>
            (case punch_input x q of
               PStop r \<Rightarrow> (Done r, w1)
             | PNote resp \<Rightarrow>
                 punch_loop x prims sk key_ga licence_key request_bytes timeout_duration deadline (Some resp) encrypted dl w1
             | PKeys keys \<Rightarrow>
                 if encrypted then (Done (bail ''unexpected repeated TCP KeyExchange from rendezvous server''), w1)
                 else
                   bind_async (ctx_async ''completing TCP rendezvous KeyExchange''
                     (complete_tcp_key_exchange x prims sk key_ga licence_key keys)) (\<lambda>_.
                   bind_async (ctx_async ''sending encrypted PunchHoleRequest over TCP'' (stream_send request_bytes)) (\<lambda>_.
                   punch_loop x prims sk key_ga licence_key request_bytes timeout_duration deadline punch_response True)) dl w1
             | PSkip \<Rightarrow>
                 punch_loop x prims sk key_ga licence_key request_bytes timeout_duration deadline punch_response encrypted dl w1)) dl w)"
  by pat_completeness auto
termination
  by (relation "measure (\<lambda>(x, prims, sk, key_ga, lk, rb, td, d, p, enc, dl, w). length (inbox w))")
    (auto simp: ctx_async_def split: prod.splits outcome.splits
      dest!: stream_recv_timeout_shorter complete_tcp_key_exchange_inbox stream_send_same_inbox)

declare punch_loop.simps [simp del]

definition punch_hole_via_tcp_with_conn_type ::
  "rdv_ext \<Rightarrow> box_prims \<Rightarrow> bytes \<Rightarrow> bytes \<Rightarrow> string \<Rightarrow> string \<Rightarrow> string \<Rightarrow> ConnType \<Rightarrow> nat \<Rightarrow> PunchRelayResponse wio" where
  "punch_hole_via_tcp_with_conn_type x prims sk key_ga server_addr target_id licence_key conn_type timeout_duration =
     bind_async (lift_async (local_port x)) (\<lambda>port.
     bind_async (ctx_async (''failed to open TCP to rendezvous server '' @ server_addr @ '' for PunchHoleRequest'')
       (tcp_connect server_addr)) (\<lambda>_.
     let request_bytes = enc_rdv x (punch_hole_request target_id licence_key conn_type port) in
     bind_async (stream_send request_bytes) (\<lambda>_.
     bind_async now (\<lambda>t.
     punch_loop x prims sk key_ga licence_key request_bytes timeout_duration (t + timeout_duration) None False))))"

definition hex_preview :: "bytes \<Rightarrow> nat \<Rightarrow> string" where
  "hex_preview bs max_len =
     (let preview_len = min (length bs) max_len in
      concat (map (\<lambda>b. hex_digits 2 (unat b)) (take preview_len bs)) @
      (if preview_len < length bs then ''...'' else []))"

section \<open>The loop always ends\<close>

lemma complete_tcp_key_exchange_outcome:
  "\<exists>r w'. complete_tcp_key_exchange x prims sk key_ga b64 keys dl w = (Done r, w') \<and> clock w' = clock w"
  by (auto simp: complete_tcp_key_exchange_def bind_async_def lift_async_def ctx_async_def secure_def
      stream_send_def split: sum.splits prod.splits outcome.splits list.splits option.splits)

lemma stream_send_outcome: "\<exists>r w'. stream_send m dl w = (Done r, w') \<and> clock w' = clock w \<and> inbox w' = inbox w"
  by (auto simp: stream_send_def split: list.splits option.splits)

lemma timely_send_request_loop [simp, intro]: "timely (send_request_loop x)"
proof (rule timelyI)
  fix dl r and w w' :: world
  assume "send_request_loop x dl w = (r, w')"
  then show "clock w \<le> clock w' \<and> (\<forall>d. dl = Some d \<longrightarrow> clock w \<le> d \<longrightarrow> clock w' \<le> d) \<and> (r = Hang \<longrightarrow> dl = None)"
  proof (induction "length (udp_in w)" arbitrary: w rule: less_induct)
    case (less w)
    obtain q w1 where q: "udp_recv dl w = (q, w1)" by force
    note t = timelyD [OF timely_udp_recv q]
    note step = send_request_loop.simps [of x dl w]
    show ?case
    proof (cases "\<exists>d. q = Done (Ok d)")
      case True
      then obtain d where d: "q = Done (Ok d)" by blast
      have short: "length (udp_in w1) < length (udp_in w)" using q d by (auto dest: udp_recv_shorter)
      from less.prems q d have run: "(case dec_rdv x d of Inl e \<Rightarrow> (Done (Err e), w1)
         | Inr (RegisterPeerResponse _) \<Rightarrow> send_request_loop x dl w1
         | Inr response \<Rightarrow> (Done (Ok response), w1)) = (r, w')"
        by (simp add: step bind_async_def)
      show ?thesis
      proof (cases "send_request_loop x dl w1 = (r, w')")
        case True
        from less.hyps [OF short True] t show ?thesis by fastforce
      next
        case False
        with run have "w' = w1 \<and> r \<noteq> Hang" by (auto split: sum.splits rendezvous_message.splits)
        with t show ?thesis by auto
      qed
    next
      case False
      with less.prems q t show ?thesis by (auto simp: step bind_async_def split: outcome.splits sum.splits)
    qed
  qed
qed

text \<open>
  Receiving under a timeout that is not zero: a frame, an error, or silence up to the deadline.
\<close>

lemma recv_timeout_cases:
  fixes w :: "'w net_scheme"
  obtains (silence) "timeout d stream_recv None w = (Done (Ok None), w\<lparr>clock := clock w + d\<rparr>)"
    | (got) t r rest where "inbox w = (t, r) # rest" "max t (clock w) \<le> clock w + d"
        "timeout d stream_recv None w = (Done (Ok (Some r)), w\<lparr>clock := max t (clock w), inbox := rest\<rparr>)"
proof (cases "inbox w")
  case Nil
  then show ?thesis by (intro silence) (simp add: timeout_def stream_recv_def)
next
  case (Cons p rest)
  obtain t r where p: "p = (t, r)" by force
  show ?thesis
  proof (cases "max t (clock w) \<le> clock w + d")
    case True
    with Cons p show ?thesis by (intro got [of t r rest]) (simp_all add: timeout_def stream_recv_def Let_def)
  next
    case False
    with Cons p show ?thesis by (intro silence) (simp add: timeout_def stream_recv_def Let_def)
  qed
qed

lemma punch_loop_result:
  "\<exists>r w'. punch_loop x prims sk key_ga lk rb td deadline punch enc None w = (Done r, w') \<and>
     clock w \<le> clock w' \<and> clock w' \<le> max (clock w) deadline \<and>
     (\<forall>resp. r = Ok (PunchHole resp) \<longrightarrow> deadline \<le> clock w')"
proof (induction "length (inbox w)" arbitrary: w punch enc rule: less_induct)
  case (less w)
  note step = punch_loop.simps [of _ _ _ _ _ _ _ _ _ _ _ w]
  show ?case
  proof (cases "deadline - clock w = 0")
    case True
    then show ?thesis by (simp add: step)
  next
    case False
    show ?thesis
    proof (cases rule: recv_timeout_cases [of "deadline - clock w" w])
      case silence
      with False show ?thesis by (simp add: step bind_async_def)
    next
      case hit: (got t r rest)
      define w1 where "w1 = w\<lparr>clock := max t (clock w), inbox := rest\<rparr>"
      from hit have got: "timeout (deadline - clock w) stream_recv None w = (Done (Ok (Some r)), w1)"
        "clock w1 \<le> clock w + (deadline - clock w)" "clock w \<le> clock w1" "length (inbox w1) < length (inbox w)"
        by (simp_all add: w1_def)
      have ih: "\<exists>r w'. punch_loop x prims sk key_ga lk rb td deadline p e None w2 = (Done r, w') \<and>
          clock w \<le> clock w' \<and> clock w' \<le> max (clock w) deadline \<and>
          (\<forall>resp. r = Ok (PunchHole resp) \<longrightarrow> deadline \<le> clock w')"
        if "inbox w2 = inbox w1" "clock w2 = clock w1" for w2 p e
        using less [of w2 p e] that got False by fastforce
      note at = step bind_async_def ctx_async_def
      show ?thesis
      proof (cases "punch_input x r")
        case (PStop q)
        have "q \<noteq> Ok (PunchHole resp)" for resp
          using PStop by (auto simp: punch_input_def split: sum.splits rendezvous_message.splits)
        with PStop got False show ?thesis by (auto simp: at)
      next
        case (PKeys keys)
        obtain q w2 where q: "complete_tcp_key_exchange x prims sk key_ga lk keys None w1 = (Done q, w2)"
          "clock w2 = clock w1" "inbox w2 = inbox w1"
          using complete_tcp_key_exchange_outcome complete_tcp_key_exchange_inbox by metis
        obtain p w3 where p: "stream_send rb None w2 = (Done p, w3)" "clock w3 = clock w2" "inbox w3 = inbox w2"
          using stream_send_outcome by metis
        have "\<exists>r w'. punch_loop x prims sk key_ga lk rb td deadline punch True None w3 = (Done r, w') \<and>
            clock w \<le> clock w' \<and> clock w' \<le> max (clock w) deadline \<and>
            (\<forall>resp. r = Ok (PunchHole resp) \<longrightarrow> deadline \<le> clock w')"
          using ih q p by simp
        with q p got False PKeys show ?thesis
          by (cases q; cases p; cases enc) (auto simp: at bail_def)
      qed (use ih [of w1] got False in \<open>auto simp: at\<close>)
    qed
  qed
qed

lemma timely_complete_tcp_key_exchange [simp, intro]:
  "timely (complete_tcp_key_exchange x prims sk key_ga b64 keys)"
  unfolding complete_tcp_key_exchange_def by (intro timely_bind) auto

lemma timely_punch_loop [simp, intro]:
  "timely (punch_loop x prims sk key_ga lk rb td deadline punch enc)"
  unfolding timely_iff
proof (intro allI)
  fix dl w
  show "timely_run (punch_loop x prims sk key_ga lk rb td deadline punch enc) dl w"
  proof (induction x prims sk key_ga lk rb td deadline punch enc dl w rule: punch_loop.induct)
    case (1 x prims sk key_ga lk rb td deadline punch enc dl w)
    note step = punch_loop.simps [of _ _ _ _ _ _ _ _ _ _ _ w]
    show ?case
    proof (cases "deadline - clock w = 0")
      case True
      then show ?thesis by (simp add: step)
    next
      case False
      let ?body = "\<lambda>received dl w1. case received of
          None \<Rightarrow> (Done (punch_timed_out punch td), w1)
        | Some q \<Rightarrow>
            (case punch_input x q of
               PStop r \<Rightarrow> (Done r, w1)
             | PNote resp \<Rightarrow> punch_loop x prims sk key_ga lk rb td deadline (Some resp) enc dl w1
             | PKeys keys \<Rightarrow>
                 if enc then (Done (bail ''unexpected repeated TCP KeyExchange from rendezvous server''), w1)
                 else
                   bind_async (ctx_async ''completing TCP rendezvous KeyExchange''
                     (complete_tcp_key_exchange x prims sk key_ga lk keys)) (\<lambda>_.
                   bind_async (ctx_async ''sending encrypted PunchHoleRequest over TCP'' (stream_send rb)) (\<lambda>_.
                   punch_loop x prims sk key_ga lk rb td deadline punch True)) dl w1
             | PSkip \<Rightarrow> punch_loop x prims sk key_ga lk rb td deadline punch enc dl w1)"
      have "timely_run (bind_async (timeout (deadline - clock w) stream_recv) ?body) dl w"
      proof (rule timely_run_bind, goal_cases)
        case (2 received w1)
        show ?case
        proof (cases received)
          case (Some q)
          show ?thesis
          proof (cases "punch_input x q")
            case (PKeys keys)
            have "timely_run (bind_async (ctx_async ''completing TCP rendezvous KeyExchange''
                (complete_tcp_key_exchange x prims sk key_ga lk keys)) (\<lambda>_.
                bind_async (ctx_async ''sending encrypted PunchHoleRequest over TCP'' (stream_send rb)) (\<lambda>_.
                punch_loop x prims sk key_ga lk rb td deadline punch True))) dl w1" if "\<not> enc"
              by (intro timely_run_bind "1.IH"(2) [OF refl False 2 Some PKeys that])
                (simp_all add: timely_runI)
            then show ?thesis using Some PKeys by (cases enc) (simp_all add: timely_run_def)
          qed (use "1.IH" [OF refl False 2 Some] Some in \<open>auto simp: timely_run_def\<close>)
        qed (simp add: timely_run_def)
      qed (simp add: timely_runI)
      then show ?thesis using False by (simp add: step timely_run_def)
    qed
  qed
qed

lemma timely_rendezvous [simp, intro]:
  "timely (register_peer x my_id)" "timely (register_pk x my_id u pk)"
  "timely (punch_hole_via_tcp_with_conn_type x prims sk key addr target lk ct td)"
  "timely (request_relay_via_tcp_with_conn_type x addr target relay sa lk uuid ct)"
  unfolding register_peer_def register_pk_def send_request_def punch_hole_via_tcp_with_conn_type_def
    request_relay_via_tcp_with_conn_type_def Let_def
  by (intro timely_bind; auto)+

section \<open>What the rendezvous leaves alone\<close>

context untouched
begin

lemma send_request_loop_keeps [simp, intro]: "keeps f (send_request_loop x)"
proof (rule keepsI)
  fix dl r and w w' :: world
  assume "send_request_loop x dl w = (r, w')"
  then show "f w' = f w"
  proof (induction "length (udp_in w)" arbitrary: w rule: less_induct)
    case (less w)
    obtain q w1 where q: "udp_recv dl w = (q, w1)" by force
    have h: "f w1 = f w" using udp_recv_keeps q by (rule keepsD)
    have short: "q = Done p \<Longrightarrow> length (udp_in w1) < length (udp_in w)" for p
      using q by (auto dest: udp_recv_shorter)
    from less.prems q h short less.hyps [of w1] show ?case
      by (auto simp: send_request_loop.simps [of x dl w] bind_async_def
          split: outcome.splits sum.splits rendezvous_message.splits)
  qed
qed

lemma complete_tcp_key_exchange_keeps [simp, intro]:
  "keeps f (complete_tcp_key_exchange x prims sk key_ga b64 keys)"
  unfolding complete_tcp_key_exchange_def by (intro keeps_bind) auto

lemma punch_loop_keeps [simp, intro]:
  "keeps f (punch_loop x prims sk key_ga lk rb td deadline punch enc)"
  unfolding keeps_def
proof (intro allI)
  fix dl w
  show "f (snd (punch_loop x prims sk key_ga lk rb td deadline punch enc dl w)) = f w"
  proof (induction x prims sk key_ga lk rb td deadline punch enc dl w rule: punch_loop.induct)
    case (1 x prims sk key_ga lk rb td deadline punch enc dl w)
    show ?case
    proof (cases "deadline - clock w = 0")
      case True
      then show ?thesis by (simp add: punch_loop.simps [of _ _ _ _ _ _ _ _ _ _ _ w])
    next
      case False
      show ?thesis
        unfolding punch_loop.simps [of _ _ _ _ _ _ _ _ _ _ _ w] Let_def if_not_P [OF False]
      proof (rule kept_bind, goal_cases)
        case (2 received w1)
        show ?case
        proof (cases received)
          case (Some q)
          show ?thesis
          proof (cases "punch_input x q")
            case (PKeys keys)
            have "f (snd (bind_async (ctx_async ''completing TCP rendezvous KeyExchange''
                (complete_tcp_key_exchange x prims sk key_ga lk keys)) (\<lambda>_.
                bind_async (ctx_async ''sending encrypted PunchHoleRequest over TCP'' (stream_send rb)) (\<lambda>_.
                punch_loop x prims sk key_ga lk rb td deadline punch True)) dl w1)) = f w1" if "\<not> enc"
              by (intro kept_bind "1.IH"(2) [OF refl False 2 Some PKeys that])
                (simp_all add: kept)
            then show ?thesis unfolding Some PKeys option.case punch_input.case by simp
          qed (use "1.IH" [OF refl False 2 Some] Some in auto)
        qed simp
      qed (simp add: kept)
    qed
  qed
qed

end

section \<open>Properties\<close>

text \<open>
  C36. The wait for the rendezvous server is bounded, connecting to it is not. Once the TCP connection is
  made, \<^verbatim>\<open>punch_hole_via_tcp_with_conn_type\<close> returns within the given time whatever the server sends, and when
  its answer is a \<^verbatim>\<open>PunchHoleResponse\<close> it returns only when that time is up, however early the response came;
  a connection attempt that is never answered is waited for without end.
\<close>

theorem punch_hole_bounded:
  assumes "local_port x = Ok port"
  shows "(\<forall>t script ds. dials w = (t, Ok script) # ds \<longrightarrow>
      (\<exists>r w'. punch_hole_via_tcp_with_conn_type x prims sk key_ga addr target lk ct td None w = (Done r, w') \<and>
         clock w' \<le> max t (clock w) + td \<and>
         (\<forall>resp. r = Ok (PunchHole resp) \<longrightarrow> clock w' = max t (clock w) + td))) \<and>
    (dials w = [] \<longrightarrow>
      fst (punch_hole_via_tcp_with_conn_type x prims sk key_ga addr target lk ct td None w) = Hang)"
proof (intro conjI allI impI)
  fix t script ds
  assume d: "dials w = (t, Ok script) # ds"
  define rb where "rb = enc_rdv x (punch_hole_request target lk ct port)"
  obtain w1 where w1: "tcp_connect addr None w = (Done (Ok ()), w1)" "clock w1 = max t (clock w)"
    using d by (simp add: tcp_connect_def await_def Let_def)
  obtain q w2 where w2: "stream_send rb None w1 = (Done q, w2)" "clock w2 = clock w1"
    using stream_send_outcome by metis
  obtain r w3 where w3: "punch_loop x prims sk key_ga lk rb td (clock w2 + td) None False None w2 = (Done r, w3)"
    "clock w2 \<le> clock w3" "clock w3 \<le> max (clock w2) (clock w2 + td)"
    "\<And>resp. r = Ok (PunchHole resp) \<Longrightarrow> clock w2 + td \<le> clock w3"
    using punch_loop_result by metis
  have "punch_hole_via_tcp_with_conn_type x prims sk key_ga addr target lk ct td None w =
      (case q of Inl e \<Rightarrow> (Done (Err e), w2) | Inr _ \<Rightarrow> (Done r, w3))"
    using w1 w2 w3(1) assms
    by (simp add: punch_hole_via_tcp_with_conn_type_def bind_async_def lift_async_def ctx_async_def now_def
        Let_def flip: rb_def split: sum.splits)
  with w1 w2 w3 show "\<exists>r w'. punch_hole_via_tcp_with_conn_type x prims sk key_ga addr target lk ct td None w = (Done r, w') \<and>
      clock w' \<le> max t (clock w) + td \<and> (\<forall>resp. r = Ok (PunchHole resp) \<longrightarrow> clock w' = max t (clock w) + td)"
    by (cases q) fastforce+
next
  assume "dials w = []"
  with assms show "fst (punch_hole_via_tcp_with_conn_type x prims sk key_ga addr target lk ct td None w) = Hang"
    by (simp add: punch_hole_via_tcp_with_conn_type_def bind_async_def lift_async_def ctx_async_def
        tcp_connect_def await_def)
qed

definition plain_rdv :: "(bytes \<times> rendezvous_message) list \<Rightarrow> rdv_ext" where
  "plain_rdv tbl = \<lparr>
     enc_rdv = (\<lambda>m. case List.find (\<lambda>(b, m'). m' = m) tbl of Some (b, _) \<Rightarrow> b | None \<Rightarrow> []),
     dec_rdv = (\<lambda>b. case map_of tbl b of Some m \<Rightarrow> Ok m | None \<Rightarrow> Err [''failed to decode Protobuf message'']),
     dbg_rdv = (\<lambda>_. ''RendezvousMessage''), b64_std = (\<lambda>s. Ok (str_bytes s)), ed_key_ok = (\<lambda>_. Ok ()),
     ed_verify = (\<lambda>k m s. False), local_port = Ok 40000\<rparr>"

definition plain_box :: box_prims where
  "plain_box = \<lparr>ed_to_montgomery = (\<lambda>k. Ok k), box_public_key = (\<lambda>sk. sk), box_encrypt = (\<lambda>pk sk n m. Ok m)\<rparr>"

definition world_start :: "(nat \<times> bytes result) list \<Rightarrow> (nat \<times> stream_script result) list \<Rightarrow> world" where
  "world_start udp streams =
     \<lparr>clock = 0, inbox = [], outbox = [], faults = [], closed = False, uds_out = [], uds_faults = [],
      active_service_id = None, udp_in = udp, udp_out = [], udp_faults = [], dials = streams, peer_addr = [],
      stream_key = None, past = [], heartbeats = 0\<rparr>"

theorem punch_hole_bounded_witness:
  "\<exists>r w'. punch_hole_via_tcp_with_conn_type (plain_rdv []) plain_box [] [] ''hbbs:21116'' ''1'' [] DefaultConn 6000 None
       (world_start [] [(10, Ok \<lparr>ss_inbox = [], ss_faults = []\<rparr>)]) = (Done r, w') \<and> clock w' \<le> 6010"
  using punch_hole_bounded [of "plain_rdv []" 40000 "world_start [] [(10, Ok \<lparr>ss_inbox = [], ss_faults = []\<rparr>)]"
      plain_box "[]" "[]" "''hbbs:21116''" "''1''" "[]" DefaultConn 6000]
  by (auto simp: plain_rdv_def world_start_def)

text \<open>
  The key of the rendezvous server is not authenticated. \<^verbatim>\<open>verify_rendezvous_server_key\<close> accepts every
  payload of 32 bytes and every payload of at least 96 bytes, whatever the configured server key is and
  whether a signature verifies or not; a verified key is preferred when there is one.
\<close>

theorem server_key_never_rejected:
  "(is_ok (verify_rendezvous_server_key x b64 payload) \<longleftrightarrow> length payload = 32 \<or> 96 \<le> length payload) \<and>
   (case (decode_rendezvous_verifying_key x b64, length payload = 96) of
      (Inr vk, True) \<Rightarrow>
        verify_rendezvous_server_key x b64 payload =
          (if ed_verify x vk (drop 64 payload) (take 64 payload) then Ok (drop 64 payload)
           else if ed_verify x vk (take 32 payload) (drop 32 payload) then Ok (take 32 payload)
           else Ok (drop 64 payload))
    | _ \<Rightarrow> True)"
  by (auto simp: verify_rendezvous_server_key_def extract_verified_rendezvous_key_def Let_def
      split: sum.splits option.splits bool.splits)

end
