(* ===== verification/Messages.thy ===== *)
theory Messages
  imports Async_Env
begin

text \<open>
  The protobuf messages the program builds and inspects (\<^verbatim>\<open>proto/message.proto\<close>), and the
  third-party code around them as the record \<open>ext\<close>: \<^verbatim>\<open>prost\<close>'s encoding and decoding of
  \<^verbatim>\<open>Message\<close>, the derived debug text of a terminal response, and \<^verbatim>\<open>zstd\<close>. A message of a kind
  the program never looks into is \<open>MOther\<close>, a message whose union is not set \<open>MNone\<close>.
\<close>

section \<open>Terminal messages\<close>

record TerminalOpened =
  op_terminal_id :: i32
  op_success :: bool
  op_message :: string
  op_pid :: u32
  op_service_id :: string

datatype terminal_action =
    TOpen i32 u32 u32
  | TData i32 bytes bool
  | TResize i32 u32 u32
  | TClose i32

datatype terminal_response =
    ROpened TerminalOpened
  | RData i32 bytes bool
  | RClosed i32 i32
  | RError i32 string

section \<open>Session messages\<close>

record TestDelay =
  td_time :: int
  td_from_client :: bool
  td_last_delay :: u32
  td_target_bitrate :: u32

text \<open>\<^verbatim>\<open>supported_decoding\<close> is represented by its field \<^verbatim>\<open>ability_vp9\<close>, the only one the program sets.\<close>

datatype bool_option = NotSet | No | Yes

datatype image_quality = QNotSet | QLow | QBalanced | QBest

record OptionMessage =
  image_quality :: image_quality
  lock_after_session_end :: bool_option
  show_remote_cursor :: bool_option
  privacy_mode :: bool_option
  block_input :: bool_option
  custom_image_quality :: i32
  disable_audio :: bool_option
  disable_clipboard :: bool_option
  enable_file_transfer :: bool_option
  supported_decoding :: "i32 option"
  custom_fps :: i32
  disable_keyboard :: bool_option
  follow_remote_cursor :: bool_option
  follow_remote_window :: bool_option
  disable_camera :: bool_option
  terminal_persistent :: bool_option
  show_my_cursor :: bool_option

datatype misc =
    CloseReason string
  | MiscOption OptionMessage
  | CaptureDisplays "i32 list"
  | RefreshVideo bool
  | MiscOther

section \<open>File transfer messages\<close>

text \<open>The file types by their numbers; the program sends plain files only.\<close>

definition FileType_File :: i32 where "FileType_File = 4"

record FileEntry =
  fe_entry_type :: i32
  fe_name :: string
  fe_is_hidden :: bool
  fe_size :: u64
  fe_modified_time :: u64

record FileTransferReceiveRequest =
  rr_id :: i32
  rr_path :: string
  rr_files :: "FileEntry list"
  rr_file_num :: i32
  rr_total_size :: u64

datatype confirm_union = Skip bool | OffsetBlk u32

record FileTransferSendConfirmRequest =
  sc_id :: i32
  sc_file_num :: i32
  sc_union :: "confirm_union option"

record FileTransferDigest =
  dg_id :: i32
  dg_file_num :: i32
  dg_last_modified :: u64
  dg_file_size :: u64
  dg_is_upload :: bool
  dg_is_identical :: bool
  dg_transferred_size :: u64
  dg_is_resume :: bool

record FileTransferBlock =
  bk_id :: i32
  bk_file_num :: i32
  bk_data :: bytes
  bk_compressed :: bool
  bk_blk_id :: u32

record FileTransferError =
  fr_id :: i32
  fr_error :: string
  fr_file_num :: i32

record FileTransferDone =
  dn_id :: i32
  dn_file_num :: i32

datatype file_action =
    FReceive FileTransferReceiveRequest
  | FSendConfirm FileTransferSendConfirmRequest
  | FActionOther

datatype file_response =
    FBlock FileTransferBlock
  | FError FileTransferError
  | FDone FileTransferDone
  | FDigest FileTransferDigest
  | FResponseOther

section \<open>Screenshots\<close>

record ScreenshotRequest =
  sq_display :: i32
  sq_sid :: string

record ScreenshotResponse =
  sr_sid :: string
  sr_msg :: string
  sr_data :: bytes

section \<open>Connecting\<close>

text \<open>The fields of a peer's information that the program reads.\<close>

record HbbDisplayInfo =
  hd_x :: i32
  hd_y :: i32
  hd_width :: i32
  hd_height :: i32
  hd_name :: string
  hd_online :: bool
  hd_cursor_embedded :: bool

record HbbPeerInfo =
  hp_username :: string
  hp_hostname :: string
  hp_platform :: string
  hp_displays :: "HbbDisplayInfo list"

datatype login_union = LoginFileTransfer string bool | LoginTerminal string

record HbbLoginRequest =
  lr_username :: string
  lr_password :: bytes
  lr_my_id :: string
  lr_my_name :: string
  lr_option :: "OptionMessage option"
  lr_video_ack_required :: bool
  lr_session_id :: u64
  lr_version :: string
  lr_my_platform :: string
  lr_hwid :: bytes
  lr_avatar :: string
  lr_union :: "login_union option"

datatype login_answer = LoginError string | LoginPeerInfo HbbPeerInfo

section \<open>Message\<close>

datatype message =
    MTerminalAction "terminal_action option"
  | MTerminalResponse "terminal_response option"
  | MTestDelay TestDelay
  | MMisc "misc option"
  | MFileAction "file_action option"
  | MFileResponse "file_response option"
  | MScreenshotRequest ScreenshotRequest
  | MScreenshotResponse ScreenshotResponse
  | MSignedId bytes
  | MPublicKey bytes bytes
  | MHash string string
  | MLoginRequest HbbLoginRequest
  | MLoginResponse "login_answer option"
  | MPeerInfo HbbPeerInfo
  | MOther
  | MNone

record ext =
  enc_msg :: "message \<Rightarrow> bytes"
  dec_msg :: "bytes \<Rightarrow> message result"
  dbg_response :: "terminal_response \<Rightarrow> string"
  zstd_encode :: "bytes \<Rightarrow> bytes result"
  zstd_decode :: "bytes \<Rightarrow> bytes result"

definition send_message :: "ext \<Rightarrow> message \<Rightarrow> unit async" where
  "send_message x m = stream_send (enc_msg x m)"

definition test_delay_echo :: "TestDelay \<Rightarrow> message" where
  "test_delay_echo td = MTestDelay \<lparr>td_time = td_time td, td_from_client = True,
     td_last_delay = td_last_delay td, td_target_bitrate = td_target_bitrate td\<rparr>"

text \<open>The messages sent between two states, and the documented laws of the two codecs.\<close>

definition sends :: "ext \<Rightarrow> net \<Rightarrow> net \<Rightarrow> message list \<Rightarrow> bool" where
  "sends x w w' ms \<longleftrightarrow> outbox w' = outbox w @ map (enc_msg x) ms"

definition zstd_laws :: "ext \<Rightarrow> bool" where
  "zstd_laws x \<longleftrightarrow> (\<forall>bs. \<exists>z. zstd_encode x bs = Ok z \<and> zstd_decode x z = Ok bs)"

lemma wb_send_message [intro, simp]: "well_behaved (send_message x m)"
  by (simp add: send_message_def)

lemma send_message_inbox: "inbox (snd (send_message x m dl w)) = inbox w"
  by (simp add: send_message_def stream_send_inbox)

lemma send_message_outcome:
  obtains (ok) w' where "send_message x m dl w = (Done (Ok ()), w')" "sends x w w' [m]"
      "clock w' = clock w" "inbox w' = inbox w"
    | (fail) e w' where "send_message x m dl w = (Done (Err e), w')" "sends x w w' []"
      "clock w' = clock w" "inbox w' = inbox w"
proof (cases "faults w")
  case Nil
  with ok [of "w\<lparr>outbox := outbox w @ [enc_msg x m]\<rparr>"] show ?thesis
    by (simp add: send_message_def stream_send_def sends_def)
next
  case (Cons f fs)
  then show ?thesis
    by (cases f) (auto simp: send_message_def stream_send_def sends_def intro: ok fail)
qed

lemma sends_refl [simp]: "sends x w w []"
  by (simp add: sends_def)

lemma sends_trans: "sends x w w1 ms \<Longrightarrow> sends x w1 w2 ns \<Longrightarrow> sends x w w2 (ms @ ns)"
  by (simp add: sends_def)

section \<open>A concrete codec\<close>

text \<open>A codec given by a finite table of messages, with the identity as compression.\<close>

definition table_ext :: "(bytes \<times> message) list \<Rightarrow> ext" where
  "table_ext tbl = \<lparr>
     enc_msg = (\<lambda>m. case List.find (\<lambda>(b, m'). m' = m) tbl of Some (b, _) \<Rightarrow> b | None \<Rightarrow> []),
     dec_msg = (\<lambda>b. case map_of tbl b of Some m \<Rightarrow> Ok m
                   | None \<Rightarrow> Err [''failed to decode Protobuf message'']),
     dbg_response = (\<lambda>r. ''TerminalResponse''),
     zstd_encode = (\<lambda>b. Ok b), zstd_decode = (\<lambda>b. Ok b)\<rparr>"

lemma table_ext_zstd: "zstd_laws (table_ext tbl)"
  by (simp add: zstd_laws_def table_ext_def)

definition net_start :: "(nat \<times> bytes result) list \<Rightarrow> net" where
  "net_start msgs = \<lparr>clock = 0, inbox = msgs, outbox = [], faults = [], closed = False,
     uds_out = [], uds_faults = [], active_service_id = None\<rparr>"

lemma net_start_simps [simp]:
  "clock (net_start ms) = 0" "inbox (net_start ms) = ms" "outbox (net_start ms) = []"
  "faults (net_start ms) = []" "uds_faults (net_start ms) = []"
  by (simp_all add: net_start_def)

end
