(* ===== verification/Connection.thy ===== *)
theory Connection
  imports Rendezvous Messages
begin

text \<open>
  \<^verbatim>\<open>src/connection.rs\<close>: making a connection to a peer. The phases of \<^verbatim>\<open>connect_with_mode\<close> are registration
  over UDP, the rendezvous over TCP, the relay, and the handshake with the peer: key exchange in plain text,
  then login on the encrypted stream.

  A panic of the code (here: slicing a string inside a character) is an error whose last message starts with
  \<^verbatim>\<open>panic: \<close>; \<open>is_panic\<close> tells it from the errors the program handles.
\<close>

section \<open>Environment\<close>

text \<open>
  Third-party code and the machine: \<open>dec_idpk\<close> is \<^verbatim>\<open>IdPk::decode\<close> (id and key), \<open>dbg_msg\<close> the derived debug
  text of a message, \<open>sha256\<close> the hash, \<open>os_name\<close> is \<^verbatim>\<open>std::env::consts::OS\<close>.
\<close>

record conn_env =
  ce_ext :: ext
  ce_rdv :: rdv_ext
  ce_box :: box_prims
  dec_idpk :: "bytes \<Rightarrow> (string \<times> bytes) result"
  dbg_msg :: "message \<Rightarrow> string"
  sha256 :: "bytes \<Rightarrow> bytes"
  os_name :: string
  process_id :: nat

text \<open>The random bytes drawn during one connection attempt.\<close>

record entropy =
  en_reg_uuid :: bytes
  en_reg_pk :: bytes
  en_uuid :: bytes
  en_rdv_sk :: bytes
  en_rdv_key :: bytes
  en_peer_sk :: bytes
  en_peer_key :: bytes
  en_session_id :: bytes

record PeerConfig =
  id_server :: string
  relay_server :: string
  server_key :: string
  cfg_peer_id :: string
  cfg_password :: string
  warmup_secs :: nat

definition PUNCH_HOLE_RESPONSE_TIMEOUT :: nat where "PUNCH_HOLE_RESPONSE_TIMEOUT = 6000"
definition PUNCH_HOLE_GRACE_DELAY :: nat where "PUNCH_HOLE_GRACE_DELAY = 300"
definition RELAY_PORT :: nat where "RELAY_PORT = 21117"

definition is_panic :: "err \<Rightarrow> bool" where
  "is_panic e \<longleftrightarrow> e \<noteq> [] \<and> starts_with (last e) ''panic: ''"

definition is_char_boundary :: "string \<Rightarrow> nat \<Rightarrow> bool" where
  "is_char_boundary s i \<longleftrightarrow> i = 0 \<or> i = length s \<or> i < length s \<and> \<not> is_utf8_cont (s ! i)"

section \<open>Addresses, failures, options\<close>

definition normalize_relay_addr :: "string \<Rightarrow> string" where
  "normalize_relay_addr relay_addr =
     (if relay_addr = [] then []
      else if starts_with relay_addr ''['' then
        (if str_contains relay_addr '']:'' then relay_addr
         else relay_addr @ '':'' @ show_nat RELAY_PORT)
      else
        let colons = length (filter (\<lambda>c. c = CHR '':'') relay_addr) in
        if colons = 0 then relay_addr @ '':'' @ show_nat RELAY_PORT
        else if colons = 1 then relay_addr
        else ''['' @ relay_addr @ '']:'' @ show_nat RELAY_PORT)"

definition check_punch_hole_failure :: "PunchHoleResponse \<Rightarrow> unit result" where
  "check_punch_hole_failure resp =
     (if pr_other_failure resp \<noteq> [] then bail (''punch hole failed: '' @ pr_other_failure resp)
      else
        let has_relay = (pr_relay_server resp \<noteq> []) in
        if pr_failure resp = 0 then
          (if pr_socket_addr resp = [] \<and> \<not> has_relay
           then bail ''punch hole failed: the target ID does not exist on the rendezvous server'' else Ok ())
        else if pr_failure resp = 2 then Ok ()
        else if pr_failure resp = 3 then bail ''punch hole failed: license mismatch between client and server''
        else if pr_failure resp = 4 then
          bail ''punch hole failed: license connection limit exceeded (login overload)''
        else bail (''punch hole failed: unknown failure code '' @ show_i32 (pr_failure resp)))"

definition default_option_message :: OptionMessage where
  "default_option_message = \<lparr>image_quality = QNotSet, lock_after_session_end = NotSet,
     show_remote_cursor = NotSet, privacy_mode = NotSet, block_input = NotSet, custom_image_quality = 0,
     disable_audio = NotSet, disable_clipboard = NotSet, enable_file_transfer = NotSet,
     supported_decoding = None, custom_fps = 0, disable_keyboard = NotSet, follow_remote_cursor = NotSet,
     follow_remote_window = NotSet, disable_camera = NotSet, terminal_persistent = NotSet,
     show_my_cursor = NotSet\<rparr>"

definition headless_option_message :: OptionMessage where
  "headless_option_message = default_option_message\<lparr>image_quality := QBest, custom_fps := 0,
     disable_audio := Yes, disable_clipboard := Yes, disable_camera := Yes, terminal_persistent := Yes,
     supported_decoding := Some 1\<rparr>"

definition build_login_option_message :: "ConnType \<Rightarrow> OptionMessage option" where
  "build_login_option_message conn_type =
     (if conn_type = TerminalConn then Some (default_option_message\<lparr>terminal_persistent := Yes\<rparr>)
      else if conn_type = FileTransfer then None
      else Some headless_option_message)"

section \<open>The relay\<close>

definition relay_connect_with_type :: "conn_env \<Rightarrow> string \<Rightarrow> string \<Rightarrow> string \<Rightarrow> string \<Rightarrow> unit wio" where
  "relay_connect_with_type env relay_addr uuid peer_id licence_key =
     bind_async (ctx_async (''failed to connect TCP to relay '' @ relay_addr) (tcp_connect relay_addr)) (\<lambda>_.
     stream_send (enc_rdv (ce_rdv env) (request_relay_message peer_id [] [] licence_key uuid DefaultConn)))"

section \<open>The handshake\<close>

definition rand_session_id :: "bytes \<Rightarrow> u64" where
  "rand_session_id buf = from_le_bytes buf"

definition my_platform :: "string \<Rightarrow> string" where
  "my_platform os = (if os = ''macos'' then ''macOS'' else os)"

definition login_request ::
  "conn_env \<Rightarrow> entropy \<Rightarrow> string \<Rightarrow> string \<Rightarrow> string \<Rightarrow> ConnType \<Rightarrow> login_union option \<Rightarrow> string \<Rightarrow> string \<Rightarrow> message" where
  "login_request env ent password peer_id client_id conn_type lu salt challenge =
     MLoginRequest \<lparr>lr_username = peer_id,
       lr_password = password_hash (sha256 env) password (str_bytes salt) (str_bytes challenge),
       lr_my_id = client_id, lr_my_name = ''rustdesk-cli'', lr_option = build_login_option_message conn_type,
       lr_video_ack_required = False, lr_session_id = rand_session_id (en_session_id ent),
       lr_version = CARGO_PKG_VERSION, lr_my_platform = my_platform (os_name env), lr_hwid = [], lr_avatar = [],
       lr_union = lu\<rparr>"

text \<open>The loop that waits for the answer to the login, and its body: leave with a result, or go on.\<close>

definition login_input :: "conn_env \<Rightarrow> bytes result \<Rightarrow> HbbPeerInfo result option" where
  "login_input env received =
     (case with_ctx ''waiting for LoginResponse'' received of
        Inl e \<Rightarrow> Some (Err e)
      | Inr resp_raw \<Rightarrow>
          (case with_ctx ''decode LoginResponse'' (dec_msg (ce_ext env) resp_raw) of
             Inl e \<Rightarrow> Some (Err e)
           | Inr (MLoginResponse (Some (LoginPeerInfo info))) \<Rightarrow> Some (Ok info)
           | Inr (MLoginResponse (Some (LoginError e))) \<Rightarrow> Some (bail (''login rejected: '' @ e))
           | Inr (MLoginResponse None) \<Rightarrow> Some (bail ''LoginResponse has no union field'')
           | Inr (MPeerInfo info) \<Rightarrow> Some (Ok info)
           | Inr (MTestDelay _) \<Rightarrow> None
           | Inr other \<Rightarrow> Some (bail (''expected LoginResponse, got '' @ dbg_msg env other))))"

function login_loop :: "conn_env \<Rightarrow> nat \<Rightarrow> HbbPeerInfo wio" where
  "login_loop env deadline dl w =
     (let remaining = deadline - clock w in
      if remaining = 0 then (Done (bail ''timed out waiting for LoginResponse from peer''), w)
      else bind_async (timeout remaining stream_recv) (\<lambda>received dl w1.
        case received of
          None \<Rightarrow> (Done (bail ''timed out waiting for LoginResponse from peer''), w1)
        | Some q \<Rightarrow>
            (case login_input env q of
               Some r \<Rightarrow> (Done r, w1)
             | None \<Rightarrow> login_loop env deadline dl w1)) dl w)"
  by pat_completeness auto
termination
  by (relation "measure (\<lambda>(env, deadline, dl, w). length (inbox w))") (auto dest: stream_recv_timeout_shorter)

declare login_loop.simps [simp del]

text \<open>\<^verbatim>\<open>timeout(d, recv).await.map_err(|_| ...)?.context(...)?\<close>, then the decoding.\<close>

definition recv_message :: "conn_env \<Rightarrow> nat \<Rightarrow> string \<Rightarrow> string \<Rightarrow> string \<Rightarrow> message wio" where
  "recv_message env d timed_out waiting decoding =
     bind_async (timeout d stream_recv) (\<lambda>r.
     bind_async (lift_async (case r of None \<Rightarrow> bail timed_out | Some q \<Rightarrow> with_ctx waiting q)) (\<lambda>raw.
     lift_async (with_ctx decoding (dec_msg (ce_ext env) raw))))"

definition signed_id_key :: "conn_env \<Rightarrow> bytes \<Rightarrow> bytes result" where
  "signed_id_key env signed_bytes =
     (if length signed_bytes \<le> 64
      then bail (''SignedId too short ('' @ show_nat (length signed_bytes) @ '' bytes), expected >64'')
      else bind_result (with_ctx ''decode IdPk from SignedId'' (dec_idpk env (drop 64 signed_bytes))) (\<lambda>(_, pk).
        if length pk \<noteq> 32
        then bail (''peer Curve25519 pk is '' @ show_nat (length pk) @ '' bytes, expected 32'')
        else Ok pk))"

definition handshake_and_auth ::
  "conn_env \<Rightarrow> entropy \<Rightarrow> string \<Rightarrow> string \<Rightarrow> string \<Rightarrow> ConnType \<Rightarrow> login_union option \<Rightarrow> HbbPeerInfo wio" where
  "handshake_and_auth env ent password peer_id client_id conn_type lu =
     bind_async (recv_message env 30000 ''timed out waiting for SignedId from peer (30s)'' ''waiting for SignedId''
       ''decode SignedId message'') (\<lambda>msg.
     bind_async (lift_async (case msg of MSignedId i \<Rightarrow> Ok i
        | other \<Rightarrow> bail (''expected SignedId, got '' @ dbg_msg env other))) (\<lambda>signed_bytes.
     bind_async (lift_async (signed_id_key env signed_bytes)) (\<lambda>peer_box_pk.
     bind_async (lift_async (with_ctx ''NaCl key exchange with peer's Curve25519 pk failed''
       (key_exchange_curve25519 (ce_box env) (en_peer_sk ent) (en_peer_key ent) peer_box_pk))) (\<lambda>kx.
     bind_async (stream_send (enc_msg (ce_ext env) (MPublicKey (ephemeral_pk kx) (sealed_key kx)))) (\<lambda>_.
     bind_async (secure (session_key kx)) (\<lambda>_.
     bind_async (recv_message env 10000 ''timed out waiting for Hash challenge from peer'' ''waiting for Hash''
       ''decode Hash message'') (\<lambda>msg.
     bind_async (lift_async (case msg of MHash salt challenge \<Rightarrow> Ok (salt, challenge)
        | other \<Rightarrow> bail (''expected Hash, got '' @ dbg_msg env other))) (\<lambda>(salt, challenge).
     bind_async (stream_send (enc_msg (ce_ext env)
       (login_request env ent password peer_id client_id conn_type lu salt challenge))) (\<lambda>_.
     bind_async now (\<lambda>t.
     login_loop env (t + 10000)))))))))))"

section \<open>The whole flow\<close>

text \<open>What phase 2 learned: whether the server answered, a relay uuid of the peer, and a relay address.\<close>

record rendezvous_outcome =
  ro_answered :: bool
  ro_peer_uuid :: "string option"
  ro_relay :: "string option"

definition rendezvous_hint :: "PeerConfig \<Rightarrow> PunchRelayResponse result \<Rightarrow> rendezvous_outcome result" where
  "rendezvous_hint config r =
     (case r of
        Inr (PunchHole resp) \<Rightarrow>
          bind_result (check_punch_hole_failure resp) (\<lambda>_.
          Ok \<lparr>ro_answered = True, ro_peer_uuid = None,
              ro_relay = (if pr_relay_server resp \<noteq> [] then Some (normalize_relay_addr (pr_relay_server resp)) else None)\<rparr>)
      | Inr (Relay resp) \<Rightarrow>
          if rs_refuse_reason resp \<noteq> [] then bail (''relay refused: '' @ rs_refuse_reason resp)
          else Ok \<lparr>ro_answered = True, ro_peer_uuid = (if rs_uuid resp \<noteq> [] then Some (rs_uuid resp) else None),
              ro_relay = Some (normalize_relay_addr
                (if rs_relay_server resp \<noteq> [] then rs_relay_server resp else relay_server config))\<rparr>
      | Inl e \<Rightarrow> Ok \<lparr>ro_answered = False, ro_peer_uuid = None, ro_relay = None\<rparr>)"

definition requested_relay :: "PeerConfig \<Rightarrow> RelayResponse result option \<Rightarrow> string result" where
  "requested_relay config r =
     (case r of
        Some (Inr relay_response) \<Rightarrow>
          if rs_refuse_reason relay_response \<noteq> [] then bail (''relay refused: '' @ rs_refuse_reason relay_response)
          else if rs_relay_server relay_response = [] then Ok (normalize_relay_addr (relay_server config))
          else Ok (normalize_relay_addr (rs_relay_server relay_response))
      | Some (Inl e) \<Rightarrow> Ok (normalize_relay_addr (relay_server config))
      | None \<Rightarrow> Ok (normalize_relay_addr (relay_server config)))"

text \<open>
  The text \<^verbatim>\<open>&relay_uuid[..relay_uuid.len().min(8)]\<close> of a debug message panics when byte 8 lies inside a
  character.
\<close>

definition uuid_preview :: "string \<Rightarrow> string result" where
  "uuid_preview relay_uuid =
     (let n = min (length relay_uuid) 8 in
      if is_char_boundary relay_uuid n then Ok (take n relay_uuid)
      else Err [''panic: byte index 8 is not a char boundary''])"

text \<open>
  \<open>bound\<close> is how binding the UDP socket and connecting it ends. The background task of \<^verbatim>\<open>start_heartbeat\<close> shares the
  UDP socket with nothing that comes after it and is counted in \<open>heartbeats\<close> only.
\<close>

definition connect_with_mode ::
  "conn_env \<Rightarrow> entropy \<Rightarrow> unit result \<Rightarrow> PeerConfig \<Rightarrow> ConnType \<Rightarrow> login_union option \<Rightarrow> HbbPeerInfo wio" where
  "connect_with_mode env ent bound config conn_type lu =
     bind_async (lift_async (with_ctx ''failed to connect to rendezvous server'' bound)) (\<lambda>_.
     let my_id = ''cli-'' @ show_nat (process_id env) in
     bind_async (ctx_async ''RegisterPeer failed'' (register_peer (ce_rdv env) my_id)) (\<lambda>request_pk.
     bind_async
       (if request_pk then
          bind_async (ctx_async ''RegisterPk failed''
            (register_pk (ce_rdv env) my_id (en_reg_uuid ent) (en_reg_pk ent))) (\<lambda>_. return_async ())
        else return_async ()) (\<lambda>_.
     bind_async add_heartbeat (\<lambda>_.
     bind_async (if warmup_secs config > 0 then sleep (1000 * warmup_secs config) else return_async ()) (\<lambda>_.
     let client_uuid = concat (map (\<lambda>b. hex_digits 2 (unat b)) (en_uuid ent)) in
     bind_async (try_async (punch_hole_via_tcp_with_conn_type (ce_rdv env) (ce_box env) (en_rdv_sk ent)
        (en_rdv_key ent) (id_server config) (cfg_peer_id config) (server_key config) conn_type
        PUNCH_HOLE_RESPONSE_TIMEOUT)) (\<lambda>punched.
     bind_async (lift_async (rendezvous_hint config punched)) (\<lambda>hint.
     bind_async
       (case ro_relay hint of
          Some relay_addr \<Rightarrow> return_async relay_addr
        | None \<Rightarrow>
            bind_async (timeout 15000 (request_relay_via_tcp_with_conn_type (ce_rdv env) (id_server config)
              (cfg_peer_id config) (relay_server config) [] (server_key config) client_uuid DefaultConn)) (\<lambda>r.
            lift_async (requested_relay config r))) (\<lambda>relay_addr.
     let relay_uuid = (case ro_peer_uuid hint of Some u \<Rightarrow> u | None \<Rightarrow> client_uuid) in
     bind_async (if ro_answered hint then sleep PUNCH_HOLE_GRACE_DELAY else return_async ()) (\<lambda>_.
     bind_async (lift_async (uuid_preview relay_uuid)) (\<lambda>_.
     bind_async (relay_connect_with_type env relay_addr relay_uuid (cfg_peer_id config) (server_key config)) (\<lambda>_.
     bind_async (try_async (handshake_and_auth env ent (cfg_password config) (cfg_peer_id config) my_id conn_type lu)) (\<lambda>r.
     bind_async abort_heartbeat (\<lambda>_.
     lift_async r)))))))))))))"

definition connect :: "conn_env \<Rightarrow> entropy \<Rightarrow> unit result \<Rightarrow> PeerConfig \<Rightarrow> HbbPeerInfo wio" where
  "connect env ent bound config = connect_with_mode env ent bound config DefaultConn None"

section \<open>The handshake: time, and what is sent in which phase\<close>

lemma login_loop_result:
  "ends (login_loop env deadline) w (\<lambda>r w'. clock w \<le> clock w' \<and> clock w' \<le> max (clock w) deadline \<and>
     outbox w' = outbox w \<and> past w' = past w \<and> stream_key w' = stream_key w)"
  unfolding ends_def
proof (induction "length (inbox w)" arbitrary: w rule: less_induct)
  case (less w)
  note step = login_loop.simps [of _ _ _ w]
  show ?case
  proof (cases "deadline - clock w = 0")
    case True
    then show ?thesis by (simp add: step)
  next
    case False
    show ?thesis
    proof (cases rule: recv_timeout_cases [of "deadline - clock w" w])
      case silence
      with False show ?thesis by (simp add: step bind_async_def)
    next
      case (got t r rest)
      define w1 where "w1 = w\<lparr>clock := max t (clock w), inbox := rest\<rparr>"
      have ih: "\<exists>r w'. login_loop env deadline None w1 = (Done r, w') \<and> clock w \<le> clock w' \<and>
          clock w' \<le> max (clock w) deadline \<and> outbox w' = outbox w \<and> past w' = past w \<and> stream_key w' = stream_key w"
        using less [of w1] got False by (fastforce simp: w1_def)
      have end_here: "clock w \<le> clock w1 \<and> clock w1 \<le> max (clock w) deadline \<and> outbox w1 = outbox w \<and>
          past w1 = past w \<and> stream_key w1 = stream_key w"
        using got False by (auto simp: w1_def)
      show ?thesis
        using ih end_here False got(3)
        by (cases "login_input env r") (auto simp: step bind_async_def w1_def [symmetric])
    qed
  qed
qed

lemma recv_message_result:
  "ends (recv_message env d a b c) w (\<lambda>r w'. clock w \<le> clock w' \<and> clock w' \<le> clock w + d \<and>
     outbox w' = outbox w \<and> past w' = past w \<and> stream_key w' = stream_key w \<and> peer_addr w' = peer_addr w)"
proof (cases rule: recv_timeout_cases [of d w])
  case silence
  then show ?thesis by (simp add: ends_def recv_message_def bind_async_def lift_async_def bail_def)
next
  case (got t r rest)
  then show ?thesis by (cases r) (simp_all add: ends_def recv_message_def bind_async_def lift_async_def)
qed

lemma ends_bind_secure:
  "ends (f ()) (w\<lparr>past := past w @ [current_phase w], stream_key := Some key, outbox := []\<rparr>) P \<Longrightarrow>
    ends (bind_async (secure key) f) w P"
  by (simp add: ends_def bind_async_def secure_def)

lemma key_exchange_session_key: "key_exchange_curve25519 prims sk key pk = Ok kx \<Longrightarrow> session_key kx = key"
  by (auto simp: key_exchange_curve25519_def key_exchange_with_box_pk_def Let_def split: sum.splits)

text \<open>The second half of the handshake, on the encrypted stream.\<close>

lemma login_result:
  assumes "outbox w = []"
  shows "ends (bind_async (recv_message env 10000 a b c) (\<lambda>msg.
     bind_async (lift_async (case msg of MHash salt challenge \<Rightarrow> Ok (salt, challenge)
        | other \<Rightarrow> bail (''expected Hash, got '' @ dbg_msg env other))) (\<lambda>(salt, challenge).
     bind_async (stream_send (enc_msg (ce_ext env)
       (login_request env ent password peer_id client_id conn_type lu salt challenge))) (\<lambda>_.
     bind_async now (\<lambda>t. login_loop env (t + 10000)))))) w (\<lambda>r w'.
     clock w' \<le> clock w + 20000 \<and> past w' = past w \<and> stream_key w' = stream_key w \<and>
     (outbox w' = [] \<and> \<not> is_ok r \<or>
       (\<exists>salt challenge. outbox w' =
          [enc_msg (ce_ext env) (login_request env ent password peer_id client_id conn_type lu salt challenge)])))"
proof (rule ends_bind [OF recv_message_result], goal_cases)
  case (1 msg w1)
  show ?case
  proof (rule ends_bind_lift, goal_cases)
    case (1 sc)
    obtain salt challenge where sc: "sc = (salt, challenge)" by force
    show ?case
      unfolding sc prod.case
    proof (rule ends_bind_send, goal_cases)
      case (1 fs)
      show ?case
        by (rule ends_bind_now, rule ends_mono [OF login_loop_result]) (use \<open>clock w \<le> clock w1 \<and> _\<close> assms in auto)
    qed (use \<open>clock w \<le> clock w1 \<and> _\<close> assms in auto)
  qed (use 1 assms in auto)
qed (use assms in auto)

lemma handshake_result:
  "ends (handshake_and_auth env ent password peer_id client_id conn_type lu) w (\<lambda>r w'.
     clock w' \<le> clock w + 50000 \<and>
     (past w' = past w \<and> outbox w' = outbox w \<and> \<not> is_ok r \<or>
      (\<exists>pk sealed. past w' = past w @ [\<lparr>ph_addr = peer_addr w, ph_key = stream_key w,
           ph_out = outbox w @ [enc_msg (ce_ext env) (MPublicKey pk sealed)]\<rparr>] \<and>
         stream_key w' = Some (en_peer_key ent) \<and>
         (outbox w' = [] \<and> \<not> is_ok r \<or>
          (\<exists>salt challenge. outbox w' =
             [enc_msg (ce_ext env) (login_request env ent password peer_id client_id conn_type lu salt challenge)])))))"
  unfolding handshake_and_auth_def
proof (rule ends_bind [OF recv_message_result], goal_cases)
  case w1: (1 msg w1)
  show ?case
  proof (rule ends_bind_lift, goal_cases)
    case (1 signed_bytes)
    show ?case
    proof (rule ends_bind_lift, goal_cases)
      case (1 pk)
      show ?case
      proof (rule ends_bind_lift, goal_cases)
        case (1 kx)
        then have key: "session_key kx = en_peer_key ent" by (auto dest: key_exchange_session_key)
        show ?case
        proof (rule ends_bind_send, goal_cases)
          case (1 fs)
          show ?case
            by (rule ends_bind_secure, rule ends_mono [OF login_result])
              (use w1 key in \<open>auto simp: current_phase_def\<close>)
        qed (use w1 in auto)
      qed (use w1 in auto)
    qed (use w1 in auto)
  qed (use w1 in auto)
qed auto

section \<open>Relay addresses\<close>

abbreviation colons :: "string \<Rightarrow> nat" where
  "colons a \<equiv> length (filter (\<lambda>c. c = CHR '':'') a)"

text \<open>An IPv6 address in brackets has its closing bracket.\<close>

definition brackets_closed :: "string \<Rightarrow> bool" where
  "brackets_closed a \<longleftrightarrow> starts_with a ''['' \<longrightarrow> ends_with a '']'' \<or> str_contains a '']:''"

lemma relay_port_text: "show_nat RELAY_PORT = ''21117''"
  by (simp add: RELAY_PORT_def show_nat_eval digit_chars)

lemma contains_append: "str_contains (a @ p @ b) p"
  by (auto simp: str_contains_iff)

lemma normalize_cases:
  assumes "a \<noteq> []" and "brackets_closed a"
  shows "normalize_relay_addr a \<in> {a, a @ '':21117'', ''['' @ a @ '']:21117''} \<and>
    normalize_relay_addr (normalize_relay_addr a) = normalize_relay_addr a"
proof (cases "starts_with a ''[''")
  case True
  show ?thesis
  proof (cases "str_contains a '']:''")
    case True
    with \<open>starts_with a ''[''\<close> assms show ?thesis by (simp add: normalize_relay_addr_def)
  next
    case False
    with \<open>starts_with a ''[''\<close> assms obtain b where b: "a = b @ '']''" by (auto simp: brackets_closed_def ends_with_iff)
    have n: "normalize_relay_addr a = a @ '':21117''"
      using True False assms by (simp add: normalize_relay_addr_def relay_port_text)
    have "starts_with (a @ '':21117'') ''[''" using True by (auto simp: starts_with_iff)
    moreover have "str_contains (a @ '':21117'') '']:''" unfolding b using contains_append [of b "'']:''" "''21117''"] by simp
    ultimately have "normalize_relay_addr (a @ '':21117'') = a @ '':21117''" by (simp add: normalize_relay_addr_def)
    with n show ?thesis by simp
  qed
next
  case False
  consider "colons a = 0" | "colons a = 1" | "1 < colons a" by linarith
  then show ?thesis
  proof cases
    case 1
    have n: "normalize_relay_addr a = a @ '':21117''"
      using 1 False assms by (simp add: normalize_relay_addr_def relay_port_text)
    have "\<not> starts_with (a @ '':21117'') ''[''" using False assms(1) by (cases a) (auto simp: starts_with_iff)
    moreover have "colons (a @ '':21117'') = 1" using 1 by simp
    ultimately have "normalize_relay_addr (a @ '':21117'') = a @ '':21117''" by (simp add: normalize_relay_addr_def)
    with n show ?thesis by simp
  next
    case 2
    with False assms show ?thesis by (simp add: normalize_relay_addr_def)
  next
    case 3
    then have "colons a \<noteq> 0" by linarith
    then have n: "normalize_relay_addr a = ''['' @ a @ '']:21117''"
      using 3 False assms by (simp add: normalize_relay_addr_def relay_port_text)
    have "str_contains (''['' @ a @ '']:21117'') '']:''"
      using contains_append [of "''['' @ a" "'']:''" "''21117''"] by simp
    then have "normalize_relay_addr (''['' @ a @ '']:21117'') = ''['' @ a @ '']:21117''"
      by (simp add: normalize_relay_addr_def)
    with n show ?thesis by simp
  qed
qed

section \<open>Connecting and deadlines\<close>

lemma timely_login_loop [simp, intro]: "timely (login_loop env deadline)"
  unfolding timely_iff
proof (intro allI)
  fix dl w
  show "timely_run (login_loop env deadline) dl w"
  proof (induction env deadline dl w rule: login_loop.induct)
    case (1 env deadline dl w)
    note step = login_loop.simps [of _ _ _ w]
    show ?case
    proof (cases "deadline - clock w = 0")
      case True
      then show ?thesis by (simp add: step)
    next
      case False
      have "timely_run (bind_async (timeout (deadline - clock w) stream_recv) (\<lambda>received dl w1.
        case received of
          None \<Rightarrow> (Done (bail ''timed out waiting for LoginResponse from peer''), w1)
        | Some q \<Rightarrow>
            (case login_input env q of
               Some r \<Rightarrow> (Done r, w1)
             | None \<Rightarrow> login_loop env deadline dl w1))) dl w"
      proof (rule timely_run_bind)
        show "timely_run (timeout (deadline - clock w) stream_recv) dl w" by (simp add: timely_runI)
      qed (use "1.IH" [OF refl False] in \<open>auto simp: timely_run_def split: option.splits\<close>)
      then show ?thesis using False by (simp add: step timely_run_def)
    qed
  qed
qed

lemma timely_connect [simp, intro]:
  "timely (relay_connect_with_type env addr uuid pid lk)"
  "timely (handshake_and_auth env ent pw pid cid ct lu)"
  "timely (connect_with_mode env ent bound config ct lu)"
proof -
  show relay: "timely (relay_connect_with_type env addr uuid pid lk)" for addr uuid pid lk
    unfolding relay_connect_with_type_def Let_def by (intro timely_bind) auto
  show hs: "timely (handshake_and_auth env ent pw pid cid ct lu)" for pw pid cid ct lu
    unfolding handshake_and_auth_def recv_message_def
    by (intro timely_bind) (auto split: prod.splits intro!: timely_bind)
  show "timely (connect_with_mode env ent bound config ct lu)"
    unfolding connect_with_mode_def Let_def
    by (intro timely_bind) (auto split: option.splits intro!: timely_bind relay hs)
qed

section \<open>What connecting leaves alone\<close>

context untouched_world
begin

lemma login_loop_keeps [simp, intro]: "keeps f (login_loop env deadline)"
  unfolding keeps_def
proof (intro allI)
  fix dl w
  show "f (snd (login_loop env deadline dl w)) = f w"
  proof (induction env deadline dl w rule: login_loop.induct)
    case (1 env deadline dl w)
    show ?case
    proof (cases "deadline - clock w = 0")
      case True
      then show ?thesis by (simp add: login_loop.simps [of _ _ _ w])
    next
      case False
      show ?thesis
        unfolding login_loop.simps [of _ _ _ w] Let_def if_not_P [OF False]
        by (rule kept_bind) (use "1.IH" [OF refl False] in \<open>auto simp: kept split: option.splits\<close>)
    qed
  qed
qed

end

context untouched
begin

lemma handshake_keeps [simp, intro]: "keeps f (handshake_and_auth env ent pw pid cid ct lu)"
  unfolding handshake_and_auth_def recv_message_def by (intro keeps_bind) (auto split: prod.splits intro!: keeps_bind)

lemma rendezvous_keeps [simp, intro]:
  "keeps f (register_peer x my_id)" "keeps f (register_pk x my_id u pk)"
  "keeps f (punch_hole_via_tcp_with_conn_type x prims sk key addr target lk ct td)"
  "keeps f (request_relay_via_tcp_with_conn_type x addr target relay sa lk uuid ct)"
  "keeps f (relay_connect_with_type env addr uuid pid lk)"
  unfolding register_peer_def register_pk_def send_request_def punch_hole_via_tcp_with_conn_type_def
    request_relay_via_tcp_with_conn_type_def relay_connect_with_type_def Let_def
  by (intro keeps_bind; auto)+

end

context untouched_by_tasks
begin

lemma connect_with_mode_keeps [simp, intro]: "keeps f (connect_with_mode env ent bound config ct lu)"
  unfolding connect_with_mode_def Let_def by (intro keeps_bind) (auto split: option.splits intro!: keeps_bind)

end

text \<open>Everything between the start of the heartbeat task and the handshake.\<close>

lemma connect_Ok_heartbeats:
  assumes "connect_with_mode env ent bound config ct lu dl w = (Done (Ok info), w')"
  shows "heartbeats w' = heartbeats w"
proof -
  note kept = keepsD [OF keeps_ctx [OF hb.rendezvous_keeps(1)]] keepsD [OF keeps_ctx [OF hb.rendezvous_keeps(2)]]
    keepsD [OF keeps_try [OF hb.rendezvous_keeps(3)]] keepsD [OF keeps_timeout [OF hb.rendezvous_keeps(4)]]
    keepsD [OF hb.rendezvous_keeps(5)] keepsD [OF keeps_try [OF hb.handshake_keeps]] keepsD [OF hb.sleep_keeps]
  from assms show ?thesis
    unfolding connect_with_mode_def Let_def
    by (auto dest!: bind_async_Ok kept simp: lift_async_def add_heartbeat_def abort_heartbeat_def
        split: if_splits option.splits)
qed

text \<open>A connection that was made is encrypted.\<close>

interpretation key: untouched_world stream_key
  by unfold_locales (rule keepsI, auto simp: io_defs split: list.splits option.splits if_splits)+

lemma handshake_Ok_encrypted:
  assumes "handshake_and_auth env ent pw pid cid ct lu dl w = (Done (Ok info), w')"
  shows "stream_key w' = Some (en_peer_key ent)"
  using assms unfolding handshake_and_auth_def recv_message_def
  by (auto dest!: bind_async_Ok key_exchange_session_key keepsD [OF key.login_loop_keeps]
      keepsD [OF key.send_keeps] keepsD [OF keeps_timeout [OF key.recv_keeps]]
      simp: lift_async_def secure_def now_def split: prod.splits)

lemma connect_Ok_encrypted:
  assumes "connect_with_mode env ent bound config ct lu dl w = (Done (Ok info), w')"
  shows "stream_key w' = Some (en_peer_key ent)"
  using assms unfolding connect_with_mode_def Let_def
  by (auto dest!: bind_async_Ok handshake_Ok_encrypted simp: lift_async_def abort_heartbeat_def try_async_def
      split: prod.splits outcome.splits)

lemma hex_char_ascii: "d < 16 \<Longrightarrow> \<not> is_utf8_cont (hex_char d)"
  by (auto simp: is_utf8_cont_def hex_char_def digit_char_def)

lemma hex_digits_ascii: "c \<in> set (hex_digits k n) \<Longrightarrow> \<not> is_utf8_cont c"
  by (induction k arbitrary: n) (auto simp: hex_char_ascii)

lemma uuid_preview_hex:
  assumes "length u = 16"
  shows "is_ok (uuid_preview (concat (map (\<lambda>b. hex_digits 2 (unat (b :: u8))) u)))"
proof -
  let ?s = "concat (map (\<lambda>b. hex_digits 2 (unat b)) u)"
  have "length ?s = 32" using assms by (simp add: length_concat comp_def length_hex_digits sum_list_triv)
  then have "?s ! 8 \<in> set ?s" by (intro nth_mem) simp
  then obtain b :: u8 where "?s ! 8 \<in> set (hex_digits 2 (unat b))" by auto
  then have "\<not> is_utf8_cont (?s ! 8)" by (rule hex_digits_ascii)
  with \<open>length ?s = 32\<close> show ?thesis by (simp add: uuid_preview_def is_char_boundary_def)
qed

lemma tcp_connect_Err:
  "dials w = (t, Err e) # ds \<Longrightarrow> t \<le> clock w \<Longrightarrow> dl = None \<or> dl = Some d \<and> clock w \<le> d \<Longrightarrow>
    tcp_connect addr dl w = (Done (Err e), w\<lparr>dials := ds\<rparr>)"
  by (auto simp: tcp_connect_def await_def max_def Let_def)

section \<open>Properties\<close>

text \<open>
  C10. The password never travels in the clear, and the handshake always ends. Whatever the peer sends,
  \<^verbatim>\<open>handshake_and_auth\<close> returns within 50 seconds. In plain text it sends at most the \<^verbatim>\<open>PublicKey\<close> message, and it
  fails without sending anything else there; the login request with the password hash goes out only on the
  stream encrypted with the session key that was drawn for this connection, and no login succeeds without it.
\<close>

theorem handshake_protects_login:
  "\<exists>r w'. handshake_and_auth env ent password peer_id client_id conn_type lu None w = (Done r, w') \<and>
     clock w' \<le> clock w + 50000 \<and>
     (past w' = past w \<and> outbox w' = outbox w \<and> \<not> is_ok r \<or>
      (\<exists>pk sealed. past w' = past w @ [\<lparr>ph_addr = peer_addr w, ph_key = stream_key w,
           ph_out = outbox w @ [enc_msg (ce_ext env) (MPublicKey pk sealed)]\<rparr>] \<and>
         stream_key w' = Some (en_peer_key ent) \<and>
         (outbox w' = [] \<and> \<not> is_ok r \<or>
          (\<exists>salt challenge. outbox w' =
             [enc_msg (ce_ext env) (login_request env ent password peer_id client_id conn_type lu salt challenge)]))))"
  using handshake_result [of env ent password peer_id client_id conn_type lu w] by (simp add: ends_def)

text \<open>
  Relay addresses. Normalizing an address that is not empty (and whose bracket, if it starts with one, is
  closed) keeps it or adds the relay port, in brackets where it has several colons, and normalizing the result
  again changes nothing.
\<close>

theorem normalize_relay_addr_idempotent:
  assumes "a \<noteq> []" and "starts_with a ''['' \<longrightarrow> ends_with a '']'' \<or> str_contains a '']:''"
  shows "normalize_relay_addr a \<in> {a, a @ '':21117'', ''['' @ a @ '']:21117''} \<and>
    normalize_relay_addr (normalize_relay_addr a) = normalize_relay_addr a"
  using normalize_cases [of a] assms by (simp add: brackets_closed_def)

theorem normalize_relay_addr_idempotent_witness:
  "normalize_relay_addr (normalize_relay_addr ''::1'') = normalize_relay_addr ''::1''"
  using normalize_relay_addr_idempotent [of "''::1''"] by (simp add: starts_with_def)

text \<open>
  Heartbeat tasks. A connection that is made leaves no heartbeat task behind. But when the peer is registered
  and none of the TCP connections that follow can be made, the attempt fails and the task it started runs on:
  each failed attempt adds one.
\<close>

theorem connect_heartbeat_tasks:
  "(connect_with_mode env ent bound config ct lu dl w = (Done (Ok info), w') \<longrightarrow> heartbeats w' = heartbeats w) \<and>
   (bound = Ok () \<and> warmup_secs config = 0 \<and> length (en_uuid ent) = 16 \<and> local_port (ce_rdv env) = Ok port \<and>
    udp_faults w = [] \<and> udp_in w = (t, Ok d) # us \<and>
    dec_rdv (ce_rdv env) (take 4096 d) = Ok (RegisterPeerResponse False) \<and>
    dials w = [(t, Err e1), (t, Err e2), (t, Err e3)] \<longrightarrow>
      (\<exists>e v. connect_with_mode env ent bound config ct lu None w = (Done (Err e), v) \<and>
         heartbeats v = heartbeats w + 1))"
proof (intro conjI impI; (elim conjE)?)
  assume bound: "bound = Ok ()" and warm: "warmup_secs config = 0" and uuid: "length (en_uuid ent) = 16"
    and port: "local_port (ce_rdv env) = Ok port" and udp: "udp_faults w = []" "udp_in w = (t, Ok d) # us"
    and dec: "dec_rdv (ce_rdv env) (take 4096 d) = Ok (RegisterPeerResponse False)"
    and ds: "dials w = [(t, Err e1), (t, Err e2), (t, Err e3)]"
  define my_id where "my_id = ''cli-'' @ show_nat (process_id env)"
  define w1 where "w1 = w\<lparr>clock := max t (clock w), udp_in := us,
      udp_out := udp_out w @ [enc_rdv (ce_rdv env) (RegisterPeer my_id 0)]\<rparr>"
  have reg: "register_peer (ce_rdv env) my_id None w = (Done (Ok False), w1)"
    using udp dec by (simp add: register_peer_def bind_async_def udp_send_def udp_recv_def await_def lift_async_def w1_def)
  have w1: "dials w1 = dials w" "clock w1 = max t (clock w)" "heartbeats w1 = heartbeats w" by (simp_all add: w1_def)
  obtain p where p: "uuid_preview (concat (map (\<lambda>b. hex_digits 2 (unat b)) (en_uuid ent))) = Ok p"
    using uuid_preview_hex [OF uuid] by (auto simp: is_ok_iff)
  define w2 where "w2 = w1\<lparr>heartbeats := Suc (heartbeats w)\<rparr>"
  define w3 where "w3 = w2\<lparr>dials := [(t, Err e2), (t, Err e3)]\<rparr>"
  define w4 where "w4 = w3\<lparr>dials := [(t, Err e3)]\<rparr>"
  have time: "t \<le> clock w2" "t \<le> clock w3" "t \<le> clock w4" by (simp_all add: w2_def w3_def w4_def w1)
  have ds': "dials w2 = [(t, Err e1), (t, Err e2), (t, Err e3)]" "dials w3 = [(t, Err e2), (t, Err e3)]" "dials w4 = [(t, Err e3)]"
    by (simp_all add: w4_def w3_def w2_def w1 ds)
  have dialled: "tcp_connect a None w2 = (Done (Err e1), w3)" "tcp_connect a (Some (clock w3 + 15000)) w3 = (Done (Err e2), w4)"
    "tcp_connect a None w4 = (Done (Err e3), w4\<lparr>dials := []\<rparr>)" for a
    using tcp_connect_Err [OF ds'(1) time(1), of None] tcp_connect_Err [OF ds'(2) time(2), of "Some (clock w3 + 15000)"]
      tcp_connect_Err [OF ds'(3) time(3), of None]
    by (auto simp: w3_def w4_def)
  obtain x1 where punch: "punch_hole_via_tcp_with_conn_type (ce_rdv env) (ce_box env) (en_rdv_sk ent) (en_rdv_key ent)
      (id_server config) (cfg_peer_id config) (server_key config) ct PUNCH_HOLE_RESPONSE_TIMEOUT None w2 = (Done (Err x1), w3)"
    using dialled(1) port by (simp add: punch_hole_via_tcp_with_conn_type_def bind_async_def lift_async_def ctx_async_def)
  obtain x2 where relay: "timeout 15000 (request_relay_via_tcp_with_conn_type (ce_rdv env) (id_server config)
      (cfg_peer_id config) (relay_server config) [] (server_key config) uuid DefaultConn) None w3 =
      (Done (Ok (Some (Err x2))), w4)" for uuid
    using dialled(2) by (simp add: request_relay_via_tcp_with_conn_type_def timeout_def bind_async_def ctx_async_def)
  obtain x3 where bind: "relay_connect_with_type env (normalize_relay_addr (relay_server config)) uuid (cfg_peer_id config) (server_key config) None w4 =
      (Done (Err x3), w4\<lparr>dials := []\<rparr>)" for uuid
    using dialled(3) by (simp add: relay_connect_with_type_def bind_async_def ctx_async_def)
  show "\<exists>e v. connect_with_mode env ent bound config ct lu None w = (Done (Err e), v) \<and> heartbeats v = heartbeats w + 1"
    unfolding connect_with_mode_def Let_def bound my_id_def [symmetric]
    by (simp add: bind_async_def lift_async_def ctx_async_def try_async_def reg add_heartbeat_def warm p punch
        rendezvous_hint_def relay requested_relay_def bind w2_def [symmetric] w1(3)) (simp add: w4_def w3_def w2_def)
qed (rule connect_Ok_heartbeats)

definition demo_env :: conn_env where
  "demo_env = \<lparr>ce_ext = table_ext [], ce_rdv = plain_rdv [([5], RegisterPeerResponse False)], ce_box = plain_box,
     dec_idpk = (\<lambda>b. Ok ([], b)), dbg_msg = (\<lambda>_. ''Message''), sha256 = (\<lambda>b. b), os_name = ''linux'',
     process_id = 7\<rparr>"

definition demo_entropy :: entropy where
  "demo_entropy = \<lparr>en_reg_uuid = [], en_reg_pk = [], en_uuid = replicate 16 0, en_rdv_sk = [], en_rdv_key = [],
     en_peer_sk = [], en_peer_key = [], en_session_id = replicate 8 0\<rparr>"

definition demo_config :: PeerConfig where
  "demo_config = \<lparr>id_server = ''hbbs:21116'', relay_server = ''hbbr:21117'', server_key = [], cfg_peer_id = ''1'',
     cfg_password = ''pw'', warmup_secs = 0\<rparr>"

theorem connect_heartbeat_tasks_witness:
  "\<exists>e v. connect_with_mode demo_env demo_entropy (Ok ()) demo_config DefaultConn None None
       (world_start [(3, Ok [5])] (replicate 3 (3, Err [''refused'']))) = (Done (Err e), v) \<and> heartbeats v = 1"
  using connect_heartbeat_tasks [of demo_env demo_entropy "Ok ()" demo_config DefaultConn None None
      "world_start [(3, Ok [5])] (replicate 3 (3, Err [''refused'']))" undefined undefined 40000 3 "[5]" "[]"
      "[''refused'']" "[''refused'']" "[''refused'']"]
  by (simp add: demo_env_def demo_entropy_def demo_config_def plain_rdv_def world_start_def numeral_3_eq_3)

section \<open>A connection that succeeds\<close>

text \<open>
  A run in which the rendezvous server refuses both TCP connections and the peer is reached over the configured relay.
\<close>

definition demo_peer_info :: HbbPeerInfo where
  "demo_peer_info = \<lparr>hp_username = ''u'', hp_hostname = ''h'', hp_platform = ''Linux'', hp_displays = []\<rparr>"

definition peer_env :: conn_env where
  "peer_env = \<lparr>
     ce_ext = (table_ext [([1], MSignedId (replicate 96 0)), ([2], MHash ''s'' ''c''),
        ([3], MLoginResponse (Some (LoginPeerInfo demo_peer_info)))])\<lparr>enc_msg := \<lambda>_. [9]\<rparr>,
     ce_rdv = (plain_rdv [([5], RegisterPeerResponse False)])\<lparr>enc_rdv := \<lambda>_. [8]\<rparr>, ce_box = plain_box,
     dec_idpk = (\<lambda>b. Ok ([], b)), dbg_msg = (\<lambda>_. ''Message''), sha256 = (\<lambda>b. b), os_name = ''linux'',
     process_id = 7\<rparr>"

definition peer_script :: "(nat \<times> bytes result) list" where
  "peer_script = [(4, Ok [1]), (5, Ok [2]), (6, Ok [3])]"

definition relay_dials :: "(nat \<times> stream_script result) list" where
  "relay_dials = [(3, Err [''refused'']), (3, Err [''refused'']), (3, Ok \<lparr>ss_inbox = peer_script, ss_faults = []\<rparr>)]"

lemma normalize_demo: "normalize_relay_addr ''hbbr:21117'' = ''hbbr:21117''"
  by (simp add: normalize_relay_addr_def starts_with_def)

lemmas run_defs = bind_async_def lift_async_def ctx_async_def try_async_def timeout_def udp_send_def udp_recv_def
  await_def tcp_connect_def stream_send_def stream_recv_def secure_def add_heartbeat_def abort_heartbeat_def now_def
  Let_def

lemma demo_connect:
  assumes dl: "dl = None \<or> dl = Some 30000"
  shows "\<exists>w'. connect_with_mode peer_env demo_entropy (Ok ()) demo_config ct lu dl
     (world_start [(3, Ok [5])] relay_dials) = (Done (Ok demo_peer_info), w') \<and> clock w' = 6 \<and> faults w' = [] \<and> inbox w' = []"
proof -
  define w0 where "w0 = world_start [(3, Ok [5])] relay_dials"
  define w1 where "w1 = w0\<lparr>udp_out := [[8]], clock := 3, udp_in := []\<rparr>"
  define w2 where "w2 = w1\<lparr>heartbeats := Suc 0, dials := tl relay_dials\<rparr>"
  define w3 where "w3 = w2\<lparr>dials := tl (tl relay_dials)\<rparr>"
  define w4 where "w4 = w3\<lparr>dials := [], past := [current_phase w3], peer_addr := ''hbbr:21117'',
     inbox := peer_script, outbox := [[8]]\<rparr>"
  note states = w4_def w3_def w2_def w1_def w0_def world_start_def
  have reg: "register_peer (ce_rdv peer_env) m dl w0 = (Done (Ok False), w1)" for m
    using dl by (elim disjE) (simp_all add: register_peer_def run_defs states peer_env_def plain_rdv_def)
  have "\<exists>e. punch_hole_via_tcp_with_conn_type (ce_rdv peer_env) (ce_box peer_env) sk k a t lk ct td dl
      (w1\<lparr>heartbeats := Suc 0\<rparr>) = (Done (Err e), w2)" for sk k a t lk ct td
    using dl by (elim disjE) (simp_all add: punch_hole_via_tcp_with_conn_type_def run_defs states relay_dials_def
        peer_env_def plain_rdv_def)
  then obtain e1 where punch: "\<And>sk k a t lk ct td. punch_hole_via_tcp_with_conn_type (ce_rdv peer_env)
      (ce_box peer_env) sk k a t lk ct td dl (w1\<lparr>heartbeats := Suc 0\<rparr>) = (Done (Err (e1 sk k a t lk ct td)), w2)"
    by metis
  have "\<exists>e. timeout 15000 (request_relay_via_tcp_with_conn_type (ce_rdv peer_env) a t r sa lk u ct) dl w2 =
      (Done (Ok (Some (Err e))), w3)" for a t r sa lk u ct
    using dl by (elim disjE) (simp_all add: request_relay_via_tcp_with_conn_type_def run_defs states relay_dials_def)
  then obtain e2 where relay: "\<And>a t r sa lk u ct. timeout 15000 (request_relay_via_tcp_with_conn_type
      (ce_rdv peer_env) a t r sa lk u ct) dl w2 = (Done (Ok (Some (Err (e2 a t r sa lk u ct)))), w3)" by metis
  have con: "relay_connect_with_type peer_env ''hbbr:21117'' u t lk dl w3 = (Done (Ok ()), w4)" for u t lk
    using dl by (elim disjE) (simp_all add: relay_connect_with_type_def run_defs states relay_dials_def peer_env_def
        current_phase_def)
  obtain w5 where w5: "handshake_and_auth peer_env demo_entropy ''pw'' ''1'' (''cli-'' @ show_nat (process_id peer_env))
      ct lu dl w4 = (Done (Ok demo_peer_info), w5)" "clock w5 = 6" "faults w5 = []" "inbox w5 = []"
    using dl by (elim disjE) (simp_all add: handshake_and_auth_def recv_message_def signed_id_key_def run_defs states
        peer_env_def table_ext_def key_exchange_curve25519_def key_exchange_with_box_pk_def plain_box_def
        login_loop.simps login_input_def peer_script_def)
  obtain p where p: "uuid_preview (concat (map (\<lambda>b. hex_digits 2 (unat b)) (en_uuid demo_entropy))) = Ok p"
    using uuid_preview_hex [of "en_uuid demo_entropy"] by (auto simp: is_ok_iff demo_entropy_def)
  define my_id where "my_id = ''cli-'' @ show_nat (process_id peer_env)"
  have hb: "heartbeats w1 = 0" by (simp add: w1_def w0_def world_start_def)
  have cfg: "warmup_secs demo_config = 0" "relay_server demo_config = ''hbbr:21117''"
    "cfg_password demo_config = ''pw''" "cfg_peer_id demo_config = ''1''"
    by (simp_all add: demo_config_def)
  show ?thesis
    unfolding connect_with_mode_def Let_def w0_def [symmetric] my_id_def [symmetric]
    using w5 [folded my_id_def]
    by (simp add: bind_async_def lift_async_def ctx_async_def try_async_def reg add_heartbeat_def hb cfg punch
        rendezvous_hint_def relay requested_relay_def normalize_demo p con abort_heartbeat_def)
qed

end
