(* ===== verification/Terminal.thy ===== *)
theory Terminal
  imports Messages
begin

text \<open>
  \<^verbatim>\<open>src/terminal.rs\<close>: opening, feeding, reading, resizing and closing the remote terminal over an
  encrypted stream, with the timeouts of the code. Durations are milliseconds.
\<close>

section \<open>Definitions\<close>

record TerminalInfo =
  terminal_id :: i32
  pid :: u32
  service_id :: string

datatype TerminalEvent = EvData bytes | EvClosed i32 | EvError string

text \<open>\<^verbatim>\<open>env\<close> is \<^verbatim>\<open>std::env::var(...).ok()\<close>.\<close>

definition env_size :: "(string \<Rightarrow> string option) \<Rightarrow> string \<Rightarrow> u32 \<Rightarrow> u32" where
  "env_size env v d =
     (case Option.bind (env v) (parse_unsigned 32) of
        Some n \<Rightarrow> if 0 < n then of_nat n else d
      | None \<Rightarrow> d)"

definition default_terminal_size :: "(string \<Rightarrow> string option) \<Rightarrow> u32 \<times> u32" where
  "default_terminal_size env = (env_size env ''LINES'' 24, env_size env ''COLUMNS'' 80)"

definition TERMINAL_RESPONSE_TIMEOUT :: nat where "TERMINAL_RESPONSE_TIMEOUT = 15000"
definition OPEN_TERMINAL_TIMEOUT :: nat where "OPEN_TERMINAL_TIMEOUT = 15000"
definition INITIAL_TERMINAL_OPENED_PROBE_TIMEOUT :: nat where
  "INITIAL_TERMINAL_OPENED_PROBE_TIMEOUT = 2000"
definition COMPRESS_THRESHOLD :: nat where "COMPRESS_THRESHOLD = 1024"

definition terminal_info_from_opened :: "TerminalOpened \<Rightarrow> TerminalInfo result" where
  "terminal_info_from_opened opened =
     (if \<not> op_success opened
      then bail (''remote refused to open terminal: '' @ op_message opened)
      else Ok \<lparr>terminal_id = op_terminal_id opened, pid = op_pid opened,
               service_id = op_service_id opened\<rparr>)"

definition send_action :: "ext \<Rightarrow> terminal_action \<Rightarrow> unit async" where
  "send_action x action = send_message x (MTerminalAction (Some action))"

text \<open>\<^verbatim>\<open>Duration::as_secs_f64\<close> of whole milliseconds, as \<^verbatim>\<open>Display\<close> prints it.\<close>

definition show_secs :: "nat \<Rightarrow> string" where
  "show_secs ms =
     (let f = ms mod 1000;
          digits = [digit_char (f div 100), digit_char (f div 10 mod 10), digit_char (f mod 10)] in
      show_nat (ms div 1000) @
        (if f = 0 then [] else CHR ''.'' # trim_end_matches [CHR ''0''] digits))"

definition terminal_response_timeout_error :: "nat \<Rightarrow> err" where
  "terminal_response_timeout_error d =
     [''timed out waiting for TerminalResponse after '' @ show_secs d @ ''s'']"

definition is_terminal_response_timeout :: "err \<Rightarrow> bool" where
  "is_terminal_response_timeout e =
     str_contains (err_chain e) ''timed out waiting for TerminalResponse after''"

lemma ctx_recv_shorter:
  "ctx_async c stream_recv dl w = (Done r, w') \<Longrightarrow> length (inbox w') < length (inbox w)"
  by (auto simp: ctx_async_def split: prod.splits outcome.splits dest: stream_recv_shorter)

text \<open>The loop inside the timeout: skip everything that is not a terminal response.\<close>

function recv_response_loop :: "ext \<Rightarrow> terminal_response async" where
  "recv_response_loop x dl w =
     (case ctx_async ''reading terminal response'' stream_recv dl w of
        (Done (Inr raw), w') \<Rightarrow>
          (case with_ctx ''decoding Message'' (dec_msg x raw) of
             Inl e \<Rightarrow> (Done (Err e), w')
           | Inr (MTerminalResponse (Some r)) \<Rightarrow> (Done (Ok r), w')
           | Inr (MTerminalResponse None) \<Rightarrow> (Done (bail ''TerminalResponse with empty union''), w')
           | Inr _ \<Rightarrow> recv_response_loop x dl w')
      | (Done (Inl e), w') \<Rightarrow> (Done (Err e), w')
      | (Elapsed, w') \<Rightarrow> (Elapsed, w')
      | (Hang, w') \<Rightarrow> (Hang, w'))"
  by pat_completeness auto
termination
  by (relation "measure (\<lambda>(x, dl, w). length (inbox w))") (auto dest: ctx_recv_shorter [OF sym])

declare recv_response_loop.simps [simp del]

definition recv_terminal_response :: "ext \<Rightarrow> nat \<Rightarrow> terminal_response async" where
  "recv_terminal_response x d =
     bind_async (timeout d (recv_response_loop x)) (\<lambda>r.
       lift_async (case r of None \<Rightarrow> Err (terminal_response_timeout_error d) | Some q \<Rightarrow> q))"

definition open_terminal :: "ext \<Rightarrow> u32 \<Rightarrow> u32 \<Rightarrow> TerminalInfo async" where
  "open_terminal x rows cols =
     bind_async (ctx_async ''sending OpenTerminal'' (send_action x (TOpen 0 rows cols))) (\<lambda>_.
     bind_async (timeout OPEN_TERMINAL_TIMEOUT (recv_terminal_response x TERMINAL_RESPONSE_TIMEOUT)) (\<lambda>r.
     bind_async (lift_async (case r of
         None \<Rightarrow> bail (''timed out waiting for TerminalOpened after '' @
                   show_nat (OPEN_TERMINAL_TIMEOUT div 1000) @ ''s'')
       | Some q \<Rightarrow> with_ctx ''waiting for TerminalOpened'' q)) (\<lambda>resp.
     lift_async (case resp of
         ROpened opened \<Rightarrow> terminal_info_from_opened opened
       | RError _ msg \<Rightarrow> bail (''terminal error on open: '' @ msg)
       | other \<Rightarrow> bail (''expected TerminalOpened, got '' @ dbg_response x other)))))"

definition send_terminal_data :: "ext \<Rightarrow> i32 \<Rightarrow> bytes \<Rightarrow> unit async" where
  "send_terminal_data x tid payload =
     bind_async (lift_async
       (if COMPRESS_THRESHOLD < length payload
        then bind_result (with_ctx ''zstd compression failed'' (zstd_encode x payload)) (\<lambda>z. Ok (z, True))
        else Ok (payload, False))) (\<lambda>(d, compressed).
     ctx_async ''sending TerminalData'' (send_action x (TData tid d compressed)))"

definition terminal_event :: "ext \<Rightarrow> terminal_response \<Rightarrow> TerminalEvent result" where
  "terminal_event x resp =
     (case resp of
        RData _ d compressed \<Rightarrow>
          bind_result (if compressed
             then with_ctx ''zstd decompression of terminal data failed'' (zstd_decode x d)
             else Ok d) (\<lambda>bs. Ok (EvData bs))
      | RClosed _ code \<Rightarrow> Ok (EvClosed code)
      | RError _ msg \<Rightarrow> Ok (EvError msg)
      | ROpened _ \<Rightarrow> bail ''unexpected TerminalOpened during data receive'')"

definition recv_terminal_data_with_timeout :: "ext \<Rightarrow> nat \<Rightarrow> TerminalEvent async" where
  "recv_terminal_data_with_timeout x d =
     bind_async (ctx_async ''receiving terminal data'' (recv_terminal_response x d)) (\<lambda>resp.
     lift_async (terminal_event x resp))"

definition recv_terminal_data :: "ext \<Rightarrow> TerminalEvent async" where
  "recv_terminal_data x = recv_terminal_data_with_timeout x TERMINAL_RESPONSE_TIMEOUT"

definition resize_terminal :: "ext \<Rightarrow> i32 \<Rightarrow> u32 \<Rightarrow> u32 \<Rightarrow> unit async" where
  "resize_terminal x tid rows cols =
     ctx_async ''sending ResizeTerminal'' (send_action x (TResize tid rows cols))"

definition close_terminal :: "ext \<Rightarrow> i32 \<Rightarrow> unit async" where
  "close_terminal x tid = ctx_async ''sending CloseTerminal'' (send_action x (TClose tid))"

text \<open>
  \<^verbatim>\<open>connect_terminal\<close>: \<open>connect\<close> is the call of \<^verbatim>\<open>connection::connect_with_mode\<close> and gives the
  peer information.
\<close>

definition connect_terminal ::
  "ext \<Rightarrow> (string \<Rightarrow> string option) \<Rightarrow> 'p async \<Rightarrow> ('p \<times> TerminalInfo) async" where
  "connect_terminal x env connect =
     bind_async connect (\<lambda>peer.
     bind_async (timeout INITIAL_TERMINAL_OPENED_PROBE_TIMEOUT
         (recv_terminal_response x TERMINAL_RESPONSE_TIMEOUT)) (\<lambda>r.
     bind_async (case r of
         Some (Inr (ROpened opened)) \<Rightarrow>
           lift_async (with_ctx ''processing initial TerminalOpened after login''
             (terminal_info_from_opened opened))
       | Some (Inr (RError _ msg)) \<Rightarrow> lift_async (bail (''terminal error after login: '' @ msg))
       | Some (Inr other) \<Rightarrow>
           lift_async (bail (''expected TerminalOpened after terminal login, got '' @ dbg_response x other))
       | Some (Inl e) \<Rightarrow> lift_async (Err (''waiting for initial TerminalOpened'' # e))
       | None \<Rightarrow>
           (case default_terminal_size env of (rows, cols) \<Rightarrow>
              ctx_async ''opening remote terminal'' (open_terminal x rows cols))) (\<lambda>info.
     return_async (peer, info))))"

text \<open>
  The loop of \<^verbatim>\<open>run_terminal_session\<close>. \<^verbatim>\<open>tokio::select!\<close> takes whichever event comes, so the loop
  runs over a list of events: input from stdin (\<open>None\<close> when stdin ends) and results of
  \<^verbatim>\<open>recv_terminal_data\<close>. It returns the result, the bytes written to stdout and the state;
  \<open>None\<close> as result means the list of events ended while the loop was still waiting.
\<close>

datatype term_input = Stdin "bytes option" | TermResult "TerminalEvent result"

fun terminal_loop ::
  "ext \<Rightarrow> i32 \<Rightarrow> term_input list \<Rightarrow> bytes \<Rightarrow> net \<Rightarrow> unit result option \<times> bytes \<times> net" where
  "terminal_loop x tid [] out w = (None, out, w)"
| "terminal_loop x tid (Stdin (Some d) # evs) out w =
     (case send_terminal_data x tid d None w of
        (Done (Inr _), w') \<Rightarrow> terminal_loop x tid evs out w'
      | (Done (Inl e), w') \<Rightarrow> (Some (Err e), out, w')
      | (_, w') \<Rightarrow> (None, out, w'))"
| "terminal_loop x tid (Stdin None # evs) out w =
     (Some (Ok ()), out, snd (close_terminal x tid None w))"
| "terminal_loop x tid (TermResult (Inr (EvData d)) # evs) out w =
     terminal_loop x tid evs (out @ d) w"
| "terminal_loop x tid (TermResult (Inr (EvClosed _)) # evs) out w = (Some (Ok ()), out, w)"
| "terminal_loop x tid (TermResult (Inr (EvError msg)) # evs) out w =
     (Some (bail (''terminal error: '' @ msg)), out, w)"
| "terminal_loop x tid (TermResult (Inl e) # evs) out w =
     (Some (Err (''receiving terminal output'' # e)), out, w)"

section \<open>Every terminal operation is well behaved\<close>

lemma wb_recv_response_loop [intro, simp]: "well_behaved (recv_response_loop x)"
  unfolding well_behaved_def
proof (intro allI)
  fix dl w
  show "steps_to dl w (snd (recv_response_loop x dl w)) \<and>
    (fst (recv_response_loop x dl w) = Hang \<longrightarrow> dl = None)"
  proof (induction "length (inbox w)" arbitrary: w rule: less_induct)
    case (less w)
    obtain r w1 where r: "ctx_async ''reading terminal response'' stream_recv dl w = (r, w1)" by force
    from well_behavedD [OF wb_ctx [OF wb_recv] r] have s: "steps_to dl w w1" "r = Hang \<Longrightarrow> dl = None"
      by auto
    show ?case
    proof (cases r)
      case (Done q)
      have "length (inbox w1) < length (inbox w)" using r Done by (auto dest: ctx_recv_shorter)
      from less [OF this] have ih: "steps_to dl w (snd (recv_response_loop x dl w1))"
        "fst (recv_response_loop x dl w1) = Hang \<Longrightarrow> dl = None"
        using s(1) by (auto intro: steps_to_trans)
      show ?thesis
        using s ih
        by (simp add: recv_response_loop.simps [of x dl w] r Done bail_def
            split: sum.splits message.splits option.splits)
    next
      case Elapsed
      have "recv_response_loop x dl w = (Elapsed, w1)"
        by (simp add: recv_response_loop.simps [of x dl w] r Elapsed)
      with s show ?thesis by simp
    next
      case Hang
      have "recv_response_loop x dl w = (Hang, w1)"
        by (simp add: recv_response_loop.simps [of x dl w] r Hang)
      with s Hang show ?thesis by simp
    qed
  qed
qed

lemma wb_send_action [intro, simp]: "well_behaved (send_action x a)"
  by (simp add: send_action_def)

lemma wb_recv_terminal_response [intro, simp]: "well_behaved (recv_terminal_response x d)"
  unfolding recv_terminal_response_def by (intro wb_bind wb_timeout) auto

lemma wb_open_terminal [intro, simp]: "well_behaved (open_terminal x rows cols)"
  unfolding open_terminal_def by (intro wb_bind wb_ctx wb_timeout) auto

lemma wb_send_terminal_data [intro, simp]: "well_behaved (send_terminal_data x tid d)"
  unfolding send_terminal_data_def by (intro wb_bind) (auto split: prod.splits)

lemma wb_recv_terminal_data_with_timeout [intro, simp]:
  "well_behaved (recv_terminal_data_with_timeout x d)"
  unfolding recv_terminal_data_with_timeout_def by (intro wb_bind wb_ctx) auto

lemma wb_close_terminal [intro, simp]: "well_behaved (close_terminal x tid)"
  by (simp add: close_terminal_def)

section \<open>What the receive loop returns\<close>

text \<open>Messages the loop skips: delivered, decoded, and not a terminal response.\<close>

definition skipped :: "ext \<Rightarrow> nat \<times> bytes result \<Rightarrow> bool" where
  "skipped x m = (case m of (t, Inr raw) \<Rightarrow>
     (case dec_msg x raw of Inr (MTerminalResponse _) \<Rightarrow> False | Inr _ \<Rightarrow> True | Inl _ \<Rightarrow> False)
   | _ \<Rightarrow> False)"

definition arrival :: "nat \<Rightarrow> (nat \<times> bytes result) list \<Rightarrow> nat" where
  "arrival t ms = fold (\<lambda>(s, _) t. max s t) ms t"

lemma arrival_Cons [simp]: "arrival t ((s, r) # ms) = arrival (max s t) ms" "arrival t [] = t"
  by (simp_all add: arrival_def)

lemma arrival_ge: "t \<le> arrival t ms"
proof (induction ms arbitrary: t)
  case (Cons m ms)
  obtain u r where "m = (u, r)" by force
  with Cons [of "max u t"] show ?case by simp
qed simp

lemma recv_loop_skip:
  assumes "inbox w = (t, r) # rest" and "skipped x (t, r)" and "max t (clock w) \<le> d"
  shows "recv_response_loop x (Some d) w =
    recv_response_loop x (Some d) (w\<lparr>clock := max t (clock w), inbox := rest\<rparr>)"
  using assms
  by (subst recv_response_loop.simps)
    (auto simp: ctx_async_def stream_recv_def skipped_def Let_def split: sum.splits message.splits)

lemma recv_loop_skips:
  assumes "list_all (skipped x) junk" and "inbox w = junk @ rest" and "arrival (clock w) junk \<le> d"
  shows "recv_response_loop x (Some d) w =
    recv_response_loop x (Some d) (w\<lparr>clock := arrival (clock w) junk, inbox := rest\<rparr>)"
  using assms
proof (induction junk arbitrary: w)
  case (Cons m junk)
  obtain t r where m: "m = (t, r)" by force
  from Cons.prems(3) m have le: "max t (clock w) \<le> d"
    using arrival_ge [of "max t (clock w)" junk] by simp
  have "recv_response_loop x (Some d) w =
      recv_response_loop x (Some d) (w\<lparr>clock := max t (clock w), inbox := junk @ rest\<rparr>)"
    using Cons.prems m le by (intro recv_loop_skip) auto
  also have "\<dots> = recv_response_loop x (Some d)
      (w\<lparr>clock := arrival (clock w) (m # junk), inbox := rest\<rparr>)"
    using Cons.prems m by (subst Cons.IH) auto
  finally show ?case .
next
  case (Nil w)
  then have "w\<lparr>inbox := rest\<rparr> = w" by (cases w) simp
  then show ?case by simp
qed

lemma recv_loop_hit:
  assumes "inbox w = (t, Ok raw) # rest" and "dec_msg x raw = Ok (MTerminalResponse (Some r))"
    and "max t (clock w) \<le> d"
  shows "recv_response_loop x (Some d) w = (Done (Ok r), w\<lparr>clock := max t (clock w), inbox := rest\<rparr>)"
  using assms by (subst recv_response_loop.simps) (simp add: ctx_async_def stream_recv_def Let_def)

lemma recv_loop_late:
  assumes "case inbox w of [] \<Rightarrow> True | (t, _) # _ \<Rightarrow> d < max t (clock w)"
  shows "recv_response_loop x (Some d) w = (Elapsed, w\<lparr>clock := max (clock w) d\<rparr>)"
  using assms
  by (subst recv_response_loop.simps)
    (auto simp: ctx_async_def stream_recv_def Let_def split: list.splits)

lemma recv_response_hit:
  assumes "list_all (skipped x) junk" and "inbox w = junk @ (t, Ok raw) # rest"
    and "dec_msg x raw = Ok (MTerminalResponse (Some r))"
    and "arrival (clock w) (junk @ [(t, Ok raw)]) \<le> clock w + d"
  shows "recv_terminal_response x d None w =
    (Done (Ok r), w\<lparr>clock := arrival (clock w) (junk @ [(t, Ok raw)]), inbox := rest\<rparr>)"
proof -
  have a: "arrival (clock w) (junk @ [(t, Ok raw)]) = max t (arrival (clock w) junk)"
    by (simp add: arrival_def)
  with assms show ?thesis
    by (simp add: recv_terminal_response_def bind_async_def timeout_def lift_async_def
        recv_loop_skips [where junk = junk] recv_loop_hit)
qed

lemma recv_response_quiet:
  assumes "list_all (skipped x) junk" and "inbox w = junk @ rest"
    and "arrival (clock w) junk \<le> clock w + d"
    and "case rest of [] \<Rightarrow> True | (t, _) # _ \<Rightarrow> clock w + d < t"
  shows "recv_terminal_response x d None w =
    (Done (Err (terminal_response_timeout_error d)), w\<lparr>clock := clock w + d, inbox := rest\<rparr>)"
proof -
  have "recv_response_loop x (Some (clock w + d)) (w\<lparr>clock := arrival (clock w) junk, inbox := rest\<rparr>) =
      (Elapsed, w\<lparr>clock := clock w + d, inbox := rest\<rparr>)"
    using assms(3,4) by (subst recv_loop_late) (auto split: list.splits)
  with assms show ?thesis
    by (simp add: recv_terminal_response_def bind_async_def timeout_def lift_async_def
        recv_loop_skips [where junk = junk])
qed

lemma timeout_error_recognised:
  "is_terminal_response_timeout (cs @ terminal_response_timeout_error d)"
proof -
  have "\<exists>a b. join '': '' (cs @ [p @ q]) = a @ p @ b" for p q
  proof (induction cs)
    case Nil
    show ?case by simp (metis append_Nil)
  next
    case (Cons c cs)
    then obtain a b where "join '': '' (cs @ [p @ q]) = a @ p @ b" by blast
    then have "join '': '' ((c # cs) @ [p @ q]) = (c @ '': '' @ a) @ p @ b"
      by (cases "cs @ [p @ q]") auto
    then show ?case by blast
  qed
  from this [of "''timed out waiting for TerminalResponse after''" "'' '' @ show_secs d @ ''s''"]
  show ?thesis
    unfolding is_terminal_response_timeout_def terminal_response_timeout_error_def err_chain_def
      str_contains_iff by simp
qed

lemma ctx_recv_Done:
  assumes "ctx_async c stream_recv dl w = (Done r, w')"
  shows "\<exists>t q. inbox w = (t, q) # inbox w' \<and> r = with_ctx c q \<and> outbox w' = outbox w"
  using assms
  by (auto simp: ctx_async_def stream_recv_def Let_def split: list.splits option.splits if_splits)

lemma ctx_recv_outbox: "ctx_async c stream_recv dl w = (r, w') \<Longrightarrow> outbox w' = outbox w"
  by (auto simp: ctx_async_def stream_recv_def Let_def split: list.splits option.splits if_splits)

text \<open>The loop sends nothing, and what it returns was in the inbox.\<close>

lemma recv_loop_pure:
  "recv_response_loop x dl w = (r, w') \<Longrightarrow> outbox w' = outbox w \<and>
     (\<forall>q. r = Done (Ok q) \<longrightarrow> (\<exists>t raw. (t, Ok raw) \<in> set (inbox w) \<and>
        dec_msg x raw = Ok (MTerminalResponse (Some q))))"
proof (induction "length (inbox w)" arbitrary: w rule: less_induct)
  case (less w)
  obtain q w1 where q: "ctx_async ''reading terminal response'' stream_recv dl w = (q, w1)" by force
  note out = ctx_recv_outbox [OF q]
  show ?case
  proof (cases q)
    case (Done p)
    obtain t p' where p': "inbox w = (t, p') # inbox w1" "p = with_ctx ''reading terminal response'' p'"
      using ctx_recv_Done [OF q [unfolded Done]] by auto
    show ?thesis
    proof (cases p')
      case (Inl e)
      with less.prems q Done p' out show ?thesis
        by (auto simp: recv_response_loop.simps [of x dl w])
    next
      case (Inr raw)
      show ?thesis
      proof (cases "recv_response_loop x dl w = recv_response_loop x dl w1")
        case True
        with less.prems less.hyps [of w1] p' out show ?thesis by fastforce
      next
        case False
        with less.prems q Done p' Inr out show ?thesis
          by (auto simp: recv_response_loop.simps [of x dl w] bail_def
              split: sum.splits message.splits option.splits)
      qed
    qed
  qed (use less.prems q out in \<open>auto simp: recv_response_loop.simps [of x dl w]\<close>)
qed

lemma recv_terminal_response_pure:
  assumes "recv_terminal_response x d dl w = (r, w')"
  shows "outbox w' = outbox w" and "r = Done (Ok q) \<Longrightarrow> \<exists>t raw. (t, Ok raw) \<in> set (inbox w) \<and>
     dec_msg x raw = Ok (MTerminalResponse (Some q))"
  using assms
  by (auto simp: recv_terminal_response_def bind_async_def timeout_def lift_async_def Let_def
      split: prod.splits outcome.splits option.splits sum.splits if_splits dest!: recv_loop_pure)

lemma send_action_outcome:
  obtains (ok) w' where "ctx_async c (send_action x a) dl w = (Done (Ok ()), w')"
      "sends x w w' [MTerminalAction (Some a)]" "clock w' = clock w" "inbox w' = inbox w"
    | (fail) e w' where "ctx_async c (send_action x a) dl w = (Done (Err (c # e)), w')" "sends x w w' []"
      "clock w' = clock w" "inbox w' = inbox w"
  by (rule send_message_outcome [of x "MTerminalAction (Some a)" dl w])
    (auto simp: ctx_async_def send_action_def intro: ok fail)

section \<open>Properties\<close>

lemma open_terminal_result:
  "\<exists>r w'. open_terminal x rows cols None w = (Done r, w') \<and> clock w' \<le> clock w + OPEN_TERMINAL_TIMEOUT \<and>
     (sends x w w' [MTerminalAction (Some (TOpen 0 rows cols))] \<or> sends x w w' [] \<and> \<not> is_ok r) \<and>
     (\<forall>info. r = Ok info \<longrightarrow> (\<exists>t raw op. (t, Ok raw) \<in> set (inbox w) \<and>
        dec_msg x raw = Ok (MTerminalResponse (Some (ROpened op))) \<and> op_success op \<and>
        info = \<lparr>terminal_id = op_terminal_id op, pid = op_pid op, service_id = op_service_id op\<rparr>))"
proof (rule send_action_outcome [of "''sending OpenTerminal''" x "TOpen 0 rows cols" None w])
  fix e w1
  assume "ctx_async ''sending OpenTerminal'' (send_action x (TOpen 0 rows cols)) None w =
      (Done (Err (''sending OpenTerminal'' # e)), w1)" "sends x w w1 []" "clock w1 = clock w"
  then show ?thesis by (simp add: open_terminal_def bind_async_def)
next
  fix w1
  assume w1: "ctx_async ''sending OpenTerminal'' (send_action x (TOpen 0 rows cols)) None w = (Done (Ok ()), w1)"
    "sends x w w1 [MTerminalAction (Some (TOpen 0 rows cols))]" "clock w1 = clock w" "inbox w1 = inbox w"
  obtain q w2 where q: "timeout OPEN_TERMINAL_TIMEOUT (recv_terminal_response x TERMINAL_RESPONSE_TIMEOUT) None w1 =
      (Done (Ok q), w2)" "clock w2 \<le> clock w1 + OPEN_TERMINAL_TIMEOUT"
    using timeout_ends [OF wb_timely [OF wb_recv_terminal_response]] by metis
  have "outbox w2 = outbox w1" and hit: "q = Some (Ok p) \<Longrightarrow> \<exists>t raw. (t, Ok raw) \<in> set (inbox w1) \<and>
      dec_msg x raw = Ok (MTerminalResponse (Some p))" for p
    using q(1) recv_terminal_response_pure [of x TERMINAL_RESPONSE_TIMEOUT "Some (clock w1 + OPEN_TERMINAL_TIMEOUT)" w1]
    by (auto simp: timeout_def Let_def split: prod.splits outcome.splits)
  then have "sends x w w2 [MTerminalAction (Some (TOpen 0 rows cols))]" using w1 by (simp add: sends_def)
  moreover obtain r where "open_terminal x rows cols None w = (Done r, w2)"
    and r: "\<And>info. r = Ok info \<Longrightarrow> \<exists>op. q = Some (Ok (ROpened op)) \<and> terminal_info_from_opened op = Ok info"
  proof (cases "\<exists>op. q = Some (Ok (ROpened op))")
    case True
    then show ?thesis using w1 q that
      by (auto simp: open_terminal_def bind_async_def lift_async_def)
  next
    case False
    then have "\<exists>e. open_terminal x rows cols None w = (Done (Err e), w2)" using w1 q
      by (cases q; cases "the q")
        (auto simp: open_terminal_def bind_async_def lift_async_def bail_def split: terminal_response.splits)
    then show ?thesis using that by auto
  qed
  ultimately show ?thesis
    using q(2) w1 hit by (fastforce simp: terminal_info_from_opened_def split: if_splits)
qed

text \<open>The witnesses run on a peer that answers with a test delay and then opens terminal 3.\<close>

definition opened3 :: TerminalOpened where
  "opened3 = \<lparr>op_terminal_id = 3, op_success = True, op_message = [], op_pid = 77, op_service_id = ''ts''\<rparr>"

definition demo_ext :: ext where
  "demo_ext = table_ext [([1], MTerminalResponse (Some (ROpened opened3))), ([2], MOther),
     ([3], MTerminalResponse (Some (RData 3 [104, 105] False))),
     ([4], MTerminalResponse (Some (RClosed 3 0)))]"

lemma demo_decodes:
  "dec_msg demo_ext [1] = Ok (MTerminalResponse (Some (ROpened opened3)))"
  "dec_msg demo_ext [2] = Ok MOther"
  "dec_msg demo_ext [3] = Ok (MTerminalResponse (Some (RData 3 [104, 105] False)))"
  "dec_msg demo_ext [4] = Ok (MTerminalResponse (Some (RClosed 3 0)))"
  by (simp_all add: demo_ext_def table_ext_def)

text \<open>
  C30. Waiting for a terminal response. Whatever other messages arrive first (video frames, test
  delays, heartbeats), \<^verbatim>\<open>recv_terminal_response\<close> skips them and returns the first terminal response
  that arrives within the timeout, leaving what comes after it unread; if none arrives in time it
  fails at exactly the deadline, with an error that \<^verbatim>\<open>is_terminal_response_timeout\<close> recognises
  under any contexts added to it.
\<close>

theorem recv_terminal_response_spec:
  assumes "list_all (skipped x) junk" and "inbox w = junk @ rest"
    and "arrival (clock w) junk \<le> clock w + d"
  shows "(\<forall>t raw r later. rest = (t, Ok raw) # later \<longrightarrow> dec_msg x raw = Ok (MTerminalResponse (Some r)) \<longrightarrow>
        t \<le> clock w + d \<longrightarrow>
        (\<exists>w'. recv_terminal_response x d None w = (Done (Ok r), w') \<and> inbox w' = later \<and>
           clock w' = max t (arrival (clock w) junk))) \<and>
     ((case rest of [] \<Rightarrow> True | (t, _) # _ \<Rightarrow> clock w + d < t) \<longrightarrow>
        (\<exists>e w'. recv_terminal_response x d None w = (Done (Err e), w') \<and> clock w' = clock w + d \<and>
           inbox w' = rest \<and> (\<forall>cs. is_terminal_response_timeout (cs @ e))))"
proof (intro conjI allI impI)
  fix t raw r later
  assume "rest = (t, Ok raw) # later" "dec_msg x raw = Ok (MTerminalResponse (Some r))" "t \<le> clock w + d"
  with assms recv_response_hit [of x junk w t raw later r d]
  show "\<exists>w'. recv_terminal_response x d None w = (Done (Ok r), w') \<and> inbox w' = later \<and>
      clock w' = max t (arrival (clock w) junk)"
    by (simp add: arrival_def)
next
  assume "case rest of [] \<Rightarrow> True | (t, _) # _ \<Rightarrow> clock w + d < t"
  with assms recv_response_quiet [of x junk w rest d] timeout_error_recognised [of _ d]
  show "\<exists>e w'. recv_terminal_response x d None w = (Done (Err e), w') \<and> clock w' = clock w + d \<and>
      inbox w' = rest \<and> (\<forall>cs. is_terminal_response_timeout (cs @ e))"
    by simp
qed

theorem recv_terminal_response_spec_witness:
  "(\<exists>w'. recv_terminal_response demo_ext 100 None (net_start [(5, Ok [2]), (20, Ok [1]), (30, Ok [3])]) =
      (Done (Ok (ROpened opened3)), w') \<and> inbox w' = [(30, Ok [3])] \<and> clock w' = 20) \<and>
   (\<exists>e w'. recv_terminal_response demo_ext 100 None (net_start [(5, Ok [2]), (200, Ok [1])]) =
      (Done (Err e), w') \<and> clock w' = 100)"
  using recv_terminal_response_spec [of demo_ext "[(5, Ok [2])]"
      "net_start [(5, Ok [2]), (20, Ok [1]), (30, Ok [3])]" "[(20, Ok [1]), (30, Ok [3])]" 100]
    recv_terminal_response_spec [of demo_ext "[(5, Ok [2])]"
      "net_start [(5, Ok [2]), (200, Ok [1])]" "[(200, Ok [1])]" 100]
  by (simp add: skipped_def demo_decodes) blast

text \<open>
  C31. Opening a terminal. \<^verbatim>\<open>open_terminal\<close> always returns, within 15 seconds, and sends one
  \<^verbatim>\<open>OpenTerminal\<close> with the given size (nothing when that send itself fails, which is an error);
  when it succeeds, the terminal it returns is one the peer reported as opened.
\<close>

theorem open_terminal_spec:
  "\<exists>r w'. open_terminal x rows cols None w = (Done r, w') \<and> clock w' \<le> clock w + 15000 \<and>
     (sends x w w' [MTerminalAction (Some (TOpen 0 rows cols))] \<or> sends x w w' [] \<and> \<not> is_ok r) \<and>
     (\<forall>info. r = Ok info \<longrightarrow> (\<exists>t raw op. (t, Ok raw) \<in> set (inbox w) \<and>
        dec_msg x raw = Ok (MTerminalResponse (Some (ROpened op))) \<and> op_success op \<and>
        info = \<lparr>terminal_id = op_terminal_id op, pid = op_pid op, service_id = op_service_id op\<rparr>))"
  using open_terminal_result [of x rows cols w] by (simp add: OPEN_TERMINAL_TIMEOUT_def)

theorem open_terminal_spec_witness:
  "\<exists>r w'. open_terminal demo_ext 24 80 None (net_start [(20, Ok [1])]) = (Done r, w') \<and> clock w' \<le> 15000"
  using open_terminal_spec [of demo_ext 24 80 "net_start [(20, Ok [1])]"] by auto

text \<open>
  Terminal data. What \<^verbatim>\<open>send_terminal_data\<close> puts on the wire, compressed exactly when it is
  longer than 1024 bytes, is read back by \<^verbatim>\<open>recv_terminal_data\<close>'s decoding as the same bytes.
\<close>

theorem terminal_data_roundtrip:
  assumes "zstd_laws x" and "send_terminal_data x tid d None w = (Done (Ok ()), w')"
  shows "\<exists>payload. sends x w w' [MTerminalAction (Some (TData tid payload (1024 < length d)))] \<and>
     terminal_event x (RData tid payload (1024 < length d)) = Ok (EvData d)"
proof -
  obtain z where z: "zstd_encode x d = Ok z" "zstd_decode x z = Ok d"
    using assms(1) by (meson zstd_laws_def)
  let ?p = "if 1024 < length d then z else d"
  have send: "ctx_async ''sending TerminalData'' (send_action x (TData tid ?p (1024 < length d))) None w =
      (Done (Ok ()), w')"
    using assms(2) z
    by (auto simp: send_terminal_data_def bind_async_def lift_async_def COMPRESS_THRESHOLD_def
        split: if_splits)
  have "sends x w w' [MTerminalAction (Some (TData tid ?p (1024 < length d)))]"
  proof (cases rule: send_action_outcome [of "''sending TerminalData''" x "TData tid ?p (1024 < length d)" None w])
    case (ok w1)
    with send show ?thesis by simp
  next
    case (fail e w1)
    with send show ?thesis by simp
  qed
  with z show ?thesis by (intro exI [of _ ?p]) (simp add: terminal_event_def)
qed

theorem terminal_data_roundtrip_witness:
  "\<exists>payload w'. sends demo_ext (net_start []) w' [MTerminalAction (Some (TData 3 payload (1024 < length [104 :: u8])))] \<and>
     terminal_event demo_ext (RData 3 payload (1024 < length [104 :: u8])) = Ok (EvData [104])"
proof -
  let ?w = "snd (send_terminal_data demo_ext 3 [104] None (net_start []))"
  have "send_terminal_data demo_ext 3 [104] None (net_start []) = (Done (Ok ()), ?w)"
    by (simp add: send_terminal_data_def bind_async_def lift_async_def COMPRESS_THRESHOLD_def
        ctx_async_def send_action_def send_message_def stream_send_def)
  from terminal_data_roundtrip [OF _ this] show ?thesis
    by (metis demo_ext_def table_ext_zstd)
qed

text \<open>
  An idle terminal session ends after 15 seconds. When the peer prints nothing for 15 seconds,
  \<^verbatim>\<open>recv_terminal_data\<close> fails, and the loop of \<^verbatim>\<open>run_terminal_session\<close> ends with that error and
  without sending \<^verbatim>\<open>CloseTerminal\<close>, however long the user keeps the session open.
\<close>

theorem idle_terminal_session_fails:
  assumes "list_all (skipped x) junk" and "inbox w = junk @ rest"
    and "arrival (clock w) junk \<le> clock w + 15000"
    and "case rest of [] \<Rightarrow> True | (t, _) # _ \<Rightarrow> clock w + 15000 < t"
  shows "\<exists>e w'. recv_terminal_data x None w = (Done (Err e), w') \<and> clock w' = clock w + 15000 \<and>
     terminal_loop x tid (TermResult (Err e) # evs) out w' =
       (Some (Err (''receiving terminal output'' # e)), out, w')"
  using recv_response_quiet [of x junk w rest 15000] assms
  by (simp add: recv_terminal_data_def recv_terminal_data_with_timeout_def TERMINAL_RESPONSE_TIMEOUT_def
      ctx_async_def bind_async_def)

theorem idle_terminal_session_fails_witness:
  "\<exists>e w'. recv_terminal_data demo_ext None (net_start [(5, Ok [2])]) = (Done (Err e), w') \<and> clock w' = 15000 \<and>
     terminal_loop demo_ext 3 (TermResult (Err e) # []) [] w' =
       (Some (Err (''receiving terminal output'' # e)), [], w')"
  using idle_terminal_session_fails [of demo_ext "[(5, Ok [2])]" "net_start [(5, Ok [2])]" "[]" 3 "[]" "[]"]
  by (simp add: skipped_def demo_decodes)

end
