(* ===== verification/Json.thy ===== *)
theory Json
  imports Rust_Strings "HOL-Library.AList"
begin

text \<open>
  The JSON values of \<^verbatim>\<open>serde_json\<close> the program builds and inspects. Numbers are the
  integers the program uses. An object is the list of its members in the order the
  \<^verbatim>\<open>json!\<close> literal of the source gives them; the program reads members by name only.
\<close>

datatype json =
    JNull
  | JBool bool
  | JNum int
  | JStr string
  | JArr "json list"
  | JObj "(string \<times> json) list"

definition json_get :: "json \<Rightarrow> string \<Rightarrow> json option" where
  "json_get v k = (case v of JObj kvs \<Rightarrow> map_of kvs k | _ \<Rightarrow> None)"

definition as_str :: "json \<Rightarrow> string option" where
  "as_str v = (case v of JStr s \<Rightarrow> Some s | _ \<Rightarrow> None)"

definition as_bool :: "json \<Rightarrow> bool option" where
  "as_bool v = (case v of JBool b \<Rightarrow> Some b | _ \<Rightarrow> None)"

definition as_i64 :: "json \<Rightarrow> int option" where
  "as_i64 v = (case v of JNum i \<Rightarrow> if - (2 ^ 63) \<le> i \<and> i < 2 ^ 63 then Some i else None | _ \<Rightarrow> None)"

definition as_u64 :: "json \<Rightarrow> nat option" where
  "as_u64 v = (case v of JNum i \<Rightarrow> if 0 \<le> i \<and> i < 2 ^ 64 then Some (nat i) else None | _ \<Rightarrow> None)"

definition as_array :: "json \<Rightarrow> json list option" where
  "as_array v = (case v of JArr vs \<Rightarrow> Some vs | _ \<Rightarrow> None)"

text \<open>\<^verbatim>\<open>v["k"]\<close>: null when there is no such member.\<close>

definition json_index :: "json \<Rightarrow> string \<Rightarrow> json" where
  "json_index v k = (case json_get v k of Some x \<Rightarrow> x | None \<Rightarrow> JNull)"

text \<open>\<^verbatim>\<open>if let Some(object) = v.as_object_mut() { object.insert(k, x) }\<close>.\<close>

definition json_insert :: "string \<Rightarrow> json \<Rightarrow> json \<Rightarrow> json" where
  "json_insert k x v = (case v of JObj kvs \<Rightarrow> JObj (AList.update k x kvs) | _ \<Rightarrow> v)"

text \<open>\<^verbatim>\<open>serde\<close>'s rendering of options, machine integers and lists.\<close>

definition json_option :: "('a \<Rightarrow> json) \<Rightarrow> 'a option \<Rightarrow> json" where
  "json_option f x = (case x of None \<Rightarrow> JNull | Some v \<Rightarrow> f v)"

definition json_i32 :: "i32 \<Rightarrow> json" where
  "json_i32 w = JNum (sint w)"

definition json_unsigned :: "'a::len word \<Rightarrow> json" where
  "json_unsigned w = JNum (uint w)"

definition json_nat :: "nat \<Rightarrow> json" where
  "json_nat n = JNum (int n)"

lemma json_get_JObj [simp]: "json_get (JObj kvs) k = map_of kvs k"
  by (simp add: json_get_def)

lemma json_insert_JObj [simp]: "json_insert k x (JObj kvs) = JObj (AList.update k x kvs)"
  by (simp add: json_insert_def)

lemma as_simps [simp]:
  "as_str (JStr s) = Some s" "as_bool (JBool b) = Some b" "as_array (JArr vs) = Some vs"
  by (simp_all add: as_str_def as_bool_def as_array_def)

lemma as_i64_i32 [simp]: "as_i64 (json_i32 w) = Some (sint w)"
  using sint_greater_eq [of w] sint_less [of w] by (simp add: as_i64_def json_i32_def)

lemma as_u64_unsigned: "LENGTH('a) \<le> 64 \<Longrightarrow> as_u64 (json_unsigned (w :: 'a::len word)) = Some (unat w)"
proof -
  assume "LENGTH('a) \<le> 64"
  then have "uint w < 2 ^ 64"
    using uint_bounded [of w] power_increasing [of "LENGTH('a)" 64 "2 :: int"] by linarith
  then show ?thesis by (simp add: as_u64_def json_unsigned_def)
qed

end
