(* ===== verification/Session.thy ===== *)
theory Session
  imports Json
begin

text \<open>
  \<^verbatim>\<open>src/session.rs\<close> and the message types of \<^verbatim>\<open>src/protocol.rs\<close>: the session state the
  daemon keeps, and \<^verbatim>\<open>Session::dispatch\<close>, which translates a command of the CLI into a
  response and the protocol messages for the peer. One definition for each arm of the match.
\<close>

section \<open>Protocol types\<close>

record ConnectionConfig =
  peer_id :: string
  password :: "string option"
  server :: "string option"

datatype VideoCodecFormat = VP9 | VP8 | AV1 | H264 | H265

record LoginRequest =
  lr_username :: string
  lr_password :: bytes
  lr_my_id :: string
  lr_my_name :: string
  lr_video_codec_format :: VideoCodecFormat

record DisplayInfo =
  d_x :: i32
  d_y :: i32
  d_width :: i32
  d_height :: i32
  d_name :: string
  d_online :: bool
  d_cursor_embedded :: bool

record PeerInfo =
  pi_username :: string
  pi_hostname :: string
  pi_displays :: "DisplayInfo list"

record LoginResponse =
  lresp_success :: bool
  lresp_error :: "string option"
  lresp_peer_info :: "PeerInfo option"

record KeyModifiers =
  shift :: bool
  ctrl :: bool
  alt :: bool
  meta :: bool

definition no_modifiers :: KeyModifiers where
  "no_modifiers = \<lparr>shift = False, ctrl = False, alt = False, meta = False\<rparr>"

record KeyEvent =
  key_code :: "u32 option"
  characters :: "string option"
  down :: bool
  modifiers :: KeyModifiers

record MouseEvent =
  m_x :: i32
  m_y :: i32
  m_mask :: u32
  is_move :: bool

definition BUTTON_LEFT :: u32 where "BUTTON_LEFT = 1"
definition BUTTON_RIGHT :: u32 where "BUTTON_RIGHT = 2"
definition BUTTON_MIDDLE :: u32 where "BUTTON_MIDDLE = 4"
definition SCROLL_UP :: u32 where "SCROLL_UP = 8"
definition SCROLL_DOWN :: u32 where "SCROLL_DOWN = 16"

definition button_mask :: "string \<Rightarrow> u32" where
  "button_mask button =
     (if button = ''right'' then BUTTON_RIGHT
      else if button = ''middle'' then BUTTON_MIDDLE
      else BUTTON_LEFT)"

record VideoFrame =
  vf_width :: u32
  vf_height :: u32
  vf_data :: bytes
  vf_is_keyframe :: bool
  vf_codec :: VideoCodecFormat

datatype ProtocolMessage =
    PLoginRequest LoginRequest
  | PLoginResponse LoginResponse
  | PKeyEvent KeyEvent
  | PMouseEvent MouseEvent
  | PVideoFrame VideoFrame
  | PDisconnect

text \<open>\<open>to_vec\<close> and \<open>from_slice\<close> are those of \<^verbatim>\<open>serde_json\<close> with the derived implementations.\<close>

definition protocol_encode :: "(ProtocolMessage \<Rightarrow> bytes result) \<Rightarrow> ProtocolMessage \<Rightarrow> bytes result" where
  "protocol_encode to_vec m = bind_result (to_vec m) (\<lambda>bs. Ok bs)"

definition protocol_decode :: "(bytes \<Rightarrow> ProtocolMessage result) \<Rightarrow> bytes \<Rightarrow> ProtocolMessage result" where
  "protocol_decode from_slice bs = bind_result (from_slice bs) (\<lambda>m. Ok m)"

section \<open>Session types\<close>

datatype ConnectionState = Disconnected | Connecting | Connected

record PeerInfoState =
  ps_peer_id :: string
  ps_username :: string
  ps_hostname :: string
  ps_displays :: "DisplayInfo list"

record Session =
  state :: ConnectionState
  config :: "ConnectionConfig option"
  peer_info :: "PeerInfoState option"

record CaptureRegion =
  r_x :: u32
  r_y :: u32
  r_w :: u32
  r_h :: u32

datatype SessionCommand =
    Connect string "string option" "string option"
  | Disconnect
  | Shell
  | Exec string "u64 option"
  | Push string string
  | ClipboardGet
  | ClipboardSet string
  | Capture string "string option" "u8 option" "CaptureRegion option" "i32 option" "u64 option"
  | Type string
  | Key string
  | Click i32 i32 string bool
  | Drag i32 i32 i32 i32 string
  | Scroll i32 i32 i32
  | Move i32 i32
  | Status
  | Displays

record SessionResponse =
  success :: bool
  message :: "string option"
  data :: "json option"

definition resp_ok :: "string \<Rightarrow> SessionResponse" where
  "resp_ok m = \<lparr>success = True, message = Some m, data = None\<rparr>"

definition resp_ok_with_data :: "string \<Rightarrow> json \<Rightarrow> SessionResponse" where
  "resp_ok_with_data m d = \<lparr>success = True, message = Some m, data = Some d\<rparr>"

definition resp_error :: "string \<Rightarrow> SessionResponse" where
  "resp_error m = \<lparr>success = False, message = Some m, data = None\<rparr>"

definition session_new :: Session where
  "session_new = \<lparr>state = Disconnected, config = None, peer_info = None\<rparr>"

section \<open>Dispatch\<close>

type_synonym dispatch_op = "(Session, SessionResponse \<times> ProtocolMessage list) op"

definition require_connected :: "(Session, unit) op" where
  "require_connected s =
     (if state s \<noteq> Connected
      then (bail ''No active session. Run `rustdesk-cli connect` first.'', s)
      else (Ok (), s))"

definition dispatch_connect :: "string \<Rightarrow> string option \<Rightarrow> string option \<Rightarrow> dispatch_op" where
  "dispatch_connect pid pw srv s =
     (if state s = Connected then (Ok (resp_error ''Already connected'', []), s)
      else
        let s = s\<lparr>state := Connecting\<rparr>;
            s = s\<lparr>config := Some \<lparr>peer_id = pid, password = pw, server = srv\<rparr>\<rparr>;
            s = s\<lparr>state := Connected\<rparr> in
        (Ok (resp_ok (''Connected to '' @ pid), []), s))"

definition dispatch_disconnect :: dispatch_op where
  "dispatch_disconnect =
     bind_op require_connected (\<lambda>_ s.
       let pid = (case config s of Some c \<Rightarrow> peer_id c | None \<Rightarrow> []);
           s = s\<lparr>state := Disconnected, config := None, peer_info := None\<rparr> in
       (Ok (resp_ok (''Disconnected from '' @ pid), [PDisconnect]), s))"

text \<open>The other arms check the connection and leave the session as it is.\<close>

definition reply :: "SessionResponse \<Rightarrow> ProtocolMessage list \<Rightarrow> dispatch_op" where
  "reply r ms = bind_op require_connected (\<lambda>_. return_op (r, ms))"

definition dispatch_shell :: dispatch_op where
  "dispatch_shell =
     reply (resp_ok_with_data ''Opened remote shell'' (JObj [(''mode'', JStr ''interactive'')])) []"

definition dispatch_exec :: "string \<Rightarrow> dispatch_op" where
  "dispatch_exec cmd =
     reply (resp_ok_with_data (''Executed `'' @ cmd @ ''`'')
       (JObj [(''command'', JStr cmd), (''stdout'', JStr ''stub exec output''),
              (''stderr'', JStr ''''), (''exit_code'', JNum 0)])) []"

definition dispatch_push :: "string \<Rightarrow> string \<Rightarrow> dispatch_op" where
  "dispatch_push local_path remote_path =
     reply (resp_ok_with_data (''Pushed `'' @ local_path @ ''` to `'' @ remote_path @ ''`'')
       (JObj [(''local_path'', JStr local_path), (''remote_path'', JStr remote_path)])) []"

definition dispatch_clipboard_get :: dispatch_op where
  "dispatch_clipboard_get =
     reply (resp_ok_with_data ''Clipboard text retrieved''
       (JObj [(''text'', JStr ''stub clipboard text'')])) []"

definition dispatch_clipboard_set :: "string \<Rightarrow> dispatch_op" where
  "dispatch_clipboard_set text =
     reply (resp_ok_with_data ''Clipboard text updated''
       (JObj [(''chars'', json_nat (chars_count text)), (''redacted'', JBool True)])) []"

definition dispatch_capture :: "string \<Rightarrow> dispatch_op" where
  "dispatch_capture output = reply (resp_ok (''Screenshot saved to '' @ output)) []"

definition key_event :: "string \<Rightarrow> bool \<Rightarrow> ProtocolMessage" where
  "key_event chars dn =
     PKeyEvent \<lparr>key_code = None, characters = Some chars, down = dn, modifiers = no_modifiers\<rparr>"

definition mouse_event :: "i32 \<Rightarrow> i32 \<Rightarrow> u32 \<Rightarrow> bool \<Rightarrow> ProtocolMessage" where
  "mouse_event x y msk mv = PMouseEvent \<lparr>m_x = x, m_y = y, m_mask = msk, is_move = mv\<rparr>"

definition type_messages :: "string \<Rightarrow> ProtocolMessage list" where
  "type_messages text = concat (map (\<lambda>ch. [key_event ch True, key_event ch False]) (utf8_chars text))"

definition dispatch_type :: "string \<Rightarrow> dispatch_op" where
  "dispatch_type text =
     reply (resp_ok (''Typed '' @ show_nat (length text) @ '' characters'')) (type_messages text)"

definition dispatch_key :: "string \<Rightarrow> dispatch_op" where
  "dispatch_key key = reply (resp_ok ''Key sent'') [key_event key True, key_event key False]"

definition show_point :: "i32 \<Rightarrow> i32 \<Rightarrow> string" where
  "show_point x y = ''('' @ show_i32 x @ '', '' @ show_i32 y @ '')''"

definition click_messages :: "i32 \<Rightarrow> i32 \<Rightarrow> string \<Rightarrow> bool \<Rightarrow> ProtocolMessage list" where
  "click_messages x y button dbl =
     (let click_pair = [mouse_event x y (button_mask button) False, mouse_event x y 0 False] in
      if dbl then click_pair @ click_pair else click_pair)"

definition dispatch_click :: "i32 \<Rightarrow> i32 \<Rightarrow> string \<Rightarrow> bool \<Rightarrow> dispatch_op" where
  "dispatch_click x y button dbl =
     reply (resp_ok (button @ '' click at '' @ show_point x y)) (click_messages x y button dbl)"

definition dispatch_drag :: "i32 \<Rightarrow> i32 \<Rightarrow> i32 \<Rightarrow> i32 \<Rightarrow> string \<Rightarrow> dispatch_op" where
  "dispatch_drag x y x2 y2 button =
     reply (resp_ok (button @ '' drag from '' @ show_point x y @ '' to '' @ show_point x2 y2))
       [mouse_event x y (button_mask button) False,
        mouse_event x2 y2 (button_mask button) True,
        mouse_event x2 y2 0 False]"

text \<open>
  \<^verbatim>\<open>0..delta.abs()\<close>: at the smallest \<^verbatim>\<open>i32\<close>, \<^verbatim>\<open>abs\<close> overflows. A release build wraps,
  which is modelled here (the range is then empty); a build with overflow checks panics.
\<close>

definition i32_abs :: "i32 \<Rightarrow> i32" where
  "i32_abs w = (if sint w < 0 then - w else w)"

definition scroll_messages :: "i32 \<Rightarrow> i32 \<Rightarrow> i32 \<Rightarrow> ProtocolMessage list" where
  "scroll_messages x y delta =
     (let msk = (if sint delta \<ge> 0 then SCROLL_UP else SCROLL_DOWN) in
      concat (replicate (nat (sint (i32_abs delta)))
        [mouse_event x y msk False, mouse_event x y 0 False]))"

definition dispatch_scroll :: "i32 \<Rightarrow> i32 \<Rightarrow> i32 \<Rightarrow> dispatch_op" where
  "dispatch_scroll x y delta =
     reply (resp_ok (''Scrolled '' @ show_i32 delta @ '' at '' @ show_point x y))
       (scroll_messages x y delta)"

definition dispatch_move :: "i32 \<Rightarrow> i32 \<Rightarrow> dispatch_op" where
  "dispatch_move x y = reply (resp_ok (''Moved to '' @ show_point x y)) [mouse_event x y 0 True]"

definition json_state :: "ConnectionState \<Rightarrow> json" where
  "json_state st = JStr (case st of Disconnected \<Rightarrow> ''Disconnected''
     | Connecting \<Rightarrow> ''Connecting'' | Connected \<Rightarrow> ''Connected'')"

definition json_display :: "DisplayInfo \<Rightarrow> (string \<times> json) list" where
  "json_display d =
     [(''x'', json_i32 (d_x d)), (''y'', json_i32 (d_y d)), (''width'', json_i32 (d_width d)),
      (''height'', json_i32 (d_height d)), (''name'', JStr (d_name d)),
      (''online'', JBool (d_online d)), (''cursor_embedded'', JBool (d_cursor_embedded d))]"

definition json_peer_info :: "PeerInfoState \<Rightarrow> json" where
  "json_peer_info p =
     JObj [(''peer_id'', JStr (ps_peer_id p)), (''username'', JStr (ps_username p)),
           (''hostname'', JStr (ps_hostname p)),
           (''displays'', JArr (map (\<lambda>d. JObj (json_display d)) (ps_displays p)))]"

definition dispatch_status :: dispatch_op where
  "dispatch_status s =
     (Ok (resp_ok_with_data ''Status''
        (JObj [(''state'', json_state (state s)),
               (''peer_id'', json_option (\<lambda>c. JStr (peer_id c)) (config s)),
               (''peer_info'', json_option json_peer_info (peer_info s))]), []), s)"

definition dispatch_displays :: dispatch_op where
  "dispatch_displays =
     bind_op require_connected (\<lambda>_ s.
       let ds = (case peer_info s of Some pi \<Rightarrow> ps_displays pi | None \<Rightarrow> []);
           displays = map (\<lambda>(idx, d). JObj ((''idx'', json_nat idx) # json_display d))
             (List.enumerate 0 ds) in
       (Ok (resp_ok_with_data (show_nat (length displays) @ '' display(s)'')
          (JObj [(''displays'', JArr displays)]), []), s))"

definition dispatch :: "SessionCommand \<Rightarrow> dispatch_op" where
  "dispatch cmd =
     (case cmd of
        Connect pid pw srv \<Rightarrow> dispatch_connect pid pw srv
      | Disconnect \<Rightarrow> dispatch_disconnect
      | Shell \<Rightarrow> dispatch_shell
      | Exec c _ \<Rightarrow> dispatch_exec c
      | Push l r \<Rightarrow> dispatch_push l r
      | ClipboardGet \<Rightarrow> dispatch_clipboard_get
      | ClipboardSet t \<Rightarrow> dispatch_clipboard_set t
      | Capture out _ _ _ _ _ \<Rightarrow> dispatch_capture out
      | Type t \<Rightarrow> dispatch_type t
      | Key k \<Rightarrow> dispatch_key k
      | Click x y b dbl \<Rightarrow> dispatch_click x y b dbl
      | Drag x y x2 y2 b \<Rightarrow> dispatch_drag x y x2 y2 b
      | Scroll x y delta \<Rightarrow> dispatch_scroll x y delta
      | Move x y \<Rightarrow> dispatch_move x y
      | Status \<Rightarrow> dispatch_status
      | Displays \<Rightarrow> dispatch_displays)"

section \<open>Lemmas\<close>

lemmas resp_defs = resp_ok_def resp_ok_with_data_def resp_error_def

lemmas reply_arm_defs =
  dispatch_shell_def dispatch_exec_def dispatch_push_def dispatch_clipboard_get_def
  dispatch_clipboard_set_def dispatch_capture_def dispatch_type_def dispatch_key_def
  dispatch_click_def dispatch_drag_def dispatch_scroll_def dispatch_move_def

definition no_session :: err where
  "no_session = [''No active session. Run `rustdesk-cli connect` first.'']"

lemma require_connected_simps [session_simps]:
  "state s = Connected \<Longrightarrow> require_connected s = (Ok (), s)"
  "state s \<noteq> Connected \<Longrightarrow> require_connected s = (Err no_session, s)"
  by (simp_all add: require_connected_def bail_def no_session_def)

lemma reply_simps [session_simps]:
  "state s = Connected \<Longrightarrow> reply r ms s = (Ok (r, ms), s)"
  "state s \<noteq> Connected \<Longrightarrow> reply r ms s = (Err no_session, s)"
  by (simp_all add: reply_def bind_op_def session_simps)

lemma dispatch_disconnect_simps [session_simps]:
  "state s = Connected \<Longrightarrow> dispatch_disconnect s =
     (Ok (resp_ok (''Disconnected from '' @ (case config s of Some c \<Rightarrow> peer_id c | None \<Rightarrow> [])),
          [PDisconnect]), s\<lparr>state := Disconnected, config := None, peer_info := None\<rparr>)"
  "state s \<noteq> Connected \<Longrightarrow> dispatch_disconnect s = (Err no_session, s)"
  by (simp_all add: dispatch_disconnect_def bind_op_def session_simps)

lemma dispatch_displays_simps [session_simps]:
  "state s \<noteq> Connected \<Longrightarrow> dispatch_displays s = (Err no_session, s)"
  "snd (dispatch_displays s) = s"
  by (cases "state s = Connected"; simp add: dispatch_displays_def bind_op_def session_simps Let_def)+

text \<open>Which commands need a connection, and which may change the session.\<close>

fun needs_connection :: "SessionCommand \<Rightarrow> bool" where
  "needs_connection (Connect _ _ _) = False"
| "needs_connection Status = False"
| "needs_connection _ = True"

fun changes_session :: "SessionCommand \<Rightarrow> bool" where
  "changes_session (Connect _ _ _) = True"
| "changes_session Disconnect = True"
| "changes_session _ = False"

lemma dispatch_unconnected:
  "needs_connection cmd \<Longrightarrow> state s \<noteq> Connected \<Longrightarrow> dispatch cmd s = (Err no_session, s)"
  by (cases cmd) (simp_all add: dispatch_def reply_arm_defs session_simps)

lemma dispatch_keeps_session:
  "\<not> changes_session cmd \<Longrightarrow> snd (dispatch cmd s) = s"
  by (cases "state s = Connected"; cases cmd)
    (simp_all add: dispatch_def reply_arm_defs session_simps dispatch_status_def)

section \<open>The session as a state machine\<close>

inductive session_step :: "Session \<Rightarrow> SessionCommand \<Rightarrow> Session \<Rightarrow> bool" where
  "dispatch cmd s = (r, s') \<Longrightarrow> session_step s cmd s'"

text \<open>
  What can become of a session: it is new; the daemon begins it with a configuration and what its peer told at the login
  (\<^verbatim>\<open>run_daemon_inner\<close>); a command is dispatched; a connected session is connected anew, and the peer information is that
  of the new login (\<^verbatim>\<open>reconnect_encrypted_stream\<close>, which the event loop of the daemon calls with a connected session only, see
  the lemma \<open>daemon_session_reachable\<close> of the theory Daemon\_Loop).
\<close>

inductive session_reachable :: "Session \<Rightarrow> bool" where
  start: "session_reachable session_new"
| begun: "session_reachable (session_new\<lparr>state := Connected, config := Some c, peer_info := Some i\<rparr>)"
| step: "session_reachable s \<Longrightarrow> session_step s cmd s' \<Longrightarrow> session_reachable s'"
| again: "session_reachable s \<Longrightarrow> state s = Connected \<Longrightarrow>
    session_reachable (s\<lparr>state := Connected, peer_info := Some i\<rparr>)"

inductive_cases session_stepE: "session_step s cmd s'"

definition session_inv :: "Session \<Rightarrow> bool" where
  "session_inv s \<longleftrightarrow> state s \<noteq> Connecting \<and> (state s = Connected \<longleftrightarrow> config s \<noteq> None) \<and>
     (state s \<noteq> Connected \<longrightarrow> peer_info s = None)"

lemma dispatch_inv: "session_inv s \<Longrightarrow> session_inv (snd (dispatch cmd s))"
proof (cases "changes_session cmd")
  case True
  assume "session_inv s"
  with True show ?thesis
    by (cases cmd; cases "state s = Connected")
      (auto simp: dispatch_def dispatch_connect_def session_simps session_inv_def)
qed (simp add: dispatch_keeps_session)

lemma session_reachable_inv: "session_reachable s \<Longrightarrow> session_inv s"
proof (induction rule: session_reachable.induct)
  case start
  show ?case by (simp add: session_inv_def session_new_def)
next
  case (begun c i)
  show ?case by (simp add: session_inv_def)
next
  case (again s i)
  then show ?case by (simp add: session_inv_def)
next
  case (step s cmd s')
  then show ?case using dispatch_inv [of s cmd] by (auto elim!: session_stepE)
qed

section \<open>Input events leave nothing pressed\<close>

text \<open>
  The keys held down and the button mask on the peer's side after a sequence of events: a key
  event adds or removes its text, a mouse event that is not a move sets the mask.
\<close>

fun held :: "ProtocolMessage \<Rightarrow> string list \<times> u32 \<Rightarrow> string list \<times> u32" where
  "held (PKeyEvent k) (ks, m) =
     (case characters k of None \<Rightarrow> (ks, m)
      | Some c \<Rightarrow> if down k then (c # ks, m) else (remove1 c ks, m))"
| "held (PMouseEvent e) (ks, m) = (ks, if is_move e then m else m_mask e)"
| "held _ km = km"

lemma held_key [simp]:
  "held (key_event c True) (ks, m) = (c # ks, m)" "held (key_event c False) (ks, m) = (remove1 c ks, m)"
  by (simp_all add: key_event_def)

lemma held_mouse [simp]:
  "held (mouse_event x y k mv) (ks, m) = (ks, if mv then m else k)"
  by (simp add: mouse_event_def)

lemma held_typed: "fold held (concat (map (\<lambda>ch. [key_event ch True, key_event ch False]) cs)) (ks, m) = (ks, m)"
  by (induction cs) simp_all

lemma held_scrolled:
  "fold held (concat (replicate n [mouse_event x y k False, mouse_event x y 0 False])) (ks, 0) = (ks, 0)"
  by (induction n) simp_all

lemmas message_defs =
  type_messages_def click_messages_def scroll_messages_def

lemma dispatch_releases:
  assumes "dispatch cmd s = (Ok (r, ms), s')"
  shows "fold held ms ([], 0) = ([], 0)"
proof (cases "state s = Connected")
  case True
  with assms show ?thesis
    by (cases cmd) (auto simp: dispatch_def dispatch_connect_def reply_arm_defs session_simps
        message_defs held_typed held_scrolled Let_def dispatch_displays_def dispatch_status_def bind_op_def)
next
  case False
  with assms show ?thesis
    by (cases cmd) (auto simp: dispatch_def dispatch_connect_def reply_arm_defs session_simps
        dispatch_status_def Let_def)
qed

lemma concat_utf8_chars: "concat (utf8_chars s) = s"
  by (induction s rule: utf8_chars.induct) auto

lemma typed_keys:
  "concat (map (\<lambda>m. case m of PKeyEvent k \<Rightarrow> if down k then the (characters k) else [] | _ \<Rightarrow> [])
     (concat (map (\<lambda>ch. [key_event ch True, key_event ch False]) cs))) = concat cs"
  by (induction cs) (simp_all add: key_event_def)

lemma i32_abs_sint: "sint delta \<noteq> - (2 ^ 31) \<Longrightarrow> sint (i32_abs delta) = \<bar>sint delta\<bar>"
proof -
  assume ne: "sint delta \<noteq> - (2 ^ 31)"
  have "- (2 ^ 31) \<le> sint delta" "sint delta < 2 ^ 31"
    using sint_greater_eq [of delta] sint_less [of delta] by simp_all
  with ne have "signed_take_bit 31 (- sint delta) = - sint delta"
    by (intro signed_take_bit_int_eq_self) simp_all
  then show ?thesis by (simp add: i32_abs_def sint_word_minus)
qed

lemma length_scroll_messages:
  "length (scroll_messages x y delta) = 2 * nat (sint (i32_abs delta))"
  by (simp add: scroll_messages_def length_concat sum_list_replicate)

section \<open>Properties\<close>

text \<open>
  C22. The session invariant. In every session that commands, the start of the daemon and its reconnections can lead to,
  the state is never left at connecting, a configuration is stored exactly while connected, and neither the
  configuration nor what was learnt of the peer outlives the connection.
\<close>

theorem session_invariant:
  "session_reachable s \<Longrightarrow> state s \<noteq> Connecting \<and> (state s = Connected \<longleftrightarrow> config s \<noteq> None) \<and>
     (state s \<noteq> Connected \<longrightarrow> peer_info s = None)"
  by (drule session_reachable_inv) (simp add: session_inv_def)

text \<open>A session of the daemon after a disconnect.\<close>

theorem session_invariant_witness:
  "let s = snd (dispatch Disconnect (session_new\<lparr>state := Connected,
        config := Some \<lparr>peer_id = ''42'', password = None, server = None\<rparr>,
        peer_info := Some \<lparr>ps_peer_id = ''u'', ps_username = ''u'', ps_hostname = ''h'', ps_displays = []\<rparr>\<rparr>)) in
   state s = Disconnected \<and> config s = None \<and> peer_info s = None"
proof -
  let ?b = "session_new\<lparr>state := Connected, config := Some \<lparr>peer_id = ''42'', password = None, server = None\<rparr>,
    peer_info := Some \<lparr>ps_peer_id = ''u'', ps_username = ''u'', ps_hostname = ''h'', ps_displays = []\<rparr>\<rparr>"
  let ?s = "snd (dispatch Disconnect ?b)"
  have "session_reachable ?s"
    by (rule session_reachable.step [OF session_reachable.begun])
      (rule session_step.intros [of _ _ "fst (dispatch Disconnect ?b)"], simp)
  from session_invariant [OF this] have inv: "state ?s \<noteq> Connected \<longrightarrow> config ?s = None \<and> peer_info ?s = None" by auto
  have "state ?s = Disconnected" by (simp add: dispatch_def session_simps)
  with inv show ?thesis unfolding Let_def by (metis ConnectionState.distinct)
qed

text \<open>
  C23. The connection guard. Without a connection every command but connect and status is
  refused with the same error and changes nothing; connected, a second connect is refused
  with an error response; and whatever the state, only connect and disconnect can change the
  session.
\<close>

theorem dispatch_guard:
  "(needs_connection cmd \<longrightarrow> state s \<noteq> Connected \<longrightarrow>
      dispatch cmd s = (Err [''No active session. Run `rustdesk-cli connect` first.''], s)) \<and>
   (state s = Connected \<longrightarrow>
      dispatch (Connect p pw srv) s = (Ok (resp_error ''Already connected'', []), s)) \<and>
   (\<not> changes_session cmd \<longrightarrow> snd (dispatch cmd s) = s)"
  using dispatch_unconnected [of cmd s] dispatch_keeps_session [of cmd s]
  by (simp add: no_session_def dispatch_def dispatch_connect_def)

theorem dispatch_guard_witness:
  "dispatch (Exec ''ls'' None) session_new =
     (Err [''No active session. Run `rustdesk-cli connect` first.''], session_new)"
  using dispatch_guard [of "Exec ''ls'' None" session_new] by (simp add: session_new_def)

text \<open>
  Connect and disconnect are inverse. Connecting an unconnected session stores the peer
  and answers with its name; a disconnect after it tells the peer, answers with the same
  name, and gives back a session with the state, configuration and peer information of a
  new one.
\<close>

theorem connect_disconnect:
  assumes "state s \<noteq> Connected"
  shows "\<exists>s1. dispatch (Connect p pw srv) s = (Ok (resp_ok (''Connected to '' @ p), []), s1) \<and>
     state s1 = Connected \<and> config s1 = Some \<lparr>peer_id = p, password = pw, server = srv\<rparr> \<and>
     dispatch Disconnect s1 = (Ok (resp_ok (''Disconnected from '' @ p), [PDisconnect]), session_new)"
  using assms by (cases s) (simp add: dispatch_def dispatch_connect_def session_simps session_new_def)

theorem connect_disconnect_witness:
  "\<exists>s1. dispatch (Connect ''7'' None None) session_new = (Ok (resp_ok (''Connected to '' @ ''7''), []), s1) \<and>
     state s1 = Connected \<and> config s1 = Some \<lparr>peer_id = ''7'', password = None, server = None\<rparr> \<and>
     dispatch Disconnect s1 = (Ok (resp_ok (''Disconnected from '' @ ''7''), [PDisconnect]), session_new)"
  by (rule connect_disconnect) (simp add: session_new_def)

text \<open>
  C24. Input events leave nothing pressed. The messages any command produces, applied by a
  peer with no key or button held, leave no key and no button held: every key down is
  followed by its key up, every button press by a release, also in double clicks, drags and
  scrolls.
\<close>

theorem input_events_balanced:
  assumes "dispatch cmd s = (Ok (r, ms), s')"
  shows "fold held ms ([], 0) = ([], 0)"
  using assms by (rule dispatch_releases)

theorem input_events_balanced_witness:
  "fold held [mouse_event 1 2 2 False, mouse_event 1 2 0 False, mouse_event 1 2 2 False, mouse_event 1 2 0 False]
     ([], 0) = ([], 0)"
  by (rule input_events_balanced
      [of "Click 1 2 ''right'' True" "session_new\<lparr>state := Connected\<rparr>"
        "resp_ok (''right click at '' @ show_point 1 2)" _ "session_new\<lparr>state := Connected\<rparr>"])
    (simp add: dispatch_def dispatch_click_def session_simps click_messages_def button_mask_def BUTTON_RIGHT_def)

text \<open>
  Typing sends the text. The keys pressed by the messages of a type command, one after
  the other, spell exactly the text, with two messages for each character; the number in the
  answer is the number of bytes of the text, which is larger when the text is not ASCII.
\<close>

theorem type_sends_text:
  assumes "state s = Connected"
  shows "\<exists>ms. dispatch (Type text) s =
       (Ok (resp_ok (''Typed '' @ show_nat (length text) @ '' characters''), ms), s) \<and>
     length ms = 2 * chars_count text \<and>
     concat (map (\<lambda>m. case m of PKeyEvent k \<Rightarrow> if down k then the (characters k) else [] | _ \<Rightarrow> []) ms) = text"
  using assms
  by (simp add: dispatch_def dispatch_type_def session_simps type_messages_def typed_keys
      concat_utf8_chars length_concat o_def sum_list_triv chars_count_def)

theorem type_sends_text_witness:
  "\<exists>ms. dispatch (Type [char_of (195 :: nat), char_of (169 :: nat)]) (session_new\<lparr>state := Connected\<rparr>) =
       (Ok (resp_ok ''Typed 2 characters'', ms), session_new\<lparr>state := Connected\<rparr>) \<and> length ms = 2 * 1"
  using type_sends_text [of "session_new\<lparr>state := Connected\<rparr>" "[char_of (195 :: nat), char_of (169 :: nat)]"]
  by (auto simp: chars_count_def is_utf8_cont_def show_nat_eval simp flip: numeral_2_eq_2)

text \<open>
  Scrolling by \<open>delta\<close> sends \<open>|delta|\<close> wheel events with their releases, upwards for a
  delta of at least zero and downwards below; at the smallest \<^verbatim>\<open>i32\<close> the absolute value wraps
  around and no event is sent, with success reported all the same.
\<close>

theorem scroll_event_count:
  assumes "state s = Connected"
  shows "\<exists>ms. dispatch (Scroll x y delta) s =
       (Ok (resp_ok (''Scrolled '' @ show_i32 delta @ '' at '' @ show_point x y), ms), s) \<and>
     (if sint delta = - (2 ^ 31) then ms = []
      else length ms = 2 * nat \<bar>sint delta\<bar> \<and>
        (\<forall>m\<in>set ms. m = mouse_event x y 0 False \<or>
           m = mouse_event x y (if sint delta < 0 then SCROLL_DOWN else SCROLL_UP) False))"
proof -
  have "scroll_messages x y delta = []" if "sint delta = - (2 ^ 31)"
  proof -
    have "delta = of_int (sint delta)" by simp
    also have "\<dots> = of_int (- (2 ^ 31))" by (simp only: that)
    finally have "delta = of_int (- (2 ^ 31))" .
    then show ?thesis by (simp add: scroll_messages_def i32_abs_def)
  qed
  moreover have "\<forall>m\<in>set (scroll_messages x y delta). m = mouse_event x y 0 False \<or>
      m = mouse_event x y (if sint delta < 0 then SCROLL_DOWN else SCROLL_UP) False"
    by (auto simp: scroll_messages_def Let_def)
  ultimately show ?thesis
    using assms
    by (simp add: dispatch_def dispatch_scroll_def session_simps length_scroll_messages i32_abs_sint)
qed

theorem scroll_event_count_witness:
  "\<exists>ms. dispatch (Scroll 5 6 (- 3)) (session_new\<lparr>state := Connected\<rparr>) =
       (Ok (resp_ok ''Scrolled -3 at (5, 6)'', ms), session_new\<lparr>state := Connected\<rparr>) \<and> length ms = 6"
  using scroll_event_count [of "session_new\<lparr>state := Connected\<rparr>" 5 6 "- 3"]
  by (auto simp: show_i32_def show_int_def show_nat_eval show_point_def)

end
