(* ===== verification/Utf8.thy ===== *)
theory Utf8
  imports Rust_Strings
begin

text \<open>
  \<^verbatim>\<open>String::from_utf8_lossy\<close>: every maximal ill-formed piece of a byte sequence becomes one
  replacement character (the bytes EF BF BD), everything else stays.
\<close>

definition byte_at :: "bytes \<Rightarrow> nat \<Rightarrow> u8" where
  "byte_at bs i = (if i < length bs then bs ! i else 0)"

definition is_cont :: "u8 \<Rightarrow> bool" where
  "is_cont b \<longleftrightarrow> b AND 0xC0 = 0x80"

definition utf8_char_width :: "u8 \<Rightarrow> nat" where
  "utf8_char_width b =
     (if b < 0x80 then 1 else if 0xC2 \<le> b \<and> b \<le> 0xDF then 2
      else if 0xE0 \<le> b \<and> b \<le> 0xEF then 3 else if 0xF0 \<le> b \<and> b \<le> 0xF4 then 4 else 0)"

definition second_ok :: "u8 \<Rightarrow> u8 \<Rightarrow> bool" where
  "second_ok b c =
     (if b = 0xE0 then 0xA0 \<le> c \<and> c \<le> 0xBF
      else if b = 0xED then 0x80 \<le> c \<and> c \<le> 0x9F
      else if b = 0xF0 then 0x90 \<le> c \<and> c \<le> 0xBF
      else if b = 0xF4 then 0x80 \<le> c \<and> c \<le> 0x8F
      else 0x80 \<le> c \<and> c \<le> 0xBF)"

text \<open>The length of the first piece of a non-empty sequence, and whether it is a character.\<close>

definition utf8_piece :: "bytes \<Rightarrow> nat \<times> bool" where
  "utf8_piece bs =
     (let b = byte_at bs 0; n = utf8_char_width b in
      if n = 1 then (1, True)
      else if n = 2 then (if is_cont (byte_at bs 1) then (2, True) else (1, False))
      else if n = 3 then
        (if \<not> second_ok b (byte_at bs 1) then (1, False)
         else if is_cont (byte_at bs 2) then (3, True) else (2, False))
      else if n = 4 then
        (if \<not> second_ok b (byte_at bs 1) then (1, False)
         else if \<not> is_cont (byte_at bs 2) then (2, False)
         else if is_cont (byte_at bs 3) then (4, True) else (3, False))
      else (1, False))"

definition bytes_str :: "bytes \<Rightarrow> string" where
  "bytes_str bs = map (\<lambda>b. char_of (unat b)) bs"

definition replacement :: string where
  "replacement = bytes_str [0xEF, 0xBF, 0xBD]"

lemma utf8_piece_pos: "(n, ok) = utf8_piece bs \<Longrightarrow> 0 < n"
  by (auto simp: utf8_piece_def Let_def split: if_splits)

function from_utf8_lossy :: "bytes \<Rightarrow> string" where
  "from_utf8_lossy bs =
     (if bs = [] then []
      else case utf8_piece bs of (n, ok) \<Rightarrow>
        (if ok then bytes_str (take n bs) else replacement) @ from_utf8_lossy (drop n bs))"
  by pat_completeness auto
termination
  by (relation "measure length") (auto dest: utf8_piece_pos)

declare from_utf8_lossy.simps [simp del]

lemma bytes_str_append [simp]: "bytes_str (a @ b) = bytes_str a @ bytes_str b"
  by (simp add: bytes_str_def)

lemma bytes_str_str_bytes [simp]: "bytes_str (str_bytes s) = s"
  by (induction s) (simp_all add: bytes_str_def str_bytes_def unat_of_nat)

text \<open>ASCII text is decoded byte by byte, whatever follows it.\<close>

lemma from_utf8_lossy_ascii:
  "list_all (\<lambda>b. b < 0x80) as \<Longrightarrow> from_utf8_lossy (as @ bs) = bytes_str as @ from_utf8_lossy bs"
proof (induction as)
  case (Cons a as)
  have "utf8_piece (a # as @ bs) = (1, True)"
    using Cons.prems by (simp add: utf8_piece_def byte_at_def utf8_char_width_def Let_def)
  with Cons show ?case
    by (subst from_utf8_lossy.simps) (simp add: bytes_str_def)
qed (simp add: bytes_str_def)

lemma from_utf8_lossy_Nil [simp]: "from_utf8_lossy [] = []"
  by (simp add: from_utf8_lossy.simps)

lemma from_utf8_lossy_str:
  "list_all (\<lambda>c. chr_code c < 128) s \<Longrightarrow> from_utf8_lossy (str_bytes s) = s"
  using from_utf8_lossy_ascii [of "str_bytes s" "[]"]
  by (simp add: str_bytes_def list_all_iff word_less_nat_alt unat_of_nat bytes_str_def comp_def)

end
