(* ===== verification/Exec.thy ===== *)
theory Exec
  imports Terminal Session Utf8
begin

text \<open>
  Running a command on the peer, \<^verbatim>\<open>src/daemon.rs\<close> (\<^verbatim>\<open>exec_command_inner\<close> and what it calls, the
  clipboard commands built on it) and the output parser of the direct mode in \<^verbatim>\<open>src/main.rs\<close>.
  The command is typed into a terminal, followed by an \<^verbatim>\<open>echo\<close> of a sentinel and the exit status;
  the output up to the sentinel is the result. \<open>ser\<close> is \<^verbatim>\<open>serde_json::to_vec\<close> of a response.
\<close>

section \<open>Timeouts\<close>

definition EXEC_TERMINAL_OPEN_TIMEOUT :: nat where "EXEC_TERMINAL_OPEN_TIMEOUT = 15000"
definition EXEC_PROMPT_DRAIN_TIMEOUT :: nat where "EXEC_PROMPT_DRAIN_TIMEOUT = 2000"
definition DEFAULT_EXEC_COMPLETION_TIMEOUT :: nat where "DEFAULT_EXEC_COMPLETION_TIMEOUT = 30000"
definition MAX_EXEC_COMPLETION_TIMEOUT :: nat where "MAX_EXEC_COMPLETION_TIMEOUT = 3600000"

definition exec_completion_timeout :: "u64 option \<Rightarrow> nat" where
  "exec_completion_timeout timeout_secs =
     (case timeout_secs of
        Some secs \<Rightarrow> min (1000 * unat secs) MAX_EXEC_COMPLETION_TIMEOUT
      | None \<Rightarrow> DEFAULT_EXEC_COMPLETION_TIMEOUT)"

section \<open>Sentinels\<close>

text \<open>\<^verbatim>\<open>format!("__RDCLI_{sentinel_id:032x}__")\<close> for the time in nanoseconds (a \<^verbatim>\<open>u128\<close>).\<close>

definition sentinel_of :: "nat \<Rightarrow> string" where
  "sentinel_of nanos = ''__RDCLI_'' @ hex_digits 32 nanos @ ''__''"

definition starts_with_digit :: "string \<Rightarrow> bool" where
  "starts_with_digit s = (case s of c # _ \<Rightarrow> is_ascii_digit c | [] \<Rightarrow> False)"

text \<open>
  The search loop, from \<^verbatim>\<open>search_from\<close> on. The code only calls it with a sentinel that is not
  empty (an empty pattern would be found again at the same place).
\<close>

function find_sentinel_from :: "string \<Rightarrow> string \<Rightarrow> nat \<Rightarrow> nat option" where
  "find_sentinel_from raw sentinel search_from =
     (if sentinel = [] then None
      else case str_find (drop search_from raw) sentinel of
        None \<Rightarrow> None
      | Some pos \<Rightarrow>
          let abs_pos = search_from + pos in
          if starts_with_digit (drop (abs_pos + length sentinel) raw) then Some abs_pos
          else find_sentinel_from raw sentinel (abs_pos + length sentinel))"
  by pat_completeness auto
termination
proof (relation "measure (\<lambda>(raw, sentinel, from). length raw - from)", simp)
  fix raw sentinel :: string and search_from pos abs_pos
  assume "sentinel \<noteq> []" "str_find (drop search_from raw) sentinel = Some pos"
    and "abs_pos = search_from + pos"
  then show "((raw, sentinel, abs_pos + length sentinel), raw, sentinel, search_from)
      \<in> measure (\<lambda>(raw, sentinel, from). length raw - from)"
    by (auto dest!: str_find_Some) (cases sentinel; simp)
qed

declare find_sentinel_from.simps [simp del]

definition find_sentinel_output :: "string \<Rightarrow> string \<Rightarrow> nat option" where
  "find_sentinel_output raw sentinel = find_sentinel_from raw sentinel 0"

definition echo_command :: "string \<Rightarrow> string" where
  "echo_command sentinel = ''echo '' @ [CHR 0x27] @ sentinel @ [CHR 0x27]"

definition parse_exec_output :: "string \<Rightarrow> string \<Rightarrow> string \<times> i32" where
  "parse_exec_output raw sentinel =
     (case find_sentinel_output raw sentinel of
        None \<Rightarrow> (trim raw, - 1)
      | Some sentinel_pos \<Rightarrow>
          let after = drop (sentinel_pos + length sentinel) raw;
              code_str = takeWhile is_ascii_digit after;
              exit_code = (case parse_i32 code_str of Some c \<Rightarrow> c | None \<Rightarrow> - 1);
              output_start =
                (case str_find raw (echo_command sentinel) of
                   None \<Rightarrow> 0
                 | Some pos \<Rightarrow> (case str_find (drop pos raw) [CHR 0x0A] of
                                 None \<Rightarrow> 0 | Some nl \<Rightarrow> pos + nl + 1));
              sentinel_line_start =
                (case rfind_char (take sentinel_pos raw) (CHR 0x0A) of None \<Rightarrow> 0 | Some p \<Rightarrow> p + 1);
              stdout =
                (if output_start < sentinel_line_start
                 then trim_end_matches [CHR 0x0D, CHR 0x0A]
                   (take (sentinel_line_start - output_start) (drop output_start raw))
                 else []) in
          (stdout, exit_code))"

text \<open>The parser of the direct mode, \<^verbatim>\<open>src/main.rs\<close>; \<open>str_lines\<close> is \<^verbatim>\<open>str::lines\<close>.\<close>

definition strip_cr :: "string \<Rightarrow> string" where
  "strip_cr l = (if l \<noteq> [] \<and> last l = CHR 0x0D then butlast l else l)"

definition str_lines :: "string \<Rightarrow> string list" where
  "str_lines s =
     (let ps = split_char (CHR 0x0A) s in
      if last ps = [] then map strip_cr (butlast ps)
      else map strip_cr (butlast ps) @ [last ps])"

definition parse_direct_exec_output :: "string \<Rightarrow> string \<Rightarrow> string \<times> i32" where
  "parse_direct_exec_output raw sentinel =
     (case find_sentinel_output raw sentinel of
        Some pos \<Rightarrow>
          let before = take pos raw;
              after = drop (pos + length sentinel) raw;
              exit_digits = takeWhile is_ascii_digit after;
              exit_code = (case parse_i32 exit_digits of Some c \<Rightarrow> c | None \<Rightarrow> 0);
              stdout = trim (join [CHR 0x0A]
                (filter (\<lambda>line. \<not> str_contains line (echo_command sentinel @ ''$?'')) (str_lines before))) in
          (stdout, exit_code)
      | None \<Rightarrow> (trim raw, - 1))"

section \<open>Running a command\<close>

type_synonym serializer = "SessionResponse \<Rightarrow> bytes"

definition write_json_line :: "serializer \<Rightarrow> SessionResponse \<Rightarrow> unit async" where
  "write_json_line ser resp = uds_write (ser resp @ [10])"

definition exec_output_chunk_response :: "bytes \<Rightarrow> SessionResponse" where
  "exec_output_chunk_response d =
     resp_ok_with_data ''exec output chunk''
       (JObj [(''kind'', JStr ''chunk''), (''chunk'', JStr (from_utf8_lossy d))])"

definition exec_data :: "string \<Rightarrow> string \<Rightarrow> i32 \<Rightarrow> bool \<Rightarrow> json" where
  "exec_data cmd stdout ec timed_out =
     JObj [(''command'', JStr cmd), (''stdout'', JStr stdout), (''stderr'', JStr []),
           (''exit_code'', json_i32 ec), (''timed_out'', JBool timed_out)]"

definition executed :: "string \<Rightarrow> string \<Rightarrow> i32 \<Rightarrow> bool \<Rightarrow> SessionResponse" where
  "executed cmd stdout ec timed_out =
     resp_ok_with_data (''Executed `'' @ cmd @ ''`'') (exec_data cmd stdout ec timed_out)"

text \<open>\<^verbatim>\<open>let _ = close_terminal(...).await; bail!(...)\<close>.\<close>

definition close_and_bail :: "ext \<Rightarrow> i32 \<Rightarrow> bool \<Rightarrow> string \<Rightarrow> 'a async" where
  "close_and_bail x tid reset msg =
     bind_async (ignore_async (close_terminal x tid)) (\<lambda>_.
     bind_async (if reset then set_service None else return_async ()) (\<lambda>_.
     lift_async (bail msg)))"

lemma recv_loop_shorter:
  "recv_response_loop x dl w = (Done r, w') \<Longrightarrow> length (inbox w') < length (inbox w)"
proof (induction "length (inbox w)" arbitrary: w rule: less_induct)
  case (less w)
  obtain q w1 where q: "ctx_async ''reading terminal response'' stream_recv dl w = (q, w1)" by force
  show ?case
  proof (cases q)
    case (Done p)
    have l: "length (inbox w1) < length (inbox w)" using q Done by (auto dest: ctx_recv_shorter)
    show ?thesis
      using less.prems less.hyps [OF l] q Done l
      by (auto simp: recv_response_loop.simps [of x dl w] bail_def
          split: sum.splits message.splits option.splits)
  qed (use less.prems q in \<open>auto simp: recv_response_loop.simps [of x dl w]\<close>)
qed

lemma recv_terminal_response_shorter:
  "recv_terminal_response x d dl w = (Done (Ok r), w') \<Longrightarrow> length (inbox w') < length (inbox w)"
  by (auto simp: recv_terminal_response_def bind_async_def timeout_def lift_async_def Let_def
      split: prod.splits outcome.splits option.splits sum.splits if_splits dest!: recv_loop_shorter)

lemma recv_terminal_data_shorter:
  "(Done (Ok r), w') = recv_terminal_data_with_timeout x d dl w \<Longrightarrow> length (inbox w') < length (inbox w)"
  by (auto simp: recv_terminal_data_with_timeout_def bind_async_def ctx_async_def lift_async_def
      split: prod.splits outcome.splits sum.splits dest!: recv_terminal_response_shorter)

text \<open>Draining the prompt: \<open>None\<close> when the terminal went quiet, else an early answer.\<close>

function drain_loop :: "ext \<Rightarrow> i32 \<Rightarrow> string \<Rightarrow> SessionResponse option async" where
  "drain_loop x tid cmd dl w =
     (case recv_terminal_data_with_timeout x EXEC_PROMPT_DRAIN_TIMEOUT dl w of
        (Done (Inr ev), w') \<Rightarrow>
          (case ev of
             EvData _ \<Rightarrow> drain_loop x tid cmd dl w'
           | EvClosed ec \<Rightarrow>
               bind_async (set_service None) (\<lambda>_. return_async (Some
                 (resp_ok_with_data ''Terminal closed before exec'' (exec_data cmd [] ec False)))) dl w'
           | EvError msg \<Rightarrow>
               close_and_bail x tid True (''terminal error during prompt drain: '' @ msg) dl w')
      | (Done (Inl e), w') \<Rightarrow>
          if is_terminal_response_timeout e then (Done (Ok None), w')
          else close_and_bail x tid False (''recv error during prompt drain: '' @ err_chain e) dl w'
      | (Elapsed, w') \<Rightarrow> (Elapsed, w')
      | (Hang, w') \<Rightarrow> (Hang, w'))"
  by pat_completeness auto
termination
  by (relation "measure (\<lambda>(x, tid, cmd, dl, w). length (inbox w))") (auto dest: recv_terminal_data_shorter)

declare drain_loop.simps [simp del]

lemma uds_write_inbox: "inbox (snd (uds_write bs dl w)) = inbox w"
  by (auto simp: uds_write_def split: list.splits option.splits)

lemma write_chunk_inbox:
  "(r, w') = (if streaming then write_json_line ser resp else return_async ()) dl w \<Longrightarrow> inbox w' = inbox w"
  using uds_write_inbox [of "ser resp @ [10]" dl w]
  by (auto simp: write_json_line_def lift_async_def split: if_splits) (metis snd_conv)

text \<open>How collecting ends: with the bytes so far and whether the time was up, or with an answer.\<close>

datatype collected = Collected bytes bool | Answered SessionResponse

function collect_loop ::
  "ext \<Rightarrow> serializer \<Rightarrow> bool \<Rightarrow> i32 \<Rightarrow> string \<Rightarrow> string \<Rightarrow> nat \<Rightarrow> bytes \<Rightarrow> collected async" where
  "collect_loop x ser streaming tid cmd sentinel deadline acc dl w =
     (let remaining = deadline - clock w in
      if remaining = 0 then (Done (Ok (Collected acc True)), w)
      else case recv_terminal_data_with_timeout x remaining dl w of
        (Done (Inr ev), w') \<Rightarrow>
          (case ev of
             EvData d \<Rightarrow>
               (case (if streaming then write_json_line ser (exec_output_chunk_response d)
                      else return_async ()) dl w' of
                  (Done (Inr _), w'') \<Rightarrow>
                    let acc' = acc @ d in
                    if find_sentinel_output (from_utf8_lossy acc') sentinel \<noteq> None
                    then (Done (Ok (Collected acc' False)), w'')
                    else collect_loop x ser streaming tid cmd sentinel deadline acc' dl w''
                | (Done (Inl e), w'') \<Rightarrow> (Done (Err e), w'')
                | (Elapsed, w'') \<Rightarrow> (Elapsed, w'')
                | (Hang, w'') \<Rightarrow> (Hang, w''))
           | EvClosed ec \<Rightarrow>
               bind_async (ignore_async (close_terminal x tid)) (\<lambda>_.
               bind_async (set_service None) (\<lambda>_.
               return_async (Answered (executed cmd (trim (from_utf8_lossy acc)) ec False)))) dl w'
           | EvError msg \<Rightarrow> close_and_bail x tid True (''terminal error during exec: '' @ msg) dl w')
      | (Done (Inl e), w') \<Rightarrow>
          if is_terminal_response_timeout e then (Done (Ok (Collected acc True)), w')
          else close_and_bail x tid True (''recv error during exec: '' @ err_chain e) dl w'
      | (Elapsed, w') \<Rightarrow> (Elapsed, w')
      | (Hang, w') \<Rightarrow> (Hang, w'))"
  by pat_completeness auto
termination
  by (relation "measure (\<lambda>(x, ser, st, tid, cmd, s, d, acc, dl, w). length (inbox w))")
    (auto dest!: recv_terminal_data_shorter write_chunk_inbox)

declare collect_loop.simps [simp del]

text \<open>\<^verbatim>\<open>exec_command_inner\<close>; \<open>nanos\<close> is the time the sentinel is made of.\<close>

definition exec_command_inner ::
  "ext \<Rightarrow> serializer \<Rightarrow> nat \<Rightarrow> string \<Rightarrow> u64 option \<Rightarrow> bool \<Rightarrow> SessionResponse async" where
  "exec_command_inner x ser nanos cmd timeout_secs streaming =
     (let sentinel = sentinel_of nanos in
      bind_async (timeout EXEC_TERMINAL_OPEN_TIMEOUT (open_terminal x 24 80)) (\<lambda>r.
      bind_async (lift_async (case r of None \<Rightarrow> bail ''terminal open timed out'' | Some q \<Rightarrow> q)) (\<lambda>info.
      bind_async (set_service (Some (service_id info))) (\<lambda>_.
      let tid = terminal_id info in
      bind_async (drain_loop x tid cmd) (\<lambda>early.
      case early of
        Some resp \<Rightarrow> return_async resp
      | None \<Rightarrow>
          bind_async (send_terminal_data x tid
            (str_bytes (cmd @ [CHR 0x0A] @ echo_command sentinel @ ''$?'' @ [CHR 0x0A]))) (\<lambda>_.
          bind_async now (\<lambda>t.
          bind_async (collect_loop x ser streaming tid cmd sentinel
              (t + exec_completion_timeout timeout_secs) []) (\<lambda>c.
          case c of
            Answered resp \<Rightarrow> return_async resp
          | Collected acc timed_out \<Rightarrow>
              bind_async (ignore_async (close_terminal x tid)) (\<lambda>_.
              bind_async (set_service None) (\<lambda>_.
              case parse_exec_output (from_utf8_lossy acc) sentinel of (stdout, ec) \<Rightarrow>
                return_async (executed cmd stdout ec timed_out)))))))))))"

text \<open>
  \<^verbatim>\<open>exec_command\<close> passes a service id of its own, \<^verbatim>\<open>exec_command_streaming\<close> the daemon's.
\<close>

definition exec_command :: "ext \<Rightarrow> serializer \<Rightarrow> nat \<Rightarrow> string \<Rightarrow> u64 option \<Rightarrow> SessionResponse async" where
  "exec_command x ser nanos cmd timeout_secs dl w =
     (case exec_command_inner x ser nanos cmd timeout_secs False dl (w\<lparr>active_service_id := None\<rparr>) of
        (r, w') \<Rightarrow> (r, w'\<lparr>active_service_id := active_service_id w\<rparr>))"

definition exec_command_streaming ::
  "ext \<Rightarrow> serializer \<Rightarrow> nat \<Rightarrow> string \<Rightarrow> u64 option \<Rightarrow> SessionResponse async" where
  "exec_command_streaming x ser nanos cmd timeout_secs =
     exec_command_inner x ser nanos cmd timeout_secs True"

definition clipboard_get :: "ext \<Rightarrow> serializer \<Rightarrow> nat \<Rightarrow> SessionResponse async" where
  "clipboard_get x ser nanos =
     bind_async (exec_command x ser nanos
       (''xclip -selection clipboard -o 2>/dev/null || pbpaste 2>/dev/null || echo -n '' @ [CHR 0x27, CHR 0x27])
       None) (\<lambda>exec_resp.
     let t = (case Option.bind (data exec_resp) (\<lambda>d. as_str (json_index d ''stdout'')) of
                Some s \<Rightarrow> s | None \<Rightarrow> []) in
     return_async (resp_ok_with_data ''Clipboard text retrieved'' (JObj [(''text'', JStr t)])))"

definition quoted_eof :: string where
  "quoted_eof = [CHR 0x27] @ ''__RDCLI_CLIP_EOF__'' @ [CHR 0x27]"

definition clipboard_set_command :: "string \<Rightarrow> string" where
  "clipboard_set_command txt =
     ''cat <<'' @ quoted_eof @ '' | xclip -selection clipboard 2>/dev/null || '' @
     ''cat <<'' @ quoted_eof @ '' | pbcopy 2>/dev/null'' @ [CHR 0x0A] @
     txt @ [CHR 0x0A] @ ''__RDCLI_CLIP_EOF__''"

definition clipboard_set :: "ext \<Rightarrow> serializer \<Rightarrow> nat \<Rightarrow> string \<Rightarrow> SessionResponse async" where
  "clipboard_set x ser nanos txt =
     bind_async (exec_command x ser nanos (clipboard_set_command txt) None) (\<lambda>_.
     return_async (resp_ok_with_data ''Clipboard text updated''
       (JObj [(''chars'', json_nat (chars_count txt)), (''redacted'', JBool True)])))"

section \<open>What the parser extracts\<close>

abbreviation LF :: char where "LF \<equiv> CHR 0x0A"

lemma str_find_char: "c \<notin> set a \<Longrightarrow> str_find (a @ c # b) [c] = Some (length a)"
  by (induction a) auto

lemma find_sentinel_from_hit:
  assumes "s \<noteq> []" and "str_find (drop k raw) s = Some n"
    and "starts_with_digit (drop (k + n + length s) raw)"
  shows "find_sentinel_from raw s k = Some (k + n)"
  using assms by (subst find_sentinel_from.simps) (simp add: Let_def)

lemma find_sentinel_from_next:
  assumes "s \<noteq> []" and "str_find (drop k raw) s = Some n"
    and "\<not> starts_with_digit (drop (k + n + length s) raw)"
  shows "find_sentinel_from raw s k = find_sentinel_from raw s (k + n + length s)"
  using assms by (subst find_sentinel_from.simps) (simp add: Let_def)

text \<open>What \<^verbatim>\<open>find_sentinel_output\<close> reports is a sentinel followed by a digit.\<close>

lemma find_sentinel_from_sound:
  "find_sentinel_from raw s k = Some p \<Longrightarrow>
     starts_with (drop p raw) s \<and> starts_with_digit (drop (p + length s) raw)"
proof (induction raw s k rule: find_sentinel_from.induct)
  case (1 raw s k)
  from "1.prems" have s: "s \<noteq> []" by (auto simp: find_sentinel_from.simps [of raw s k])
  with "1.prems" obtain n where n: "str_find (drop k raw) s = Some n"
    by (auto simp: find_sentinel_from.simps [of raw s k] split: option.splits)
  show ?case
  proof (cases "starts_with_digit (drop (k + n + length s) raw)")
    case True
    with find_sentinel_from_hit [OF s n] "1.prems" str_find_Some [OF n] show ?thesis by (auto simp: ac_simps)
  next
    case False
    with "1.IH" [OF s n refl] "1.prems" find_sentinel_from_next [OF s n] show ?thesis by auto
  qed
qed

text \<open>
  The shape of the collected output: \<open>pre\<close> is what precedes the echoed echo command, \<open>eol\<close> ends its
  line, the command's output is whole lines \<open>full\<close> and an unfinished last line \<open>part\<close>, then come the
  sentinel, the digits and the rest.
\<close>

definition exec_raw :: "string \<Rightarrow> string \<Rightarrow> string \<Rightarrow> string \<Rightarrow> string \<Rightarrow> string \<Rightarrow> string \<Rightarrow> string" where
  "exec_raw s pre eol full part ds tail =
     pre @ echo_command s @ ''$?'' @ eol @ full @ part @ s @ ds @ tail"

text \<open>The sentinel occurs in the output only in the echoed command and where \<^verbatim>\<open>echo\<close> prints it.\<close>

definition sentinel_fresh :: "string \<Rightarrow> string \<Rightarrow> string \<Rightarrow> string \<Rightarrow> string \<Rightarrow> string \<Rightarrow> string \<Rightarrow> bool" where
  "sentinel_fresh s pre eol full part ds tail \<longleftrightarrow> s \<noteq> [] \<and> LF \<notin> set s \<and>
     list_all (\<lambda>j. starts_with (drop j (exec_raw s pre eol full part ds tail)) s \<longrightarrow>
        j = length pre + 6 \<or> j = length (pre @ echo_command s @ ''$?'' @ eol @ full @ part))
       [0..<length (exec_raw s pre eol full part ds tail)]"

lemma sentinel_freshD:
  assumes "sentinel_fresh s pre eol full part ds tail"
  shows "s \<noteq> []" and "LF \<notin> set s"
    and "starts_with (drop j (exec_raw s pre eol full part ds tail)) s \<Longrightarrow>
        j = length pre + 6 \<or> j = length (pre @ echo_command s @ ''$?'' @ eol @ full @ part)"
proof -
  show s: "s \<noteq> []" and "LF \<notin> set s" using assms by (simp_all add: sentinel_fresh_def)
  assume j: "starts_with (drop j (exec_raw s pre eol full part ds tail)) s"
  with s have "j < length (exec_raw s pre eol full part ds tail)"
    by (metis drop_eq_Nil linorder_not_less list.exhaust starts_with_Cons(2))
  with assms j show "j = length pre + 6 \<or> j = length (pre @ echo_command s @ ''$?'' @ eol @ full @ part)"
    unfolding sentinel_fresh_def list_all_iff by auto
qed

definition output_shape :: "string \<Rightarrow> string \<Rightarrow> string \<Rightarrow> string \<Rightarrow> string \<Rightarrow> bool" where
  "output_shape eol full part ds tail \<longleftrightarrow> eol \<in> {[LF], [CHR 0x0D, LF]} \<and>
     (full = [] \<or> last full = LF) \<and> LF \<notin> set part \<and> ds \<noteq> [] \<and> list_all is_ascii_digit ds \<and>
     \<not> starts_with_digit tail"

lemma find_sentinel_exec_raw:
  assumes fresh: "sentinel_fresh s pre eol full part ds tail" and shape: "output_shape eol full part ds tail"
  shows "find_sentinel_output (exec_raw s pre eol full part ds tail) s =
    Some (length (pre @ echo_command s @ ''$?'' @ eol @ full @ part))"
proof -
  define a where "a = pre @ ''echo '' @ [CHR 0x27]"
  define b where "b = [CHR 0x27] @ ''$?'' @ eol @ full @ part"
  let ?raw = "exec_raw s pre eol full part ds tail"
  have raw: "?raw = a @ s @ b @ s @ ds @ tail" by (simp add: exec_raw_def echo_command_def a_def b_def)
  have len: "length (pre @ echo_command s @ ''$?'' @ eol @ full @ part) = length a + length s + length b"
    by (simp add: a_def b_def echo_command_def)
  have la: "length pre + 6 = length a" by (simp add: a_def)
  have s: "s \<noteq> []" and occ: "\<And>j. starts_with (drop j ?raw) s \<Longrightarrow> j = length a \<or> j = length a + length s + length b"
    using sentinel_freshD [OF fresh] unfolding len la by blast+
  have "str_find (drop 0 ?raw) s = Some (length a)"
  proof (rule str_find_eqI)
    show "starts_with (drop (length a) (drop 0 ?raw)) s" by (simp add: raw)
    fix j assume "j < length a"
    then show "\<not> starts_with (drop j (drop 0 ?raw)) s" using occ [of j] by auto
  qed
  moreover have "\<not> starts_with_digit (drop (0 + length a + length s) ?raw)"
    by (simp add: raw b_def starts_with_digit_def is_ascii_digit_def)
  ultimately have "find_sentinel_output ?raw s = find_sentinel_from ?raw s (length a + length s)"
    using find_sentinel_from_next [OF s, of 0 ?raw "length a"] by (simp add: find_sentinel_output_def)
  moreover have "str_find (drop (length a + length s) ?raw) s = Some (length b)"
  proof (rule str_find_eqI)
    show "starts_with (drop (length b) (drop (length a + length s) ?raw)) s" by (simp add: raw)
    fix j assume j: "j < length b"
    show "\<not> starts_with (drop j (drop (length a + length s) ?raw)) s"
    proof
      assume "starts_with (drop j (drop (length a + length s) ?raw)) s"
      then have "starts_with (drop (length a + length s + j) ?raw) s" by (simp add: ac_simps)
      from occ [OF this] j s show False by (cases s) auto
    qed
  qed
  moreover have "starts_with_digit (drop (length a + length s + length b + length s) ?raw)"
  proof -
    have "drop (length a + length s + length b + length s) ?raw = ds @ tail" by (simp add: raw)
    moreover have "ds \<noteq> []" "list_all is_ascii_digit ds" using shape by (auto simp: output_shape_def)
    ultimately show ?thesis by (cases ds) (simp_all add: starts_with_digit_def)
  qed
  ultimately show ?thesis
    using find_sentinel_from_hit [OF s, of "length a + length s" ?raw "length b"] by (simp only: len)
qed

lemma find_echo_exec_raw:
  assumes fresh: "sentinel_fresh s pre eol full part ds tail"
  shows "str_find (exec_raw s pre eol full part ds tail) (echo_command s) = Some (length pre)"
proof (rule str_find_eqI)
  let ?raw = "exec_raw s pre eol full part ds tail"
  show "starts_with (drop (length pre) ?raw) (echo_command s)" by (simp add: exec_raw_def)
  fix j assume j: "j < length pre"
  show "\<not> starts_with (drop j ?raw) (echo_command s)"
  proof
    assume "starts_with (drop j ?raw) (echo_command s)"
    then obtain r where r: "drop j ?raw = ''echo '' @ [CHR 0x27] @ s @ [CHR 0x27] @ r"
      by (auto simp: starts_with_iff echo_command_def)
    have "drop (j + 6) ?raw = drop 6 (drop j ?raw)" by (simp add: ac_simps)
    also have "\<dots> = s @ [CHR 0x27] @ r" unfolding r by simp
    finally have "starts_with (drop (j + 6) ?raw) s" by simp
    from sentinel_freshD(3) [OF fresh this] j show False by (auto simp: echo_command_def)
  qed
qed

lemma rfind_LF_exec_raw:
  assumes "output_shape eol full part ds tail"
  shows "rfind_char (x @ eol @ full @ part) LF = Some (length (x @ eol @ full) - 1)"
proof -
  have "\<exists>y. x @ eol @ full = y @ [LF]"
  proof (cases "full = []")
    case True
    with assms show ?thesis by (auto simp: output_shape_def)
  next
    case False
    then have "full = butlast full @ [last full]" by simp
    with assms False have "full = butlast full @ [LF]" by (simp only: output_shape_def) simp
    then show ?thesis by (metis append_assoc)
  qed
  then obtain y where y: "x @ eol @ full = y @ [LF]" by blast
  have eq: "x @ eol @ full @ part = y @ LF # part"
    using arg_cong [OF y, of "\<lambda>z. z @ part"] by simp
  have len: "length (x @ eol @ full) - 1 = length y" by (simp only: y) simp
  show ?thesis
    unfolding eq len using assms by (simp add: rfind_char_append_last output_shape_def)
qed

lemma parse_exec_output_raw:
  assumes fresh: "sentinel_fresh s pre eol full part ds tail" and shape: "output_shape eol full part ds tail"
  shows "parse_exec_output (exec_raw s pre eol full part ds tail) s =
    (trim_end_matches [CHR 0x0D, LF] full, case parse_i32 ds of Some c \<Rightarrow> c | None \<Rightarrow> - 1)"
proof -
  define x where "x = pre @ echo_command s @ ''$?''"
  define y where "y = s @ ds @ tail"
  let ?raw = "exec_raw s pre eol full part ds tail"
  have raw: "?raw = x @ eol @ full @ part @ y" by (simp add: exec_raw_def x_def y_def)
  have pos: "find_sentinel_output ?raw s = Some (length (x @ eol @ full @ part))"
    using find_sentinel_exec_raw [OF fresh shape] by (simp add: x_def)
  have eol: "eol \<noteq> []" "LF \<notin> set (butlast eol)" "eol = butlast eol @ [LF]"
    using shape by (auto simp: output_shape_def)
  have start: "str_find (drop (length pre) ?raw) [LF] = Some (length x - length pre + (length eol - 1))"
  proof -
    have n: "LF \<notin> set (echo_command s @ ''$?'' @ butlast eol)"
      using fresh eol by (auto simp: sentinel_fresh_def echo_command_def)
    have d: "drop (length pre) ?raw = (echo_command s @ ''$?'' @ butlast eol) @ LF # full @ part @ y"
      by (subst raw, subst eol(3)) (simp add: x_def)
    show ?thesis unfolding d str_find_char [OF n] by (simp add: x_def)
  qed
  have after: "takeWhile is_ascii_digit (drop (length (x @ eol @ full @ part) + length s) ?raw) = ds"
  proof -
    have "drop (length (x @ eol @ full @ part) + length s) ?raw = ds @ tail" by (simp add: raw y_def)
    moreover have "\<forall>c\<in>set ds. is_ascii_digit c" "\<not> starts_with_digit tail"
      using shape by (auto simp: output_shape_def list_all_iff)
    ultimately show ?thesis by (cases tail) (simp_all add: starts_with_digit_def)
  qed
  have line: "rfind_char (take (length (x @ eol @ full @ part)) ?raw) LF = Some (length (x @ eol @ full) - 1)"
    using rfind_LF_exec_raw [OF shape, of x] by (simp add: raw)
  have out: "length pre + (length x - length pre + (length eol - 1)) + 1 = length (x @ eol)"
    using eol(1) by (cases eol) (auto simp: x_def)
  have ls: "length (x @ eol @ full) - 1 + 1 = length (x @ eol @ full)" using eol(1) by (cases eol) auto
  have full: "take (length (x @ eol @ full) - length (x @ eol)) (drop (length (x @ eol)) ?raw) = full"
    by (simp add: raw)
  have "full = []" if "\<not> length (x @ eol) < length (x @ eol @ full)" using that by simp
  then show ?thesis
    unfolding parse_exec_output_def Let_def pos option.case find_echo_exec_raw [OF fresh] start line after out ls full
    by (auto simp: trim_end_matches_def)
qed

section \<open>The handler always returns\<close>

text \<open>An operation that ends whatever the peer does, when nothing outside cuts it off.\<close>

definition returns :: "'a async \<Rightarrow> bool" where
  "returns m \<longleftrightarrow> (\<forall>w. \<exists>r w'. m None w = (Done r, w'))"

lemma returnsE: "returns m \<Longrightarrow> (\<And>r w'. m None w = (Done r, w') \<Longrightarrow> P) \<Longrightarrow> P"
  by (meson returns_def)

lemma returns_timeout [simp]: "well_behaved m \<Longrightarrow> returns (timeout d m)"
  using timeout_ends [of m d] by (auto simp: returns_def) metis

lemma returns_lift [simp]: "returns (lift_async r)"
  by (simp add: returns_def lift_async_def)

lemma returns_basic [simp]:
  "returns now" "returns (set_service sid)" "returns (send_message x m)" "returns (uds_write bs)"
  by (auto simp: returns_def now_def set_service_def send_message_def stream_send_Done uds_write_def
      split: list.splits option.splits)

lemma returns_ctx [simp]: "returns m \<Longrightarrow> returns (ctx_async c m)"
  by (auto simp: returns_def ctx_async_def split: prod.splits outcome.splits) (metis outcome.distinct prod.inject)+

lemma returns_try [simp]: "returns m \<Longrightarrow> returns (try_async m)"
  by (auto simp: returns_def try_async_def split: prod.splits outcome.splits) (metis outcome.distinct prod.inject)+

lemma returns_bind:
  assumes "returns m" and "\<And>x. returns (f x)"
  shows "returns (bind_async m f)"
  unfolding returns_def
proof
  fix w
  obtain r w' where "m None w = (Done r, w')" using assms(1) by (rule returnsE)
  then show "\<exists>r w'. bind_async m f None w = (Done r, w')"
    using assms(2) by (cases r) (auto simp: bind_async_def returns_def)
qed

lemma returns_ignore [simp]: "returns m \<Longrightarrow> returns (ignore_async m)"
  unfolding ignore_async_def by (intro returns_bind) auto

lemma returns_terminal [simp]:
  "returns (close_terminal x tid)" "returns (send_terminal_data x tid d)"
  by (auto simp: close_terminal_def send_terminal_data_def send_action_def intro!: returns_bind
      split: prod.splits)

lemma returns_close_and_bail [simp]: "returns (close_and_bail x tid reset msg)"
  unfolding close_and_bail_def by (intro returns_bind) auto

lemma recv_terminal_data_bounded:
  obtains r w' where "recv_terminal_data_with_timeout x d None w = (Done r, w')"
    and "clock w \<le> clock w'" and "clock w' \<le> clock w + d"
proof -
  obtain r w' where "timeout d (recv_response_loop x) None w = (Done (Ok r), w')"
    "clock w \<le> clock w'" "clock w' \<le> clock w + d"
    using timeout_ends [OF wb_timely [OF wb_recv_response_loop]] by metis
  moreover from this(1) have "\<exists>q. recv_terminal_data_with_timeout x d None w = (Done q, w')"
    by (cases r; cases "the r")
      (simp_all add: recv_terminal_data_with_timeout_def recv_terminal_response_def bind_async_def
        ctx_async_def lift_async_def)
  ultimately show ?thesis using that by blast
qed

text \<open>The effect of closing the terminal when the result is dropped.\<close>

definition after_close :: "ext \<Rightarrow> i32 \<Rightarrow> net \<Rightarrow> net" where
  "after_close x tid w = snd (close_terminal x tid None w)"

lemma ignore_close_eq [simp]:
  "ignore_async (close_terminal x tid) dl w = (Done (Ok ()), after_close x tid w)"
  by (auto simp: after_close_def ignore_async_def close_terminal_def send_action_def ctx_async_def
      try_async_def bind_async_def lift_async_def send_message_def stream_send_def
      split: list.splits option.splits)

lemma after_close_simps [simp]:
  "clock (after_close x tid w) = clock w" "inbox (after_close x tid w) = inbox w"
  "active_service_id (after_close x tid w) = active_service_id w"
  "uds_out (after_close x tid w) = uds_out w"
  by (auto simp: after_close_def close_terminal_def send_action_def ctx_async_def
      send_message_def stream_send_def split: list.splits option.splits)

lemma close_and_bail_eq [simp]:
  "close_and_bail x tid reset msg dl w = (Done (Err [msg]),
     if reset then (after_close x tid w)\<lparr>active_service_id := None\<rparr> else after_close x tid w)"
  by (simp add: close_and_bail_def bind_async_def set_service_def lift_async_def bail_def)

lemma set_service_bind [simp]: "bind_async (set_service sid) f dl w = f () dl (w\<lparr>active_service_id := sid\<rparr>)"
  by (simp add: bind_async_def set_service_def)

lemma close_bind [simp]: "bind_async (ignore_async (close_terminal x tid)) f dl w = f () dl (after_close x tid w)"
  by (simp add: bind_async_def)

lemma bind_Done: "m dl w = (Done (Ok v), w') \<Longrightarrow> bind_async m f dl w = f v dl w'"
  by (simp add: bind_async_def)

lemma lift_apply [simp]: "lift_async r dl w = (Done r, w)"
  by (simp add: lift_async_def)

lemma returns_drain_loop [simp]: "returns (drain_loop x tid cmd)"
  unfolding returns_def
proof
  fix w
  show "\<exists>r w'. drain_loop x tid cmd None w = (Done r, w')"
  proof (induction "length (inbox w)" arbitrary: w rule: less_induct)
    case (less w)
    obtain r w1 where r: "recv_terminal_data_with_timeout x EXEC_PROMPT_DRAIN_TIMEOUT None w = (Done r, w1)"
      by (rule recv_terminal_data_bounded)
    show ?case
    proof (cases r)
      case (Inr ev)
      then have "length (inbox w1) < length (inbox w)"
        using r by (metis recv_terminal_data_shorter)
      from less [OF this] r Inr show ?thesis
        by (cases ev) (simp_all add: drain_loop.simps [of x tid cmd None w])
    qed (use r in \<open>simp add: drain_loop.simps [of x tid cmd None w]\<close>)
  qed
qed

lemma write_chunk_effect:
  obtains r w' where "(if streaming then write_json_line ser resp else return_async ()) dl w = (Done r, w')"
    "clock w' = clock w" "inbox w' = inbox w" "outbox w' = outbox w"
proof -
  have "\<exists>r w'. write_json_line ser resp dl w = (Done r, w') \<and> clock w' = clock w \<and> inbox w' = inbox w \<and>
      outbox w' = outbox w"
    by (auto simp: write_json_line_def uds_write_def split: list.splits option.splits)
  then show ?thesis using that by (cases streaming) auto
qed

text \<open>Collecting ends by the deadline.\<close>

lemma collect_loop_bounded:
  "\<exists>r w'. collect_loop x ser streaming tid cmd s deadline acc None w = (Done r, w') \<and>
     clock w \<le> clock w' \<and> clock w' \<le> max (clock w) deadline"
proof (induction "length (inbox w)" arbitrary: w acc rule: less_induct)
  case (less w)
  show ?case
  proof (cases "deadline - clock w = 0")
    case True
    then show ?thesis by (simp add: collect_loop.simps [of x ser streaming tid cmd s deadline acc None w])
  next
    case False
    obtain r w1 where r: "recv_terminal_data_with_timeout x (deadline - clock w) None w = (Done r, w1)"
      "clock w \<le> clock w1" "clock w1 \<le> clock w + (deadline - clock w)"
      by (rule recv_terminal_data_bounded)
    note step = collect_loop.simps [of x ser streaming tid cmd s deadline acc None w]
    show ?thesis
    proof (cases r)
      case (Inl e)
      with r False show ?thesis by (auto simp: step Let_def)
    next
      case (Inr ev)
      then have shorter: "length (inbox w1) < length (inbox w)"
        using r(1) by (metis recv_terminal_data_shorter)
      show ?thesis
      proof (cases ev)
        case (EvData d)
        obtain q w2 where q: "(if streaming then write_json_line ser (exec_output_chunk_response d)
            else return_async ()) None w1 = (Done q, w2)" "clock w2 = clock w1" "inbox w2 = inbox w1"
          by (rule write_chunk_effect)
        with shorter less [of w2 "acc @ d"] r obtain q' w' where
          "collect_loop x ser streaming tid cmd s deadline (acc @ d) None w2 = (Done q', w')"
          "clock w \<le> clock w'" "clock w' \<le> max (clock w) deadline"
          using False by fastforce
        with q r Inr EvData False show ?thesis
          by (cases q; cases "find_sentinel_output (from_utf8_lossy (acc @ d)) s = None")
            (simp_all add: step Let_def)
      qed (use r Inr False in \<open>auto simp: step Let_def\<close>)
    qed
  qed
qed

lemma returns_collect_loop [simp]: "returns (collect_loop x ser streaming tid cmd s deadline acc)"
  using collect_loop_bounded by (metis returns_def)

lemma returns_exec_command_inner [simp]: "returns (exec_command_inner x ser nanos cmd ts streaming)"
  unfolding exec_command_inner_def Let_def
  by (intro returns_bind; auto split: option.splits collected.splits prod.splits intro!: returns_bind)

section \<open>A run against a well-behaved peer\<close>

definition is_chunk :: "ext \<Rightarrow> nat \<times> bytes result \<Rightarrow> bytes \<Rightarrow> bool" where
  "is_chunk x m d = (case m of (t, Inr raw) \<Rightarrow>
     (case dec_msg x raw of
        Inr (MTerminalResponse (Some resp)) \<Rightarrow> terminal_event x resp = Ok (EvData d)
      | _ \<Rightarrow> False)
   | _ \<Rightarrow> False)"

text \<open>Each message arrives within \<open>d\<close> after the one before.\<close>

fun paced :: "nat \<Rightarrow> nat \<Rightarrow> (nat \<times> bytes result) list \<Rightarrow> bool" where
  "paced clk d [] = True"
| "paced clk d ((t, _) # ms) = (t \<le> clk + d \<and> paced (max t clk) d ms)"

definition quiet_until :: "nat \<Rightarrow> (nat \<times> bytes result) list \<Rightarrow> bool" where
  "quiet_until t ms = (case ms of [] \<Rightarrow> True | (u, _) # _ \<Rightarrow> t < u)"

lemma recv_terminal_data_chunk:
  assumes "inbox w = m # rest" and "is_chunk x m d" and "fst m \<le> clock w + D"
  shows "recv_terminal_data_with_timeout x D None w =
    (Done (Ok (EvData d)), w\<lparr>clock := max (fst m) (clock w), inbox := rest\<rparr>)"
proof -
  obtain t raw resp where m: "m = (t, Ok raw)" "dec_msg x raw = Ok (MTerminalResponse (Some resp))"
    "terminal_event x resp = Ok (EvData d)"
    using assms(2) by (auto simp: is_chunk_def split: prod.splits sum.splits message.splits option.splits)
  from recv_response_hit [of x "[]" w t raw rest resp D] assms m show ?thesis
    by (simp add: recv_terminal_data_with_timeout_def bind_async_def ctx_async_def)
qed

lemma recv_terminal_data_quiet:
  assumes "quiet_until (clock w + D) (inbox w)"
  shows "\<exists>e. recv_terminal_data_with_timeout x D None w = (Done (Err e), w\<lparr>clock := clock w + D\<rparr>) \<and>
    is_terminal_response_timeout e"
  using recv_response_quiet [of x "[]" w "inbox w" D] assms timeout_error_recognised [of "[''receiving terminal data'']" D]
  by (simp add: recv_terminal_data_with_timeout_def bind_async_def ctx_async_def quiet_until_def)

lemma drain_run:
  assumes "list_all2 (is_chunk x) prompts ds" and "inbox w = prompts @ rest"
    and "paced (clock w) EXEC_PROMPT_DRAIN_TIMEOUT prompts"
    and "quiet_until (arrival (clock w) prompts + EXEC_PROMPT_DRAIN_TIMEOUT) rest"
  shows "drain_loop x tid cmd None w = (Done (Ok None),
    w\<lparr>clock := arrival (clock w) prompts + EXEC_PROMPT_DRAIN_TIMEOUT, inbox := rest\<rparr>)"
  using assms
proof (induction prompts ds arbitrary: w rule: list_all2_induct)
  case Nil
  then obtain e where "recv_terminal_data_with_timeout x EXEC_PROMPT_DRAIN_TIMEOUT None w =
      (Done (Err e), w\<lparr>clock := clock w + EXEC_PROMPT_DRAIN_TIMEOUT\<rparr>)" "is_terminal_response_timeout e"
    using recv_terminal_data_quiet [of w EXEC_PROMPT_DRAIN_TIMEOUT x] by auto
  with Nil show ?case by (cases w) (simp add: drain_loop.simps [of x tid cmd None])
next
  case (Cons m ms d ds)
  obtain t r where m: "m = (t, r)" by force
  with Cons.prems Cons.hyps recv_terminal_data_chunk [of w m "ms @ rest" x d EXEC_PROMPT_DRAIN_TIMEOUT]
  have "drain_loop x tid cmd None w = drain_loop x tid cmd None (w\<lparr>clock := max t (clock w), inbox := ms @ rest\<rparr>)"
    by (simp add: drain_loop.simps [of x tid cmd None w])
  also have "\<dots> = (Done (Ok None),
      w\<lparr>clock := arrival (clock w) (m # ms) + EXEC_PROMPT_DRAIN_TIMEOUT, inbox := rest\<rparr>)"
    using Cons.prems m by (subst Cons.IH) simp_all
  finally show ?case .
qed

section \<open>How long an exec takes\<close>

text \<open>
  The prompt is drained until nothing comes for two seconds, with no limit on the whole. So how long an exec takes
  depends on when the peer first falls silent: \<open>pre\<close> is what it sends until then, and \<open>post\<close>, which may be anything, is what
  it sends after a gap. Nothing of \<open>post\<close> is read before the gap is over.
\<close>

lemma arrival_append: "arrival t (ms @ ns) = arrival (arrival t ms) ns"
  by (simp add: arrival_def)

lemma arrival_mono: "t \<le> u \<Longrightarrow> arrival t ms \<le> arrival u ms"
proof (induction ms arbitrary: t u)
  case (Cons m ms)
  obtain s r where m: "m = (s, r)" by force
  from Cons.prems have "max s t \<le> max s u" by linarith
  from Cons.IH [OF this] m show ?case by simp
qed simp

lemma quiet_until_mono: "quiet_until t ms \<Longrightarrow> u \<le> t \<Longrightarrow> quiet_until u ms"
  by (auto simp: quiet_until_def split: list.splits)

lemma taken_before_silence:
  assumes "inbox w = pre @ post" and "quiet_until T post" and "inbox w1 = drop k (inbox w)"
    and "\<forall>p\<in>set (take k (inbox w)). fst p \<le> T"
  shows "\<exists>j. inbox w1 = drop j pre @ post \<and> take k (inbox w) = take j pre"
proof (cases "k \<le> length pre")
  case True
  with assms show ?thesis by (intro exI [of _ k]) simp
next
  case False
  have "post = []"
  proof (cases post)
    case (Cons q qs)
    with False assms(1) have "q \<in> set (take k (inbox w))"
      by (simp add: take_Cons' )
    with assms(2,4) Cons show ?thesis by (auto simp: quiet_until_def split: prod.splits)
  qed simp
  with False assms show ?thesis by (intro exI [of _ "length pre"]) simp
qed

lemma recv_response_loop_Done:
  assumes "recv_response_loop x dl w = (Done q, w1)"
  shows "\<exists>k. inbox w1 = drop k (inbox w) \<and> clock w1 = arrival (clock w) (take k (inbox w))"
  using assms
proof (induction "length (inbox w)" arbitrary: w rule: less_induct)
  case (less w)
  from less.prems obtain p v where p: "stream_recv dl w = (Done p, v)"
    by (auto simp: recv_response_loop.simps [of x dl w] ctx_async_def split: prod.splits outcome.splits)
  then obtain t where v: "inbox w = (t, p) # inbox v" "clock v = max t (clock w)"
    by (auto simp: stream_recv_def Let_def split: list.splits option.splits if_splits)
  consider "w1 = v" | "recv_response_loop x dl v = (Done q, w1)"
    using less.prems p by (auto simp: recv_response_loop.simps [of x dl w] ctx_async_def
        split: sum.splits message.splits option.splits)
  then show ?case
  proof cases
    case 1
    with v show ?thesis by (intro exI [of _ 1]) simp
  next
    case 2
    with less.hyps [of v] v obtain k where "inbox w1 = drop k (inbox v)" "clock w1 = arrival (clock v) (take k (inbox v))"
      by auto
    with v show ?thesis by (intro exI [of _ "Suc k"]) simp
  qed
qed

lemma recv_before_silence:
  assumes "recv_terminal_data_with_timeout x D None w = (Done r, w1)" and "inbox w = pre @ post"
    and "quiet_until (arrival (clock w) pre + D) post"
  shows "clock w \<le> clock w1" and "clock w1 \<le> arrival (clock w) pre + D"
    and "r = Ok ev \<Longrightarrow> \<exists>j. inbox w1 = drop j pre @ post \<and> arrival (clock w1) (drop j pre) = arrival (clock w) pre"
proof -
  have b: "clock w \<le> clock w1" "clock w1 \<le> clock w + D"
    using recv_terminal_data_bounded [of x D w] assms(1) by auto
  with arrival_ge [of "clock w" pre] show "clock w \<le> clock w1" "clock w1 \<le> arrival (clock w) pre + D" by simp_all
  assume "r = Ok ev"
  with assms(1) obtain q where loop: "recv_response_loop x (Some (clock w + D)) w = (Done q, w1)"
    by (auto simp: recv_terminal_data_with_timeout_def recv_terminal_response_def timeout_def bind_async_def ctx_async_def
        Let_def split: prod.splits outcome.splits sum.splits option.splits)
  from recv_response_loop_Done [OF loop] obtain k where
    k: "inbox w1 = drop k (inbox w)" "clock w1 = arrival (clock w) (take k (inbox w))" by blast
  have "fst p \<le> arrival (clock w) pre + D" if "p \<in> set (take k (inbox w))" for p
  proof -
    have "fst p \<le> arrival c ms" if "p \<in> set ms" for c and ms :: "(nat \<times> bytes result) list"
      using that
    proof (induction ms arbitrary: c)
      case (Cons m ms)
      obtain s r where "m = (s, r)" by force
      with Cons arrival_ge [of "max s c" ms] show ?case by auto
    qed simp
    with that k(2) b arrival_ge [of "clock w" pre] show ?thesis by (metis add_le_mono1 order_trans)
  qed
  with taken_before_silence [OF assms(2,3) k(1)] obtain j where
    "inbox w1 = drop j pre @ post" "take k (inbox w) = take j pre" by blast
  with k(2) show "\<exists>j. inbox w1 = drop j pre @ post \<and> arrival (clock w1) (drop j pre) = arrival (clock w) pre"
    by (metis append_take_drop_id arrival_append)
qed

lemma drain_ends:
  assumes "inbox w = pre @ post" and "quiet_until (arrival (clock w) pre + EXEC_PROMPT_DRAIN_TIMEOUT) post"
  shows "\<exists>r w'. drain_loop x tid cmd None w = (Done r, w') \<and> clock w' \<le> arrival (clock w) pre + EXEC_PROMPT_DRAIN_TIMEOUT"
  using assms
proof (induction "length (inbox w)" arbitrary: w pre rule: less_induct)
  case (less w)
  note step = drain_loop.simps [of x tid cmd None w]
  obtain r w1 where r: "recv_terminal_data_with_timeout x EXEC_PROMPT_DRAIN_TIMEOUT None w = (Done r, w1)"
    by (rule recv_terminal_data_bounded)
  note b = recv_before_silence [OF r less.prems]
  show ?case
  proof (cases "\<exists>d. r = Ok (EvData d)")
    case True
    then obtain d where d: "r = Ok (EvData d)" ..
    then have "length (inbox w1) < length (inbox w)" using r by (metis recv_terminal_data_shorter)
    moreover obtain j where "inbox w1 = drop j pre @ post" "arrival (clock w1) (drop j pre) = arrival (clock w) pre"
      using b(3) [OF d] by blast
    ultimately show ?thesis using less.hyps [of w1 "drop j pre"] less.prems(2) r d by (simp add: step)
  next
    case no: False
    with r b show ?thesis by (cases r; cases "projr r") (auto simp: step)
  qed
qed

text \<open>What comes after the prompt is drained takes no longer than the completion timeout.\<close>

definition exec_rest :: "ext \<Rightarrow> serializer \<Rightarrow> string \<Rightarrow> string \<Rightarrow> u64 option \<Rightarrow> bool \<Rightarrow> i32 \<Rightarrow>
    SessionResponse option \<Rightarrow> SessionResponse async" where
  "exec_rest x ser sentinel cmd timeout_secs streaming tid early =
     (case early of
        Some resp \<Rightarrow> return_async resp
      | None \<Rightarrow>
          bind_async (send_terminal_data x tid
            (str_bytes (cmd @ [CHR 0x0A] @ echo_command sentinel @ ''$?'' @ [CHR 0x0A]))) (\<lambda>_.
          bind_async now (\<lambda>t.
          bind_async (collect_loop x ser streaming tid cmd sentinel
              (t + exec_completion_timeout timeout_secs) []) (\<lambda>c.
          case c of
            Answered resp \<Rightarrow> return_async resp
          | Collected acc timed_out \<Rightarrow>
              bind_async (ignore_async (close_terminal x tid)) (\<lambda>_.
              bind_async (set_service None) (\<lambda>_.
              case parse_exec_output (from_utf8_lossy acc) sentinel of (stdout, ec) \<Rightarrow>
                return_async (executed cmd stdout ec timed_out)))))))"

lemma exec_command_inner_split:
  "exec_command_inner x ser nanos cmd timeout_secs streaming =
     bind_async (timeout EXEC_TERMINAL_OPEN_TIMEOUT (open_terminal x 24 80)) (\<lambda>r.
     bind_async (lift_async (case r of None \<Rightarrow> bail ''terminal open timed out'' | Some q \<Rightarrow> q)) (\<lambda>info.
     bind_async (set_service (Some (service_id info))) (\<lambda>_.
     bind_async (drain_loop x (terminal_id info) cmd)
       (exec_rest x ser (sentinel_of nanos) cmd timeout_secs streaming (terminal_id info)))))"
  unfolding exec_command_inner_def exec_rest_def Let_def ..

lemma send_terminal_data_clock:
  obtains r w' where "send_terminal_data x tid d None w = (Done r, w')" and "clock w' = clock w"
proof -
  have "\<exists>r w'. send_terminal_data x tid d None w = (Done r, w') \<and> clock w' = clock w"
    by (auto simp: send_terminal_data_def send_action_def send_message_def stream_send_def bind_async_def ctx_async_def
        split: sum.splits list.splits option.splits)
  then show ?thesis using that by blast
qed

lemma exec_rest_ends:
  "\<exists>r w'. exec_rest x ser s cmd ts streaming tid early None w = (Done r, w') \<and>
     clock w \<le> clock w' \<and> clock w' \<le> clock w + exec_completion_timeout ts"
proof (cases early)
  case None
  obtain r w1 where r: "send_terminal_data x tid (str_bytes (cmd @ [CHR 0x0A] @ echo_command s @ ''$?'' @ [CHR 0x0A])) None w =
      (Done r, w1)" "clock w1 = clock w" by (rule send_terminal_data_clock)
  obtain q w2 where q: "collect_loop x ser streaming tid cmd s (clock w1 + exec_completion_timeout ts) [] None w1 = (Done q, w2)"
    "clock w1 \<le> clock w2" "clock w2 \<le> clock w1 + exec_completion_timeout ts"
    using collect_loop_bounded [of x ser streaming tid cmd s "clock w1 + exec_completion_timeout ts" "[]" w1] by auto
  show ?thesis
  proof (cases r)
    case (Inr u)
    with r q None show ?thesis
      by (cases q; cases "projr q")
        (auto simp: exec_rest_def bind_async_def [of "send_terminal_data x tid d" for d] bind_async_def [of now]
          bind_async_def [of "collect_loop x ser streaming tid cmd s d []" for d] now_def split: prod.splits)
  qed (use r None in \<open>simp add: exec_rest_def bind_async_def\<close>)
qed (simp add: exec_rest_def)

text \<open>Opening the terminal takes at most 15 seconds and nothing that comes after the silence.\<close>

lemma open_before_silence:
  assumes "inbox w = pre @ post" and "quiet_until (arrival (clock w + 15000) pre + D) post"
  obtains r w1 j where "timeout 15000 (open_terminal x 24 80) None w = (Done (Ok r), w1)" and "clock w1 \<le> clock w + 15000"
    and "inbox w1 = drop j pre @ post" and "arrival (clock w1) (drop j pre) \<le> arrival (clock w + 15000) pre"
proof -
  let ?c = "clock w + 15000"
  have wb: "well_behaved (timeout 15000 (open_terminal x 24 80))" by simp
  obtain r w1 where r: "timeout 15000 (open_terminal x 24 80) None w = (Done (Ok r), w1)" "clock w1 \<le> ?c"
    using timeout_ends [of "open_terminal x 24 80" 15000 w] by auto
  from well_behavedD(1) [OF wb r(1)] obtain k where
    k: "inbox w1 = drop k (inbox w)" "\<forall>p\<in>set (take k (inbox w)). fst p \<le> clock w1" by (auto simp: steps_to_def)
  have "?c \<le> arrival ?c pre + D" using arrival_ge [of ?c pre] by simp
  with k(2) r(2) have "\<forall>p\<in>set (take k (inbox w)). fst p \<le> arrival ?c pre + D" by auto
  from taken_before_silence [OF assms k(1) this] obtain j where j: "inbox w1 = drop j pre @ post" by blast
  have "arrival (clock w1) (drop j pre) \<le> arrival (arrival ?c (take j pre)) (drop j pre)"
    using r(2) arrival_ge [of ?c "take j pre"] by (intro arrival_mono) simp
  then have "arrival (clock w1) (drop j pre) \<le> arrival ?c pre" by (metis append_take_drop_id arrival_append)
  with r j that show ?thesis by blast
qed

lemma exec_ends:
  assumes "inbox w = pre @ post" and "quiet_until (arrival (clock w + 15000) pre + EXEC_PROMPT_DRAIN_TIMEOUT) post"
  shows "\<exists>r w'. exec_command_inner x ser nanos cmd ts streaming None w = (Done r, w') \<and>
    clock w' \<le> arrival (clock w + 15000) pre + EXEC_PROMPT_DRAIN_TIMEOUT + exec_completion_timeout ts"
proof -
  let ?c = "clock w + 15000"
  have open_time: "EXEC_TERMINAL_OPEN_TIMEOUT = 15000" by (simp add: EXEC_TERMINAL_OPEN_TIMEOUT_def)
  obtain r w1 j where r: "timeout 15000 (open_terminal x 24 80) None w = (Done (Ok r), w1)" "clock w1 \<le> ?c"
    and j: "inbox w1 = drop j pre @ post" and le: "arrival (clock w1) (drop j pre) \<le> arrival ?c pre"
    by (rule open_before_silence [OF assms])
  show ?thesis
  proof (cases "\<exists>info. r = Some (Ok info)")
    case True
    then obtain info where info: "r = Some (Ok info)" ..
    let ?w = "w1\<lparr>active_service_id := Some (service_id info)\<rparr>"
    from drain_ends [of ?w "drop j pre" post x "terminal_id info" cmd] j quiet_until_mono [OF assms(2)] le
    obtain q w2 where q: "drain_loop x (terminal_id info) cmd None ?w = (Done q, w2)"
      "clock w2 \<le> arrival ?c pre + EXEC_PROMPT_DRAIN_TIMEOUT" by fastforce
    with r info exec_rest_ends [of x ser "sentinel_of nanos" cmd ts streaming "terminal_id info" "projr q" w2]
    show ?thesis by (cases q) (fastforce simp: exec_command_inner_split open_time bind_async_def set_service_def)+
  next
    case False
    with r arrival_ge [of ?c pre] show ?thesis
      by (cases r; cases "the r") (auto simp: exec_command_inner_split open_time bind_async_def bail_def)
  qed
qed

definition chunk_lines :: "serializer \<Rightarrow> bool \<Rightarrow> bytes list \<Rightarrow> bytes list" where
  "chunk_lines ser streaming ds =
     (if streaming then map (\<lambda>d. ser (exec_output_chunk_response d) @ [10]) ds else [])"

text \<open>The sentinel with its digit appears with the last chunk and not before.\<close>

definition appears_last :: "string \<Rightarrow> bytes \<Rightarrow> bytes list \<Rightarrow> bool" where
  "appears_last s acc ds \<longleftrightarrow> ds \<noteq> [] \<and> find_sentinel_output (from_utf8_lossy (acc @ concat ds)) s \<noteq> None \<and>
     list_all (\<lambda>k. find_sentinel_output (from_utf8_lossy (acc @ concat (take k ds))) s = None) [1..<length ds]"

lemma appears_last_Cons:
  assumes "appears_last s acc (d # ds)"
  shows "find_sentinel_output (from_utf8_lossy (acc @ d)) s = None \<longleftrightarrow> ds \<noteq> []"
    and "ds \<noteq> [] \<Longrightarrow> appears_last s (acc @ d) ds"
proof -
  have k: "find_sentinel_output (from_utf8_lossy (acc @ d @ concat (take k ds))) s = None"
    if "k < length ds" for k
  proof -
    have "\<forall>j\<in>set [1..<length (d # ds)]. find_sentinel_output (from_utf8_lossy (acc @ concat (take j (d # ds)))) s = None"
      using assms unfolding appears_last_def list_all_iff by blast
    moreover have "Suc k \<in> set [1..<length (d # ds)]" using that by (simp del: upt_Suc)
    ultimately have "find_sentinel_output (from_utf8_lossy (acc @ concat (take (Suc k) (d # ds)))) s = None"
      by (rule bspec)
    then show ?thesis by simp
  qed
  show "find_sentinel_output (from_utf8_lossy (acc @ d)) s = None \<longleftrightarrow> ds \<noteq> []"
    using assms k [of 0] by (cases ds) (auto simp: appears_last_def)
  show "appears_last s (acc @ d) ds" if "ds \<noteq> []"
    using assms that k unfolding appears_last_def list_all_iff by auto
qed

lemma collect_run:
  assumes "list_all2 (is_chunk x) chunks ds" and "inbox w = chunks @ rest"
    and "appears_last s acc ds" and "arrival (clock w) chunks < deadline" and "uds_faults w = []"
  shows "collect_loop x ser streaming tid cmd s deadline acc None w = (Done (Ok (Collected (acc @ concat ds) False)),
    w\<lparr>clock := arrival (clock w) chunks, inbox := rest, uds_out := uds_out w @ chunk_lines ser streaming ds\<rparr>)"
  using assms
proof (induction chunks ds arbitrary: w acc rule: list_all2_induct)
  case Nil
  then show ?case by (simp add: appears_last_def)
next
  case (Cons m ms d ds)
  obtain t r where m: "m = (t, r)" by force
  have clk: "max t (clock w) \<le> arrival (clock w) (m # ms)"
    using arrival_ge [of "max t (clock w)" ms] by (simp add: m)
  with Cons.prems m have t: "clock w < deadline" "t \<le> clock w + (deadline - clock w)" by auto
  let ?w1 = "w\<lparr>clock := max t (clock w), inbox := ms @ rest, uds_out := uds_out w @ chunk_lines ser streaming [d]\<rparr>"
  have "(if streaming then write_json_line ser (exec_output_chunk_response d) else return_async ()) None
      (w\<lparr>clock := max t (clock w), inbox := ms @ rest\<rparr>) = (Done (Ok ()), ?w1)"
    using Cons.prems(4) by (simp add: write_json_line_def uds_write_def chunk_lines_def)
  with Cons.prems Cons.hyps t m recv_terminal_data_chunk [of w m "ms @ rest" x d "deadline - clock w"]
  have step: "collect_loop x ser streaming tid cmd s deadline acc None w =
      (if ds \<noteq> [] then collect_loop x ser streaming tid cmd s deadline (acc @ d) None ?w1
       else (Done (Ok (Collected (acc @ d) False)), ?w1))"
    using appears_last_Cons(1) [OF Cons.prems(2)]
    by (cases "ds = []") (auto simp: collect_loop.simps [of x ser streaming tid cmd s deadline acc None w] Let_def)
  show ?case
  proof (cases "ds = []")
    case True
    with Cons.hyps step m show ?thesis by (simp add: chunk_lines_def)
  next
    case False
    with step Cons.IH [of ?w1 "acc @ d"] Cons.prems m appears_last_Cons(2) [OF Cons.prems(2)]
    show ?thesis by (simp add: chunk_lines_def)
  qed
qed

lemma open_run:
  assumes "inbox w = (t, Ok raw) # rest" and "dec_msg x raw = Ok (MTerminalResponse (Some (ROpened op)))"
    and "op_success op" and "faults w = []" and "t \<le> clock w + 15000"
  shows "timeout EXEC_TERMINAL_OPEN_TIMEOUT (open_terminal x 24 80) None w =
    (Done (Ok (Some (Ok \<lparr>terminal_id = op_terminal_id op, pid = op_pid op, service_id = op_service_id op\<rparr>))),
     w\<lparr>clock := max t (clock w), inbox := rest,
       outbox := outbox w @ [enc_msg x (MTerminalAction (Some (TOpen 0 24 80)))]\<rparr>)"
  using assms
  by (simp add: open_terminal_def recv_terminal_response_def timeout_def bind_async_def ctx_async_def
      send_action_def send_message_def stream_send_def recv_loop_hit terminal_info_from_opened_def Let_def
      EXEC_TERMINAL_OPEN_TIMEOUT_def OPEN_TERMINAL_TIMEOUT_def TERMINAL_RESPONSE_TIMEOUT_def)

section \<open>Properties\<close>

text \<open>
  C21. Parsing the collected output. When the sentinel occurs only in the echoed echo command and where
  \<^verbatim>\<open>echo\<close> prints it, \<^verbatim>\<open>parse_exec_output\<close> returns exactly the whole lines the command printed
  (without the line ends at their end) and the number after the sentinel. An unfinished last line of the
  output, which the sentinel then follows on the same line, is not part of the result.
\<close>

theorem parse_exec_output_correct:
  assumes "sentinel_fresh s pre eol full part ds tail" and "output_shape eol full part ds tail"
  shows "parse_exec_output (exec_raw s pre eol full part ds tail) s =
    (trim_end_matches [CHR 0x0D, CHR 0x0A] full, case parse_i32 ds of Some c \<Rightarrow> c | None \<Rightarrow> - 1)"
  using assms by (rule parse_exec_output_raw)

theorem parse_exec_output_correct_witness:
  "parse_exec_output (exec_raw ''__S__'' ''ls'' [CHR 0x0A] (''a'' @ [CHR 0x0A]) ''lost'' ''127'' [CHR 0x0A]) ''__S__'' =
     (trim_end_matches [CHR 0x0D, CHR 0x0A] (''a'' @ [CHR 0x0A]), case parse_i32 ''127'' of Some c \<Rightarrow> c | None \<Rightarrow> - 1)"
  by (rule parse_exec_output_correct)
    (simp_all add: sentinel_fresh_def exec_raw_def echo_command_def output_shape_def upt_conv_Cons
      starts_with_def is_ascii_digit_def starts_with_digit_def)

lemma exec_waits:
  assumes "inbox w = (ot, Ok rawo) # prompts @ post" and "faults w = []"
    and "dec_msg x rawo = Ok (MTerminalResponse (Some (ROpened op)))" and "op_success op" and "ot \<le> clock w + 15000"
    and "list_all2 (is_chunk x) prompts ps" and "paced (max ot (clock w)) EXEC_PROMPT_DRAIN_TIMEOUT prompts"
    and "quiet_until (arrival (max ot (clock w)) prompts + EXEC_PROMPT_DRAIN_TIMEOUT) post"
    and "exec_command_inner x ser nanos cmd ts streaming None w = (Done r, w')"
  shows "arrival (max ot (clock w)) prompts + EXEC_PROMPT_DRAIN_TIMEOUT \<le> clock w'"
proof -
  let ?w = "w\<lparr>clock := max ot (clock w), inbox := prompts @ post,
    outbox := outbox w @ [enc_msg x (MTerminalAction (Some (TOpen 0 24 80)))], active_service_id := Some (op_service_id op)\<rparr>"
  let ?w2 = "?w\<lparr>clock := arrival (max ot (clock w)) prompts + EXEC_PROMPT_DRAIN_TIMEOUT, inbox := post\<rparr>"
  have "drain_loop x (op_terminal_id op) cmd None ?w = (Done (Ok None), ?w2)"
    using drain_run [OF assms(6), of ?w post "op_terminal_id op" cmd] assms(7,8) by simp
  then have "exec_command_inner x ser nanos cmd ts streaming None w =
      exec_rest x ser (sentinel_of nanos) cmd ts streaming (op_terminal_id op) None None ?w2"
    using open_run [OF assms(1,3,4,2,5)]
    by (simp add: exec_command_inner_split bind_async_def set_service_def)
  with assms(9) exec_rest_ends [of x ser "sentinel_of nanos" cmd ts streaming "op_terminal_id op" None ?w2]
  show ?thesis by auto
qed

text \<open>The terminal opens with the first message and then prints something every \<open>d\<close> milliseconds or faster, until \<open>t\<close>.\<close>

definition keeps_printing :: "ext \<Rightarrow> net \<Rightarrow> nat \<Rightarrow> (nat \<times> bytes result) list \<Rightarrow> nat \<Rightarrow> bool" where
  "keeps_printing x w d pre t \<longleftrightarrow> (\<exists>ot rawo op prompts ps. pre = (ot, Ok rawo) # prompts \<and> faults w = [] \<and>
     dec_msg x rawo = Ok (MTerminalResponse (Some (ROpened op))) \<and> op_success op \<and> ot \<le> clock w + 15000 \<and>
     list_all2 (is_chunk x) prompts ps \<and> paced (max ot (clock w)) d prompts \<and> t = arrival (max ot (clock w)) prompts)"


lemma exec_peer_run:
  assumes w: "inbox w = (ot, Ok rawo) # prompts @ chunks @ later" "faults w = []" "uds_faults w = []"
    and opened: "dec_msg x rawo = Ok (MTerminalResponse (Some (ROpened op)))" "op_success op"
      "ot \<le> clock w + 15000"
    and prompts: "list_all2 (is_chunk x) prompts ps" "paced (max ot (clock w)) 2000 prompts"
      "quiet_until (arrival (max ot (clock w)) prompts + 2000) (chunks @ later)"
    and chunks: "list_all2 (is_chunk x) chunks cs" "appears_last (sentinel_of nanos) [] cs"
      "arrival (arrival (max ot (clock w)) prompts + 2000) chunks
         < arrival (max ot (clock w)) prompts + 2000 + exec_completion_timeout ts"
    and outp: "from_utf8_lossy (concat cs) = exec_raw (sentinel_of nanos) pre eol full part ds tail"
      "sentinel_fresh (sentinel_of nanos) pre eol full part ds tail" "output_shape eol full part ds tail"
    and short: "length cmd \<le> 900"
  shows "\<exists>w'. exec_command_inner x ser nanos cmd ts streaming None w =
      (Done (Ok (executed cmd (trim_end_matches [CHR 0x0D, CHR 0x0A] full)
         (case parse_i32 ds of Some c \<Rightarrow> c | None \<Rightarrow> - 1) False)), w') \<and>
    sends x w w' [MTerminalAction (Some (TOpen 0 24 80)),
      MTerminalAction (Some (TData (op_terminal_id op)
        (str_bytes (cmd @ [CHR 0x0A] @ echo_command (sentinel_of nanos) @ ''$?'' @ [CHR 0x0A])) False)),
      MTerminalAction (Some (TClose (op_terminal_id op)))] \<and>
    inbox w' = later \<and> active_service_id w' = None \<and>
    uds_out w' = uds_out w @ chunk_lines ser streaming cs \<and> uds_faults w' = []"
proof -
  let ?s = "sentinel_of nanos" and ?c1 = "max ot (clock w)" and ?tid = "op_terminal_id op"
  let ?c2 = "arrival ?c1 prompts + 2000"
  define typed where "typed = str_bytes (cmd @ [CHR 0x0A] @ echo_command ?s @ ''$?'' @ [CHR 0x0A])"
  define info where "info = \<lparr>terminal_id = ?tid, pid = op_pid op, service_id = op_service_id op\<rparr>"
  define w0 where "w0 = w\<lparr>clock := ?c1, inbox := prompts @ chunks @ later,
      outbox := outbox w @ [enc_msg x (MTerminalAction (Some (TOpen 0 24 80)))]\<rparr>"
  define w1 where "w1 = w0\<lparr>active_service_id := Some (service_id info)\<rparr>"
  define w2 where "w2 = w1\<lparr>clock := ?c2, inbox := chunks @ later\<rparr>"
  define w3 where "w3 = w2\<lparr>outbox := outbox w2 @ [enc_msg x (MTerminalAction (Some (TData ?tid typed False)))]\<rparr>"
  define w4 where "w4 = w3\<lparr>clock := arrival ?c2 chunks, inbox := later,
      uds_out := uds_out w3 @ chunk_lines ser streaming cs\<rparr>"
  note ws = w0_def w1_def w2_def w3_def w4_def
  have run: "timeout EXEC_TERMINAL_OPEN_TIMEOUT (open_terminal x 24 80) None w = (Done (Ok (Some (Ok info))), w0)"
    using open_run [OF w(1) opened(1,2) w(2) opened(3)] by (simp add: ws info_def)
  have drain: "drain_loop x ?tid cmd None w1 = (Done (Ok None), w2)"
    using drain_run [OF prompts(1), of w1 "chunks @ later" ?tid cmd] prompts(2,3)
    by (simp add: ws EXEC_PROMPT_DRAIN_TIMEOUT_def)
  have "length typed \<le> 1024"
    using short by (simp add: typed_def echo_command_def sentinel_of_def str_bytes_def length_hex_digits)
  then have send: "send_terminal_data x ?tid typed None w2 = (Done (Ok ()), w3)"
    using w by (simp add: send_terminal_data_def COMPRESS_THRESHOLD_def bind_async_def ctx_async_def
        send_action_def send_message_def stream_send_def ws)
  have clk: "now None w3 = (Done (Ok ?c2), w3)" by (simp add: now_def ws)
  have collect: "collect_loop x ser streaming ?tid cmd ?s (?c2 + exec_completion_timeout ts) [] None w3 =
      (Done (Ok (Collected (concat cs) False)), w4)"
    using collect_run [OF chunks(1), of w3 later ?s "[]" "?c2 + exec_completion_timeout ts" ser streaming ?tid cmd]
      chunks(2,3) w by (simp add: ws)
  have info: "terminal_id info = ?tid" by (simp add: info_def)
  note binds = bind_Done [of "timeout EXEC_TERMINAL_OPEN_TIMEOUT (open_terminal x 24 80)", OF run]
    bind_Done [of "drain_loop x ?tid cmd", OF drain] bind_Done [of "send_terminal_data x ?tid typed", OF send]
    bind_Done [of now, OF clk]
    bind_Done [of "collect_loop x ser streaming ?tid cmd ?s (?c2 + exec_completion_timeout ts) []", OF collect]
  have "exec_command_inner x ser nanos cmd ts streaming None w =
      (Done (Ok (executed cmd (trim_end_matches [CHR 0x0D, CHR 0x0A] full)
         (case parse_i32 ds of Some c \<Rightarrow> c | None \<Rightarrow> - 1) False)),
       (after_close x ?tid w4)\<lparr>active_service_id := None\<rparr>)"
    unfolding exec_command_inner_def Let_def typed_def [symmetric]
    by (simp add: binds bind_async_def [of "lift_async _"] w1_def [symmetric] info outp(1)
        parse_exec_output_raw [OF outp(2,3)])
  moreover have "outbox (after_close x ?tid w4) = outbox w4 @ [enc_msg x (MTerminalAction (Some (TClose ?tid)))]"
    using w by (simp add: after_close_def close_terminal_def ctx_async_def send_action_def send_message_def
        stream_send_def ws)
  moreover have "uds_faults (after_close x ?tid w4) = []"
    using w by (simp add: after_close_def close_terminal_def ctx_async_def send_action_def send_message_def
        stream_send_def ws)
  ultimately show ?thesis unfolding typed_def [symmetric] by (simp add: sends_def ws)
qed

text \<open>
  Exec against a peer that answers. The peer opens the terminal in time, prints a prompt and goes
  quiet, and then prints the echoed commands, the output and the sentinel line, in any number of chunks
  of which the last completes the sentinel, before the deadline. Then \<^verbatim>\<open>exec_command_inner\<close> answers with
  the output and the exit code, not timed out, has sent exactly the open request, the command with the
  echo, and the close request, forgets the service id, and leaves everything after the last chunk unread;
  when streaming, each chunk was forwarded to the command line program in order.
\<close>

theorem exec_against_peer:
  assumes w: "inbox w = (ot, Ok rawo) # prompts @ chunks @ later" "faults w = []" "uds_faults w = []"
    and opened: "dec_msg x rawo = Ok (MTerminalResponse (Some (ROpened op)))" "op_success op"
      "ot \<le> clock w + 15000"
    and prompts: "list_all2 (is_chunk x) prompts ps" "paced (max ot (clock w)) 2000 prompts"
      "quiet_until (arrival (max ot (clock w)) prompts + 2000) (chunks @ later)"
    and chunks: "list_all2 (is_chunk x) chunks cs" "appears_last (sentinel_of nanos) [] cs"
      "arrival (arrival (max ot (clock w)) prompts + 2000) chunks
         < arrival (max ot (clock w)) prompts + 2000 + exec_completion_timeout ts"
    and outp: "from_utf8_lossy (concat cs) = exec_raw (sentinel_of nanos) pre eol full part ds tail"
      "sentinel_fresh (sentinel_of nanos) pre eol full part ds tail" "output_shape eol full part ds tail"
    and short: "length cmd \<le> 900"
  shows "\<exists>w'. exec_command_inner x ser nanos cmd ts streaming None w =
      (Done (Ok (executed cmd (trim_end_matches [CHR 0x0D, CHR 0x0A] full)
         (case parse_i32 ds of Some c \<Rightarrow> c | None \<Rightarrow> - 1) False)), w') \<and>
    sends x w w' [MTerminalAction (Some (TOpen 0 24 80)),
      MTerminalAction (Some (TData (op_terminal_id op)
        (str_bytes (cmd @ [CHR 0x0A] @ echo_command (sentinel_of nanos) @ ''$?'' @ [CHR 0x0A])) False)),
      MTerminalAction (Some (TClose (op_terminal_id op)))] \<and>
    inbox w' = later \<and> active_service_id w' = None \<and>
    uds_out w' = uds_out w @ chunk_lines ser streaming cs"
  using exec_peer_run [OF assms, of ser streaming] by blast

text \<open>The witness: a peer that prints \<open>hi\<close> for the command \<open>echo hi\<close>, in two chunks.\<close>

definition demo_s :: string where "demo_s = sentinel_of 0"

definition demo_chunk1 :: bytes where
  "demo_chunk1 = str_bytes (''echo hi'' @ [CHR 0x0A] @ echo_command demo_s @ ''$?'' @ [CHR 0x0A])"

definition demo_chunk2 :: bytes where
  "demo_chunk2 = str_bytes (''hi'' @ [CHR 0x0A] @ demo_s @ ''0'' @ [CHR 0x0A])"

definition exec_ext :: ext where
  "exec_ext = table_ext [([1], MTerminalResponse (Some (ROpened opened3))),
     ([5], MTerminalResponse (Some (RData 3 demo_chunk1 False))),
     ([6], MTerminalResponse (Some (RData 3 demo_chunk2 False)))]"

lemma demo_fresh: "sentinel_fresh demo_s (''echo hi'' @ [CHR 0x0A]) [CHR 0x0A] (''hi'' @ [CHR 0x0A]) [] ''0'' [CHR 0x0A]"
  by code_simp

lemma str_bytes_app: "str_bytes a @ str_bytes b = str_bytes (a @ b)"
  by (simp add: str_bytes_def)

lemma demo_lossy: "from_utf8_lossy (demo_chunk1 @ demo_chunk2) =
    exec_raw demo_s (''echo hi'' @ [CHR 0x0A]) [CHR 0x0A] (''hi'' @ [CHR 0x0A]) [] ''0'' [CHR 0x0A]"
proof -
  have "list_all (\<lambda>c. chr_code c < (128 :: nat))
      (exec_raw demo_s (''echo hi'' @ [CHR 0x0A]) [CHR 0x0A] (''hi'' @ [CHR 0x0A]) [] ''0'' [CHR 0x0A])"
    by code_simp
  from from_utf8_lossy_str [OF this] show ?thesis
    by (simp add: demo_chunk1_def demo_chunk2_def str_bytes_app exec_raw_def)
qed

lemma demo_lossy1: "from_utf8_lossy demo_chunk1 =
    ''echo hi'' @ [CHR 0x0A] @ echo_command demo_s @ ''$?'' @ [CHR 0x0A]"
proof -
  have "list_all (\<lambda>c. chr_code c < (128 :: nat))
      (''echo hi'' @ [CHR 0x0A] @ echo_command demo_s @ ''$?'' @ [CHR 0x0A])"
    by code_simp
  from from_utf8_lossy_str [OF this] show ?thesis by (simp add: demo_chunk1_def)
qed

lemma demo_none: "find_sentinel_output (''echo hi'' @ [CHR 0x0A] @ echo_command demo_s @ ''$?'' @ [CHR 0x0A]) demo_s = None"
  by code_simp

lemma demo_shape: "output_shape [CHR 0x0A] (''hi'' @ [CHR 0x0A]) [] ''0'' [CHR 0x0A]"
  by (simp add: output_shape_def is_ascii_digit_def starts_with_digit_def)

lemma demo_appears: "appears_last demo_s [] [demo_chunk1, demo_chunk2]"
  using find_sentinel_exec_raw [OF demo_fresh demo_shape] demo_none
  by (simp add: appears_last_def demo_lossy demo_lossy1)

lemma exec_ext_decodes:
  "dec_msg exec_ext [1] = Ok (MTerminalResponse (Some (ROpened opened3)))"
  "dec_msg exec_ext [5] = Ok (MTerminalResponse (Some (RData 3 demo_chunk1 False)))"
  "dec_msg exec_ext [6] = Ok (MTerminalResponse (Some (RData 3 demo_chunk2 False)))"
  by (simp_all add: exec_ext_def table_ext_def)

theorem exec_against_peer_witness:
  "\<exists>w'. exec_command_inner exec_ext (\<lambda>_. []) 0 ''echo hi'' None False None
       (net_start [(10, Ok [1]), (3000, Ok [5]), (3100, Ok [6])]) =
      (Done (Ok (executed ''echo hi'' (trim_end_matches [CHR 0x0D, CHR 0x0A] (''hi'' @ [CHR 0x0A]))
         (case parse_i32 ''0'' of Some c \<Rightarrow> c | None \<Rightarrow> - 1) False)), w')"
proof -
  let ?w = "net_start [(10, Ok [1]), (3000, Ok [5]), (3100, Ok [6])]"
  have "list_all2 (is_chunk exec_ext) [(3000, Ok [5]), (3100, Ok [6])] [demo_chunk1, demo_chunk2]"
    by (simp add: is_chunk_def exec_ext_decodes terminal_event_def)
  from exec_against_peer [where x = exec_ext and w = ?w and prompts = "[]" and ps = "[]"
      and chunks = "[(3000, Ok [5]), (3100, Ok [6])]" and later = "[]" and op = opened3 and rawo = "[1]"
      and nanos = 0 and ser = "\<lambda>_. []" and ts = None and cmd = "''echo hi''", OF _ _ _ _ _ _ _ _ _ this
      demo_appears [unfolded demo_s_def] _ _ demo_fresh [unfolded demo_s_def] demo_shape]
  show ?thesis
    by (simp add: exec_ext_decodes opened3_def quiet_until_def exec_completion_timeout_def
        DEFAULT_EXEC_COMPLETION_TIMEOUT_def demo_lossy demo_s_def [symmetric]) blast
qed

text \<open>
  The first digit ends the collection. As soon as the collected text has the sentinel followed by
  one digit, collecting stops and the rest of the line is not waited for: when the exit code's digits are
  split over two messages, the exit code reported is the first part of it.
\<close>

theorem exec_stops_at_first_digit:
  assumes "list_all2 (is_chunk x) chunks cs" and "appears_last s [] cs"
    and "inbox w = chunks @ rest" and "uds_faults w = []" and "arrival (clock w) chunks < deadline"
    and "from_utf8_lossy (concat cs) = exec_raw s pre eol full part ds []"
    and "sentinel_fresh s pre eol full part ds []" and "output_shape eol full part ds []"
  shows "\<exists>w'. collect_loop x ser streaming tid cmd s deadline [] None w =
      (Done (Ok (Collected (concat cs) False)), w') \<and> inbox w' = rest \<and>
    snd (parse_exec_output (from_utf8_lossy (concat cs)) s) =
      (case parse_i32 ds of Some c \<Rightarrow> c | None \<Rightarrow> - 1)"
  using collect_run [OF assms(1,3,2,5,4), of ser streaming tid cmd] parse_exec_output_raw [OF assms(7,8)] assms(6)
  by simp

definition split_chunk :: bytes where
  "split_chunk = str_bytes (''false'' @ [CHR 0x0A] @ echo_command ''__S__'' @ ''$?'' @ [CHR 0x0A] @ ''__S__1'')"

definition split_ext :: ext where
  "split_ext = table_ext [([7], MTerminalResponse (Some (RData 3 split_chunk False))),
     ([8], MTerminalResponse (Some (RData 3 [50, 55, 10] False)))]"

lemma split_lossy: "from_utf8_lossy split_chunk =
    exec_raw ''__S__'' (''false'' @ [CHR 0x0A]) [CHR 0x0A] [] [] ''1'' []"
proof -
  have "list_all (\<lambda>c. chr_code c < (128 :: nat))
      (exec_raw ''__S__'' (''false'' @ [CHR 0x0A]) [CHR 0x0A] [] [] ''1'' [])"
    by (simp add: exec_raw_def echo_command_def)
  from from_utf8_lossy_str [OF this] show ?thesis
    by (simp add: split_chunk_def exec_raw_def)
qed

lemma split_fresh: "sentinel_fresh ''__S__'' (''false'' @ [CHR 0x0A]) [CHR 0x0A] [] [] ''1'' []"
  by (simp add: sentinel_fresh_def exec_raw_def echo_command_def upt_conv_Cons starts_with_def)

lemma split_shape: "output_shape [CHR 0x0A] [] [] ''1'' []"
  by (simp add: output_shape_def is_ascii_digit_def starts_with_digit_def)

theorem exec_stops_at_first_digit_witness:
  "\<exists>w'. collect_loop split_ext (\<lambda>_. []) False 3 ''false'' ''__S__'' 1000 [] None
       (net_start [(10, Ok [7]), (11, Ok [8])]) = (Done (Ok (Collected (concat [split_chunk]) False)), w') \<and>
     inbox w' = [(11, Ok [8])] \<and>
     snd (parse_exec_output (from_utf8_lossy (concat [split_chunk])) ''__S__'') =
       (case parse_i32 ''1'' of Some c \<Rightarrow> c | None \<Rightarrow> - 1)"
proof (rule exec_stops_at_first_digit)
  show "list_all2 (is_chunk split_ext) [(10, Ok [7])] [split_chunk]"
    by (simp add: is_chunk_def split_ext_def table_ext_def terminal_event_def)
  show "appears_last ''__S__'' [] [split_chunk]"
    using find_sentinel_exec_raw [OF split_fresh split_shape] by (simp add: appears_last_def split_lossy)
  show "from_utf8_lossy (concat [split_chunk]) = exec_raw ''__S__'' (''false'' @ [CHR 0x0A]) [CHR 0x0A] [] [] ''1'' []"
    by (simp add: split_lossy)
qed (simp_all add: split_fresh split_shape del: append_Cons append_Nil)

text \<open>A terminal that prints once a second for \<open>n\<close> seconds: the exec takes longer, for every \<open>n\<close>.\<close>

definition ticking :: "nat \<Rightarrow> nat \<Rightarrow> (nat \<times> bytes result) list" where
  "ticking k n = map (\<lambda>i. (1000 * i, Ok [5])) [Suc k..<Suc k + n]"

lemma ticking_paced:
  "paced (1000 * k) 2000 (ticking k n) \<and> arrival (1000 * k) (ticking k n) = 1000 * (k + n)"
proof (induction n arbitrary: k)
  case (Suc n)
  have "ticking k (Suc n) = (1000 * Suc k, Ok [5]) # ticking (Suc k) n"
    by (simp add: ticking_def upt_conv_Cons del: upt_Suc)
  with Suc [of "Suc k"] show ?case by (simp add: max_def)
qed (simp_all add: ticking_def)


end
