(* ===== verification/Text_Session.thy ===== *)
theory Text_Session
  imports Connection Exec
begin

text \<open>
  \<^verbatim>\<open>src/text_session.rs\<close>: a text session is a connection in the default mode with a terminal on it. Commands are
  typed into that terminal and their output is whatever comes until the terminal has been quiet for a given time.
\<close>

section \<open>Operations\<close>

record TextSession =
  ts_peer_info :: HbbPeerInfo
  ts_terminal :: TerminalInfo

record ExecOutput =
  eo_data :: bytes
  eo_closed :: "i32 option"

definition exec_output_as_str :: "ExecOutput \<Rightarrow> string" where
  "exec_output_as_str o1 = from_utf8_lossy (eo_data o1)"

definition text_option_message :: OptionMessage where
  "text_option_message = \<lparr>image_quality = QLow, lock_after_session_end = NotSet,
     show_remote_cursor = NotSet, privacy_mode = NotSet, block_input = NotSet, custom_image_quality = 0,
     disable_audio = Yes, disable_clipboard = NotSet, enable_file_transfer = NotSet,
     supported_decoding = None, custom_fps = 0, disable_keyboard = NotSet, follow_remote_cursor = NotSet,
     follow_remote_window = NotSet, disable_camera = Yes, terminal_persistent = Yes,
     show_my_cursor = NotSet\<rparr>"

definition text_send_option_message :: "ext \<Rightarrow> unit async" where
  "text_send_option_message x =
     ctx_async ''sending OptionMessage'' (send_message x (MMisc (Some (MiscOption text_option_message))))"

definition text_connect :: "conn_env \<Rightarrow> entropy \<Rightarrow> unit result \<Rightarrow> PeerConfig \<Rightarrow> TextSession wio" where
  "text_connect env ent bound cfg =
     bind_async (ctx_async ''connection failed'' (connect env ent bound cfg)) (\<lambda>peer_info.
     bind_async (on_stream (text_send_option_message (ce_ext env))) (\<lambda>_.
     bind_async (on_stream (ctx_async ''failed to open terminal'' (open_terminal (ce_ext env) 24 80))) (\<lambda>terminal.
     return_async \<lparr>ts_peer_info = peer_info, ts_terminal = terminal\<rparr>)))"

lemma timeout_recv_data_shorter:
  "timeout d (recv_terminal_data x) dl w = (Done (Ok (Some (Ok ev))), w') \<Longrightarrow> length (inbox w') < length (inbox w)"
  by (auto simp: timeout_def Let_def recv_terminal_data_def split: prod.splits outcome.splits option.splits if_splits
      dest!: recv_terminal_data_shorter [OF sym])

function text_collect :: "ext \<Rightarrow> nat \<Rightarrow> bytes \<Rightarrow> ExecOutput async" where
  "text_collect x idle_timeout acc dl w =
     bind_async (timeout idle_timeout (recv_terminal_data x)) (\<lambda>r dl w1.
       case r of
         Some (Inr (EvData chunk)) \<Rightarrow> text_collect x idle_timeout (acc @ chunk) dl w1
       | Some (Inr (EvClosed exit_code)) \<Rightarrow> (Done (Ok \<lparr>eo_data = acc, eo_closed = Some exit_code\<rparr>), w1)
       | Some (Inr (EvError msg)) \<Rightarrow> (Done (bail (''terminal error during exec: '' @ msg)), w1)
       | Some (Inl e) \<Rightarrow> (Done (with_ctx ''receiving terminal output'' (Err e)), w1)
       | None \<Rightarrow> (Done (Ok \<lparr>eo_data = acc, eo_closed = None\<rparr>), w1)) dl w"
  by pat_completeness auto
termination
  by (relation "measure (\<lambda>(x, idle, acc, dl, w). length (inbox w))") (auto dest: timeout_recv_data_shorter)

declare text_collect.simps [simp del]

definition text_exec :: "ext \<Rightarrow> TextSession \<Rightarrow> string \<Rightarrow> nat \<Rightarrow> ExecOutput async" where
  "text_exec x session command idle_timeout =
     (let cmd = (if ends_with command [CHR 0x0A] then command else command @ [CHR 0x0A]) in
      bind_async (ctx_async ''sending command''
        (send_terminal_data x (terminal_id (ts_terminal session)) (str_bytes cmd))) (\<lambda>_.
      text_collect x idle_timeout []))"

definition text_disconnect :: "ext \<Rightarrow> TextSession \<Rightarrow> unit async" where
  "text_disconnect x session =
     bind_async (ctx_async ''closing terminal'' (close_terminal x (terminal_id (ts_terminal session)))) (\<lambda>_.
     bind_async (ctx_async ''closing transport'' stream_close) (\<lambda>_.
     return_async ()))"

section \<open>Collecting\<close>

lemma timeout_recv_chunk:
  assumes "inbox w = m # rest" and "is_chunk x m d" and "fst m \<le> clock w + idle" and "idle < TERMINAL_RESPONSE_TIMEOUT"
  shows "timeout idle (recv_terminal_data x) None w =
    (Done (Ok (Some (Ok (EvData d)))), w\<lparr>clock := max (fst m) (clock w), inbox := rest\<rparr>)"
proof -
  obtain t raw resp where m: "m = (t, Ok raw)" "dec_msg x raw = Ok (MTerminalResponse (Some resp))"
    "terminal_event x resp = Ok (EvData d)"
    using assms(2) by (auto simp: is_chunk_def split: prod.splits sum.splits message.splits option.splits)
  from recv_loop_hit [of w t raw rest x resp "clock w + idle"] assms m show ?thesis
    by (simp add: timeout_def recv_terminal_data_def recv_terminal_data_with_timeout_def recv_terminal_response_def
        bind_async_def ctx_async_def lift_async_def min_def)
qed

lemma timeout_recv_silence:
  assumes "quiet_until (clock w + idle) (inbox w)" and "idle < TERMINAL_RESPONSE_TIMEOUT"
  shows "timeout idle (recv_terminal_data x) None w = (Done (Ok None), w\<lparr>clock := clock w + idle\<rparr>)"
proof -
  have "case inbox w of [] \<Rightarrow> True | (t, _) # _ \<Rightarrow> clock w + idle < max t (clock w)"
    using assms(1) by (auto simp: quiet_until_def split: list.splits)
  from recv_loop_late [OF this, of x] assms(2) show ?thesis
    by (simp add: timeout_def recv_terminal_data_def recv_terminal_data_with_timeout_def recv_terminal_response_def
        bind_async_def ctx_async_def lift_async_def min_def)
qed

lemma timeout_recv_long:
  assumes "quiet_until (clock w + TERMINAL_RESPONSE_TIMEOUT) (inbox w)" and "TERMINAL_RESPONSE_TIMEOUT \<le> idle"
  shows "\<exists>e. timeout idle (recv_terminal_data x) None w =
    (Done (Ok (Some (Err e))), w\<lparr>clock := clock w + TERMINAL_RESPONSE_TIMEOUT\<rparr>)"
proof -
  let ?d = "clock w + TERMINAL_RESPONSE_TIMEOUT"
  have "case inbox w of [] \<Rightarrow> True | (t, _) # _ \<Rightarrow> ?d < max t (clock w)"
    using assms(1) by (auto simp: quiet_until_def split: list.splits)
  from recv_loop_late [OF this, of x]
  have "timeout TERMINAL_RESPONSE_TIMEOUT (recv_response_loop x) (Some (clock w + idle)) w =
      (Done (Ok None), w\<lparr>clock := ?d\<rparr>)"
    using assms(2) by (simp add: timeout_def Let_def min_absorb2)
  then show ?thesis
    by (simp add: timeout_def recv_terminal_data_def recv_terminal_data_with_timeout_def recv_terminal_response_def
        bind_async_def ctx_async_def lift_async_def)
qed

lemma text_collect_run:
  assumes "list_all2 (is_chunk x) ms ds" and "inbox w = ms @ later" and "paced (clock w) idle ms"
    and "quiet_until (arrival (clock w) ms + idle) later" and "idle < TERMINAL_RESPONSE_TIMEOUT"
  shows "text_collect x idle acc None w =
    (Done (Ok \<lparr>eo_data = acc @ concat ds, eo_closed = None\<rparr>),
     w\<lparr>clock := arrival (clock w) ms + idle, inbox := later\<rparr>)"
  using assms
proof (induction ms ds arbitrary: w acc rule: list_all2_induct)
  case (Nil w)
  then have "w\<lparr>clock := c, inbox := later\<rparr> = w\<lparr>clock := c\<rparr>" for c by (cases w) simp
  with Nil timeout_recv_silence [of w idle x] show ?case
    by (simp add: text_collect.simps [of x idle acc None w] bind_async_def arrival_def)
next
  case (Cons m ms d ds w)
  obtain t r where m: "m = (t, r)" by force
  let ?w1 = "w\<lparr>clock := max t (clock w), inbox := ms @ later\<rparr>"
  have "timeout idle (recv_terminal_data x) None w = (Done (Ok (Some (Ok (EvData d)))), ?w1)"
    using timeout_recv_chunk [of w m "ms @ later" x d idle] Cons.prems Cons.hyps m by simp
  then have "text_collect x idle acc None w = text_collect x idle (acc @ d) None ?w1"
    by (simp add: text_collect.simps [of x idle acc None w] bind_async_def)
  also have "\<dots> = (Done (Ok \<lparr>eo_data = (acc @ d) @ concat ds, eo_closed = None\<rparr>),
      ?w1\<lparr>clock := arrival (clock ?w1) ms + idle, inbox := later\<rparr>)"
    using Cons.prems m by (intro Cons.IH) simp_all
  finally show ?case using m by simp
qed

lemma send_terminal_data_same:
  "send_terminal_data x tid d dl w = (r, w') \<Longrightarrow> clock w' = clock w \<and> inbox w' = inbox w"
  by (auto simp: send_terminal_data_def bind_async_def ctx_async_def lift_async_def send_action_def send_message_def
      stream_send_def split: prod.splits sum.splits outcome.splits list.splits option.splits if_splits)

section \<open>Properties\<close>

text \<open>
  C37. Executing a command in a text session. When the command could be sent, the output returned is everything
  the terminal printed until it was quiet for \<^verbatim>\<open>idle_timeout\<close>, in order and nothing else; what comes later is left
  for the next command. An idle timeout of 15 seconds or more does not work: a terminal that goes quiet then ends
  the call with the error of the receiver's own timeout.
\<close>

theorem text_exec_collects:
  assumes "send_terminal_data x (terminal_id (ts_terminal session))
      (str_bytes (if ends_with command [CHR 0x0A] then command else command @ [CHR 0x0A])) None w = (Done (Ok ()), w1)"
    and "inbox w = ms @ later" and "list_all2 (is_chunk x) ms ds"
  shows "(paced (clock w) idle ms \<and> quiet_until (arrival (clock w) ms + idle) later \<and> idle < 15000 \<longrightarrow>
      text_exec x session command idle None w =
        (Done (Ok \<lparr>eo_data = concat ds, eo_closed = None\<rparr>), w1\<lparr>clock := arrival (clock w) ms + idle, inbox := later\<rparr>)) \<and>
    (ms = [] \<and> quiet_until (clock w + 15000) later \<and> 15000 \<le> idle \<longrightarrow>
      (\<exists>e w'. text_exec x session command idle None w = (Done (Err e), w')))"
proof -
  note same = send_terminal_data_same [OF assms(1)]
  have run: "text_exec x session command idle None w = text_collect x idle [] None w1"
    using assms(1) by (simp add: text_exec_def Let_def bind_async_def ctx_async_def)
  show ?thesis
  proof (intro conjI impI; elim conjE)
    assume "paced (clock w) idle ms" "quiet_until (arrival (clock w) ms + idle) later" "idle < 15000"
    then show "text_exec x session command idle None w =
        (Done (Ok \<lparr>eo_data = concat ds, eo_closed = None\<rparr>), w1\<lparr>clock := arrival (clock w) ms + idle, inbox := later\<rparr>)"
      using text_collect_run [OF assms(3), of w1 later idle "[]"] assms(2) same
      by (simp add: run TERMINAL_RESPONSE_TIMEOUT_def)
  next
    assume q: "ms = []" "quiet_until (clock w + 15000) later" "15000 \<le> idle"
    then show "\<exists>e w'. text_exec x session command idle None w = (Done (Err e), w')"
      using timeout_recv_long [of w1 idle x] assms(2) same
      by (auto simp: run text_collect.simps [of x idle "[]" None w1] bind_async_def TERMINAL_RESPONSE_TIMEOUT_def)
  qed
qed

definition demo_session :: TextSession where
  "demo_session = \<lparr>ts_peer_info = \<lparr>hp_username = ''u'', hp_hostname = ''h'', hp_platform = ''Linux'', hp_displays = []\<rparr>,
     ts_terminal = \<lparr>terminal_id = 3, pid = 77, service_id = ''ts''\<rparr>\<rparr>"

theorem text_exec_collects_witness:
  "\<exists>w'. text_exec demo_ext demo_session ''ls'' 500 None (net_start [(10, Ok [3]), (400, Ok [3]), (2000, Ok [3])]) =
     (Done (Ok \<lparr>eo_data = [104, 105, 104, 105], eo_closed = None\<rparr>), w') \<and> clock w' = 900 \<and> inbox w' = [(2000, Ok [3])]"
proof -
  let ?w = "net_start [(10, Ok [3]), (400, Ok [3]), (2000, Ok [3])]"
  have cmd: "\<not> ends_with ''ls'' [CHR 0x0A]" "''ls'' @ [CHR 0x0A] = ''ls'' @ [CHR 0x0A]"
    by (simp_all add: ends_with_def starts_with_def)
  obtain w1 where "send_terminal_data demo_ext 3 (str_bytes (''ls'' @ [CHR 0x0A])) None ?w = (Done (Ok ()), w1)"
    by (simp add: send_terminal_data_def COMPRESS_THRESHOLD_def str_bytes_def bind_async_def lift_async_def ctx_async_def
        send_action_def send_message_def stream_send_def)
  with cmd have sent: "send_terminal_data demo_ext (terminal_id (ts_terminal demo_session))
      (str_bytes (if ends_with ''ls'' [CHR 0x0A] then ''ls'' else ''ls'' @ [CHR 0x0A])) None ?w = (Done (Ok ()), w1)"
    by (simp add: demo_session_def)
  from text_exec_collects [OF sent, of "[(10, Ok [3]), (400, Ok [3])]" "[(2000, Ok [3])]" "[[104, 105], [104, 105]]" 500]
  show ?thesis
    by (simp add: is_chunk_def demo_decodes terminal_event_def quiet_until_def arrival_def)
qed

end
