(* ===== verification/Rendezvous_Client.thy ===== *)
theory Rendezvous_Client
  imports Rendezvous
begin

text \<open>
  The rest of the API of \<^verbatim>\<open>RendezvousClient\<close> in \<^verbatim>\<open>src/rendezvous.rs\<close>: making the socket, the requests with the default
  connection type, raw datagrams, and the background task that keeps the client registered. The task never ends by
  itself; its model runs a given number of ticks, and the deadline it is run with is the moment it is aborted.
\<close>

section \<open>The socket\<close>

text \<open>\<open>bind_udp\<close> and \<open>connect_udp\<close> are \<^verbatim>\<open>UdpSocket::bind\<close> and \<^verbatim>\<open>UdpSocket::connect\<close>.\<close>

definition rdv_connect :: "(string \<Rightarrow> unit result) \<Rightarrow> (string \<Rightarrow> unit result) \<Rightarrow> string \<Rightarrow> unit result" where
  "rdv_connect bind_udp connect_udp server_addr =
     bind_result (with_ctx (''failed to bind local UDP socket for '' @ server_addr) (bind_udp (udp_bind_addr server_addr))) (\<lambda>_.
     with_ctx (''failed to connect UDP socket to rendezvous server '' @ server_addr) (connect_udp server_addr))"

definition raw_send :: "bytes \<Rightarrow> unit wio" where
  "raw_send buf = udp_send buf"

text \<open>\<^verbatim>\<open>recv\<close> writes the datagram, cut to the size of the buffer, over the front of the buffer.\<close>

definition raw_recv :: "bytes \<Rightarrow> (nat \<times> bytes) wio" where
  "raw_recv buf dl w =
     (case await (udp_in w) dl (clock w) of
        (Done (t, r), _) \<Rightarrow>
          (Done (bind_result r (\<lambda>d. let got = take (length buf) d in Ok (length got, got @ drop (length got) buf))),
           w\<lparr>clock := t, udp_in := tl (udp_in w)\<rparr>)
      | (Elapsed, t) \<Rightarrow> (Elapsed, w\<lparr>clock := t\<rparr>)
      | (Hang, t) \<Rightarrow> (Hang, w))"

section \<open>Requests with the default connection type\<close>

definition punch_hole :: "rdv_ext \<Rightarrow> string \<Rightarrow> string \<Rightarrow> PunchHoleResponse wio" where
  "punch_hole x target_id licence_key = punch_hole_with_conn_type x target_id licence_key DefaultConn"

definition send_punch_hole :: "rdv_ext \<Rightarrow> string \<Rightarrow> string \<Rightarrow> unit wio" where
  "send_punch_hole x target_id licence_key = send_punch_hole_with_conn_type x target_id licence_key DefaultConn"

definition request_relay_for :: "rdv_ext \<Rightarrow> string \<Rightarrow> string \<Rightarrow> bytes \<Rightarrow> string \<Rightarrow> RelayResponse wio" where
  "request_relay_for x target_id relay_server socket_addr licence_key =
     request_relay_for_with_conn_type x target_id relay_server socket_addr licence_key DefaultConn"

definition request_relay :: "rdv_ext \<Rightarrow> RelayResponse wio" where
  "request_relay x = request_relay_for x [] [] [] []"

definition request_relay_via_tcp ::
  "rdv_ext \<Rightarrow> string \<Rightarrow> string \<Rightarrow> string \<Rightarrow> bytes \<Rightarrow> string \<Rightarrow> string \<Rightarrow> RelayResponse wio" where
  "request_relay_via_tcp x server_addr target_id relay_server socket_addr licence_key uuid =
     request_relay_via_tcp_with_conn_type x server_addr target_id relay_server socket_addr licence_key uuid DefaultConn"

section \<open>The heartbeat task\<close>

text \<open>
  \<open>next_tick\<close> is when the interval ticks next; a tick that is already due comes at once. An error of \<^verbatim>\<open>send\<close> is ignored.
\<close>

primrec heartbeat_ticks :: "rdv_ext \<Rightarrow> string \<Rightarrow> nat \<Rightarrow> nat \<Rightarrow> nat \<Rightarrow> unit wio" where
  "heartbeat_ticks x my_id period 0 next_tick = return_async ()"
| "heartbeat_ticks x my_id period (Suc n) next_tick =
     bind_async (\<lambda>dl w. sleep (next_tick - clock w) dl w) (\<lambda>_.
     bind_async (ignore_async (udp_send (enc_rdv x (RegisterPeer my_id 0)))) (\<lambda>_.
     heartbeat_ticks x my_id period n (next_tick + period)))"

text \<open>\<^verbatim>\<open>tokio::time::interval\<close> panics on a period of zero; its first tick is immediate.\<close>

definition spawn_heartbeat :: "nat \<Rightarrow> rdv_ext \<Rightarrow> string \<Rightarrow> nat \<Rightarrow> unit wio" where
  "spawn_heartbeat ticks x my_id period dl w =
     (if period = 0 then (Done (Err [''panic: `period` must be non-zero.'']), w)
      else heartbeat_ticks x my_id period ticks (clock w) dl w)"

definition start_heartbeat :: "nat \<Rightarrow> rdv_ext \<Rightarrow> string \<Rightarrow> unit wio" where
  "start_heartbeat ticks x my_id = spawn_heartbeat ticks x my_id 10000"

section \<open>Heartbeats and requests\<close>

text \<open>The datagrams that get out when \<open>k\<close> are tried and \<open>fs\<close> says which attempts fail.\<close>

definition delivered :: "nat \<Rightarrow> err option list \<Rightarrow> nat" where
  "delivered k fs = k - length (filter (\<lambda>f. f \<noteq> None) (take k fs))"

lemma delivered_0 [simp]: "delivered 0 fs = 0"
  by (simp add: delivered_def)

lemma failed_le: "length (filter P (take k fs)) \<le> k"
  by (rule order_trans [OF length_filter_le]) simp

lemma delivered_Suc:
  "delivered (Suc k) (None # fs) = Suc (delivered k fs)" "delivered (Suc k) (Some e # fs) = delivered k fs"
  "delivered (Suc k) [] = Suc (delivered k [])"
  using failed_le [of "\<lambda>f. f \<noteq> None" k fs] by (simp_all add: delivered_def Suc_diff_le)

lemma beat_run:
  "ignore_async (udp_send m) dl w =
     (Done (Ok ()), w\<lparr>udp_faults := drop 1 (udp_faults w), udp_out := udp_out w @ replicate (delivered 1 (udp_faults w)) m\<rparr>)"
  by (cases w) (auto simp: delivered_Suc ignore_async_def bind_async_def try_async_def lift_async_def udp_send_def
      split: list.splits option.splits)

lemma delivered_step: "delivered (Suc k) fs = delivered 1 fs + delivered k (drop 1 fs)"
proof (cases fs)
  case (Cons f fs')
  then show ?thesis by (cases f) (simp_all add: delivered_Suc)
qed (simp add: delivered_def)

text \<open>Ticks that lie before the moment the task is aborted.\<close>

lemma heartbeat_ticks_run:
  assumes "clock w \<le> next_tick" "next_tick \<le> d" "(d - next_tick) div period < n" "0 < period"
  shows "heartbeat_ticks x my_id period n next_tick (Some d) w =
    (let k = Suc ((d - next_tick) div period) in
     (if k = n then Done (Ok ()) else Elapsed,
      w\<lparr>clock := if k = n then next_tick + (n - 1) * period else d, udp_faults := drop k (udp_faults w),
        udp_out := udp_out w @ replicate (delivered k (udp_faults w)) (enc_rdv x (RegisterPeer my_id 0))\<rparr>))"
  using assms
proof (induction n arbitrary: w next_tick)
  case (Suc n)
  let ?m = "enc_rdv x (RegisterPeer my_id 0)"
  let ?w = "w\<lparr>clock := next_tick, udp_faults := drop 1 (udp_faults w),
    udp_out := udp_out w @ replicate (delivered 1 (udp_faults w)) ?m\<rparr>"
  have step: "heartbeat_ticks x my_id period (Suc n) next_tick (Some d) w =
      heartbeat_ticks x my_id period n (next_tick + period) (Some d) ?w"
    using Suc.prems by (cases w) (simp add: bind_async_def sleep_def beat_run)
  show ?case
  proof (cases "next_tick + period \<le> d")
    case True
    define k where "k = Suc ((d - (next_tick + period)) div period)"
    have k: "(d - next_tick) div period = k"
      using True Suc.prems(4) le_div_geq [of period "d - next_tick"] by (simp add: k_def)
    have IH: "heartbeat_ticks x my_id period n (next_tick + period) (Some d) ?w =
        (if k = n then Done (Ok ()) else Elapsed,
         ?w\<lparr>clock := if k = n then next_tick + period + (n - 1) * period else d, udp_faults := drop k (udp_faults ?w),
           udp_out := udp_out ?w @ replicate (delivered k (udp_faults ?w)) ?m\<rparr>)"
      using Suc.IH [of ?w "next_tick + period", OF _ True _ Suc.prems(4)] Suc.prems(3) unfolding k
      by (simp add: Let_def k_def [symmetric]) (simp add: k_def)
    have "0 < k" by (simp add: k_def)
    then have "k = n \<Longrightarrow> next_tick + period + (n - 1) * period = next_tick + n * period"
      by (cases n) simp_all
    then show ?thesis unfolding step IH k Let_def delivered_step [of k] replicate_add
      by (cases w) auto
  next
    case False
    then have 0: "(d - next_tick) div period = 0" using Suc.prems(2) by simp
    show ?thesis
      unfolding step 0 using False Suc.prems(2)
      by (cases n; cases w) (auto simp: bind_async_def sleep_def lift_async_def)
  qed
qed simp

text \<open>
  C35. The client stays registered. However long the rest of the connection takes, a heartbeat task that is aborted after
  that time was still running then and has tried to register once at its start and once for every ten seconds since,
  whichever of the sends failed; every try that did not fail has sent the registration, and nothing else was sent.
\<close>

theorem heartbeat_presence:
  assumes "duration div 10000 + 1 < ticks"
  shows "start_heartbeat ticks x my_id (Some (clock w + duration)) w =
    (let k = duration div 10000 + 1 in
     (Elapsed, w\<lparr>clock := clock w + duration, udp_faults := drop k (udp_faults w),
        udp_out := udp_out w @ replicate (delivered k (udp_faults w)) (enc_rdv x (RegisterPeer my_id 0))\<rparr>))"
  using assms by (simp add: start_heartbeat_def spawn_heartbeat_def heartbeat_ticks_run Let_def)

theorem heartbeat_presence_witness:
  "\<exists>w'. start_heartbeat 4 (plain_rdv []) ''me'' (Some 25000) (world_start [] []) = (Elapsed, w') \<and> clock w' = 25000 \<and>
     udp_out w' = replicate 3 (enc_rdv (plain_rdv []) (RegisterPeer ''me'' 0))"
  using heartbeat_presence [of 25000 4 "plain_rdv []" "''me''" "world_start [] []"]
  by (simp add: world_start_def delivered_def)

text \<open>
  The answers to heartbeats that arrive between a request and its response do not disturb the request: they are skipped,
  and the request gets the first datagram that is something else.
\<close>

definition heartbeat_answer :: "rdv_ext \<Rightarrow> nat \<times> bytes result \<Rightarrow> bool" where
  "heartbeat_answer x e \<longleftrightarrow>
     (case snd e of Inr d \<Rightarrow> (case dec_rdv x (take 4096 d) of Inr (RegisterPeerResponse _) \<Rightarrow> True | _ \<Rightarrow> False) | _ \<Rightarrow> False)"

lemma send_request_loop_skips:
  assumes "udp_in w = beats @ (t, Ok d) # rest" "list_all (heartbeat_answer x) beats"
    "dec_rdv x (take 4096 d) = Ok response" "\<not> heartbeat_answer x (t, Ok d)"
  shows "\<exists>t'. send_request_loop x None w = (Done (Ok response), w\<lparr>clock := t', udp_in := rest\<rparr>)"
  using assms
proof (induction beats arbitrary: w)
  case Nil
  then show ?case
    by (subst send_request_loop.simps)
      (auto simp: bind_async_def udp_recv_def await_def heartbeat_answer_def split: rendezvous_message.splits)
next
  case (Cons b beats)
  let ?w = "w\<lparr>clock := max (fst b) (clock w), udp_in := beats @ (t, Ok d) # rest\<rparr>"
  from Cons.prems(2) obtain a p where b: "b = (fst b, Ok a)" "dec_rdv x (take 4096 a) = Ok (RegisterPeerResponse p)"
    by (cases b) (auto simp: heartbeat_answer_def split: sum.splits rendezvous_message.splits)
  have "send_request_loop x None w = send_request_loop x None ?w"
    using Cons.prems(1) b by (subst send_request_loop.simps, cases b) (simp add: bind_async_def udp_recv_def await_def)
  moreover from Cons.IH [of ?w] Cons.prems
  obtain t' where "send_request_loop x None ?w = (Done (Ok response), ?w\<lparr>clock := t', udp_in := rest\<rparr>)" by auto
  ultimately show ?case by (intro exI [of _ t']) (cases w, simp)
qed

text \<open>
  A relay asked for over UDP while the heartbeat task is running: whatever number of answers to heartbeats arrives
  first, the request goes out once, exactly the answers and the response are taken, and the relay response is returned.
\<close>

lemma request_relay_skips_heartbeats:
  assumes "udp_faults w = []" "udp_in w = beats @ (t, Ok d) # rest" "list_all (heartbeat_answer x) beats"
    "dec_rdv x (take 4096 d) = Ok (RelayResponseMsg r)"
  shows "\<exists>t'. request_relay x None w = (Done (Ok r), w\<lparr>clock := t', udp_in := rest,
    udp_out := udp_out w @ [enc_rdv x (request_relay_message [] [] [] [] [] DefaultConn)]\<rparr>)"
proof -
  let ?w = "w\<lparr>udp_out := udp_out w @ [enc_rdv x (request_relay_message [] [] [] [] [] DefaultConn)]\<rparr>"
  from send_request_loop_skips [of ?w beats t d rest x] assms(2-4)
  obtain t' where "send_request_loop x None ?w = (Done (Ok (RelayResponseMsg r)), ?w\<lparr>clock := t', udp_in := rest\<rparr>)"
    by (auto simp: heartbeat_answer_def)
  then show ?thesis using assms(1)
    by (intro exI [of _ t'], cases w)
      (simp add: request_relay_def request_relay_for_def request_relay_for_with_conn_type_def send_request_def
        bind_async_def udp_send_def lift_async_def)
qed

end
