(* ===== verification/File_Transfer.thy ===== *)
theory File_Transfer
  imports Messages
begin

text \<open>
  \<^verbatim>\<open>src/file_transfer.rs\<close>: pushing one local file to the peer. The local file system is outside the
  program: \<open>local_fs\<close> gives the metadata and the contents of a path, and whether a seek in it succeeds. An open file is the bytes that are
  left to read, and a script of what the coming reads do: fail, or return some number of bytes (at least
  one, at most the size of the buffer and what is left), since a read may return less than was asked for.
\<close>

section \<open>Files and paths\<close>

record Metadata =
  md_is_file :: bool
  md_len :: u64
  md_modified :: "u64 option"

record local_fs =
  fs_metadata :: "string \<Rightarrow> Metadata result"
  fs_open :: "string \<Rightarrow> bytes result"
  fs_seek :: "string \<Rightarrow> u64 \<Rightarrow> unit result"

record file_handle =
  fh_rest :: bytes
  fh_reads :: "nat result list"

definition file_read :: "nat \<Rightarrow> file_handle \<Rightarrow> bytes result \<times> file_handle" where
  "file_read n0 h =
     (case fh_reads h of
        Inl e # rs \<Rightarrow> (Err e, h\<lparr>fh_reads := rs\<rparr>)
      | Inr n # rs \<Rightarrow>
          let k = min (length (fh_rest h)) (max 1 (min n n0)) in
          (Ok (take k (fh_rest h)), h\<lparr>fh_rest := drop k (fh_rest h), fh_reads := rs\<rparr>)
      | [] \<Rightarrow> (Ok (take n0 (fh_rest h)), h\<lparr>fh_rest := drop n0 (fh_rest h)\<rparr>))"

text \<open>\<^verbatim>\<open>Path::file_name\<close>: the last component, unless it is \<^verbatim>\<open>..\<close>.\<close>

definition path_file_name :: "string \<Rightarrow> string option" where
  "path_file_name p =
     (case rev (filter (\<lambda>c. c \<noteq> [] \<and> c \<noteq> ''.'') (split_char CHR ''/'' p)) of
        [] \<Rightarrow> None
      | c # _ \<Rightarrow> if c = ''..'' then None else Some c)"

section \<open>Types\<close>

definition FILE_TRANSFER_BLOCK_SIZE :: nat where "FILE_TRANSFER_BLOCK_SIZE = 128 * 1024"

record PushProgress =
  pp_sent_bytes :: u64
  pp_total_bytes :: u64
  pp_transferred_bytes :: u64
  pp_resumed_bytes :: u64

record PushResult =
  pr_local_path :: string
  pr_remote_path :: string
  pr_total_bytes :: u64
  pr_sent_bytes :: u64
  pr_transferred_bytes :: u64
  pr_resumed_bytes :: u64
  pr_job_id :: i32

record PushTransfer =
  pt_local_path :: string
  pt_remote_path :: string
  pt_file :: file_handle
  pt_total_bytes :: u64
  pt_sent_bytes :: u64
  pt_transferred_bytes :: u64
  pt_resumed_bytes :: u64
  pt_job_id :: i32
  pt_skip_transfer :: bool

datatype FileTransferEvent =
    EvDigest FileTransferDigest
  | EvConfirm FileTransferSendConfirmRequest
  | EvDone FileTransferDone
  | EvFileError FileTransferError

record RemoteTarget =
  rt_dir :: string
  rt_file_name :: string

section \<open>Helpers\<close>

definition parse_remote_target :: "string \<Rightarrow> string \<Rightarrow> RemoteTarget result" where
  "parse_remote_target remote_path local_path =
     (let trimmed = trim remote_path in
      if trimmed = [] then bail ''remote path must not be empty''
      else case path_file_name local_path of
        None \<Rightarrow> bail (''local path has no valid file name: '' @ local_path)
      | Some default_name \<Rightarrow>
          if ends_with trimmed ''/'' then
            let dir = trim_end_matches [CHR ''/''] trimmed in
            if dir = [] then Ok \<lparr>rt_dir = ''/'', rt_file_name = default_name\<rparr>
            else Ok \<lparr>rt_dir = dir, rt_file_name = default_name\<rparr>
          else case rsplit_once trimmed CHR ''/'' of
            Some (dir, file_name) \<Rightarrow>
              let dir = (if dir = [] then ''/'' else dir) in
              if file_name = [] then bail (''remote path has no file name: '' @ remote_path)
              else Ok \<lparr>rt_dir = dir, rt_file_name = file_name\<rparr>
          | None \<Rightarrow> Ok \<lparr>rt_dir = ''.'', rt_file_name = trimmed\<rparr>)"

definition remote_target_dir :: "string \<Rightarrow> string \<Rightarrow> string result" where
  "remote_target_dir remote_path local_path =
     bind_result (parse_remote_target remote_path local_path) (\<lambda>t. Ok (rt_dir t))"

definition compress_chunk :: "ext \<Rightarrow> bytes \<Rightarrow> (bytes \<times> bool) result" where
  "compress_chunk x chunk =
     bind_result (with_ctx ''zstd compression failed'' (zstd_encode x chunk)) (\<lambda>compressed.
     if length compressed < length chunk then Ok (compressed, True) else Ok (chunk, False))"

text \<open>The job id made of the time in nanoseconds.\<close>

definition new_job_id :: "nat \<Rightarrow> i32" where
  "new_job_id nanos = of_nat (nanos mod (2 ^ 31 - 1 - 1)) + 1"

definition send_local_digest :: "ext \<Rightarrow> i32 \<Rightarrow> u64 \<Rightarrow> u64 \<Rightarrow> bool \<Rightarrow> unit async" where
  "send_local_digest x job total_bytes modified is_resume =
     send_message x (MFileResponse (Some (FDigest
       \<lparr>dg_id = job, dg_file_num = 0, dg_last_modified = modified, dg_file_size = total_bytes,
        dg_is_upload = False, dg_is_identical = False, dg_transferred_size = 0, dg_is_resume = is_resume\<rparr>)))"

definition send_confirm :: "ext \<Rightarrow> i32 \<Rightarrow> i32 \<Rightarrow> u32 \<Rightarrow> unit async" where
  "send_confirm x job file_num offset =
     send_message x (MFileAction (Some (FSendConfirm
       \<lparr>sc_id = job, sc_file_num = file_num, sc_union = Some (OffsetBlk offset)\<rparr>)))"

definition confirm_upload_from_remote_digest :: "ext \<Rightarrow> i32 \<Rightarrow> FileTransferDigest \<Rightarrow> u64 \<Rightarrow> u64 async" where
  "confirm_upload_from_remote_digest x job digest total_bytes =
     (let resumed = (if dg_is_identical digest
            then min (min (dg_transferred_size digest) total_bytes) (ucast (- 1 :: u32)) else 0) in
      bind_async (ctx_async ''sending file transfer confirmation''
        (send_confirm x job (dg_file_num digest) (ucast resumed))) (\<lambda>_.
      return_async resumed))"

definition echo_test_delay :: "ext \<Rightarrow> TestDelay \<Rightarrow> unit async" where
  "echo_test_delay x td =
     ctx_async ''echoing TestDelay during file transfer'' (send_message x (test_delay_echo td))"

section \<open>Receiving events\<close>

text \<open>
  What one received message means to the loop of \<^verbatim>\<open>recv_file_event\<close>: an event of this job, a
  test delay to answer, the end of the session, or nothing.
\<close>

datatype file_input = FEvent FileTransferEvent | FDelay TestDelay | FClosed string | FSkip

definition file_input :: "i32 \<Rightarrow> message \<Rightarrow> file_input" where
  "file_input job msg =
     (case msg of
        MFileAction (Some (FSendConfirm c)) \<Rightarrow> if sc_id c = job then FEvent (EvConfirm c) else FSkip
      | MFileResponse (Some (FDigest d)) \<Rightarrow> if dg_id d = job then FEvent (EvDigest d) else FSkip
      | MFileResponse (Some (FDone d)) \<Rightarrow> if dn_id d = job then FEvent (EvDone d) else FSkip
      | MFileResponse (Some (FError e)) \<Rightarrow> if fr_id e = job then FEvent (EvFileError e) else FSkip
      | MTestDelay td \<Rightarrow> FDelay td
      | MMisc (Some (CloseReason reason)) \<Rightarrow> FClosed reason
      | _ \<Rightarrow> FSkip)"

lemma ctx_recv_inbox:
  "(Done r, w') = ctx_async c stream_recv dl w \<Longrightarrow> length (inbox w') < length (inbox w)"
  by (auto simp: ctx_async_def split: prod.splits outcome.splits dest: stream_recv_shorter)

lemma echo_inbox: "(Done r, w') = echo_test_delay x td dl w \<Longrightarrow> inbox w' = inbox w"
  using send_message_inbox [of x "test_delay_echo td" dl w]
  by (auto simp: echo_test_delay_def ctx_async_def split: prod.splits outcome.splits)

function recv_file_event :: "ext \<Rightarrow> i32 \<Rightarrow> FileTransferEvent async" where
  "recv_file_event x job dl w =
     (case ctx_async ''receiving file transfer message'' stream_recv dl w of
        (Done (Inr raw), w1) \<Rightarrow>
          if raw = [] then recv_file_event x job dl w1
          else (case with_ctx ''decoding file transfer message'' (dec_msg x raw) of
             Inl e \<Rightarrow> (Done (Err e), w1)
           | Inr msg \<Rightarrow>
               (case file_input job msg of
                  FEvent ev \<Rightarrow> (Done (Ok ev), w1)
                | FDelay td \<Rightarrow>
                    (case echo_test_delay x td dl w1 of
                       (Done (Inr _), w2) \<Rightarrow> recv_file_event x job dl w2
                     | (Done (Inl e), w2) \<Rightarrow> (Done (Err e), w2)
                     | (Elapsed, w2) \<Rightarrow> (Elapsed, w2)
                     | (Hang, w2) \<Rightarrow> (Hang, w2))
                | FClosed reason \<Rightarrow> (Done (bail (''peer closed file transfer session: '' @ reason)), w1)
                | FSkip \<Rightarrow> recv_file_event x job dl w1))
      | (Done (Inl e), w1) \<Rightarrow> (Done (Err e), w1)
      | (Elapsed, w1) \<Rightarrow> (Elapsed, w1)
      | (Hang, w1) \<Rightarrow> (Hang, w1))"
  by pat_completeness auto
termination
  by (relation "measure (\<lambda>(x, job, dl, w). length (inbox w))") (auto dest!: ctx_recv_inbox echo_inbox)

declare recv_file_event.simps [simp del]

section \<open>The transfer\<close>

text \<open>The loop of \<^verbatim>\<open>begin\<close> that waits for the peer's decision: bytes to skip, and whether all of them.\<close>

lemma recv_file_event_inbox:
  "(Done r, w') = recv_file_event x job dl w \<Longrightarrow> length (inbox w') < length (inbox w)"
proof (induction "length (inbox w)" arbitrary: w rule: less_induct)
  case (less w)
  obtain q w1 where q: "ctx_async ''receiving file transfer message'' stream_recv dl w = (q, w1)" by force
  note step = recv_file_event.simps [of x job dl w]
  show ?case
  proof (cases q)
    case (Done p)
    have l: "length (inbox w1) < length (inbox w)" using q Done by (metis ctx_recv_inbox)
    have again: "length (inbox w') < length (inbox w)"
      if "(Done r, w') = recv_file_event x job dl w2" "inbox w2 = inbox w1" for w2
      using less.hyps [of w2] that l by simp
    have echo: "inbox w2 = inbox w1" if "echo_test_delay x td dl w1 = (Done p', w2)" for td p' w2
      using that by (metis echo_inbox)
    from less.prems q Done l again echo show ?thesis
      by (auto simp: step split: sum.splits if_splits file_input.splits prod.splits outcome.splits)
  qed (use less.prems q in \<open>auto simp: step\<close>)
qed

function confirm_loop :: "ext \<Rightarrow> i32 \<Rightarrow> u64 \<Rightarrow> (u64 \<times> bool) async" where
  "confirm_loop x job total_bytes dl w =
     (case ctx_async ''waiting for file transfer confirmation'' (recv_file_event x job) dl w of
        (Done (Inr ev), w1) \<Rightarrow>
          (case ev of
             EvDigest digest \<Rightarrow>
               bind_async (confirm_upload_from_remote_digest x job digest total_bytes)
                 (\<lambda>resumed. return_async (resumed, False)) dl w1
           | EvConfirm confirm \<Rightarrow>
               (Done (Ok (case sc_union confirm of
                  Some (Skip True) \<Rightarrow> (total_bytes, True)
                | Some (OffsetBlk offset) \<Rightarrow> (min (ucast offset) total_bytes, False)
                | _ \<Rightarrow> (0, False))), w1)
           | EvFileError err \<Rightarrow> (Done (bail (''file transfer error: '' @ fr_error err)), w1)
           | EvDone _ \<Rightarrow> confirm_loop x job total_bytes dl w1)
      | (Done (Inl e), w1) \<Rightarrow> (Done (Err e), w1)
      | (Elapsed, w1) \<Rightarrow> (Elapsed, w1)
      | (Hang, w1) \<Rightarrow> (Hang, w1))"
  by pat_completeness auto
termination
  by (relation "measure (\<lambda>(x, job, total, dl, w). length (inbox w))")
    (auto simp: ctx_async_def split: prod.splits outcome.splits dest: recv_file_event_inbox [OF sym])

declare confirm_loop.simps [simp del]

definition receive_request :: "i32 \<Rightarrow> RemoteTarget \<Rightarrow> u64 \<Rightarrow> u64 \<Rightarrow> message" where
  "receive_request job target total_bytes modified =
     MFileAction (Some (FReceive \<lparr>rr_id = job, rr_path = rt_dir target,
       rr_files = [\<lparr>fe_entry_type = FileType_File, fe_name = rt_file_name target, fe_is_hidden = False, fe_size = total_bytes,
                    fe_modified_time = modified\<rparr>],
       rr_file_num = 1, rr_total_size = total_bytes\<rparr>))"

text \<open>\<^verbatim>\<open>PushTransfer::begin\<close>; \<open>reads\<close> is what the reads of the opened file will do.\<close>

definition push_begin ::
  "ext \<Rightarrow> local_fs \<Rightarrow> nat \<Rightarrow> nat result list \<Rightarrow> string \<Rightarrow> string \<Rightarrow> PushTransfer async" where
  "push_begin x fs nanos reads local_path remote_path =
     bind_async (lift_async (with_ctx (''reading local file metadata for '' @ local_path)
       (fs_metadata fs local_path))) (\<lambda>metadata.
     if \<not> md_is_file metadata then lift_async (bail (''push supports single files only: '' @ local_path))
     else
       let total_bytes = md_len metadata; job = new_job_id nanos in
       bind_async (lift_async (parse_remote_target remote_path local_path)) (\<lambda>target.
       let modified = (case md_modified metadata of Some t \<Rightarrow> t | None \<Rightarrow> 0) in
       bind_async (ctx_async ''sending file transfer request''
         (send_message x (receive_request job target total_bytes modified))) (\<lambda>_.
       bind_async (ctx_async ''sending local file digest''
         (send_local_digest x job total_bytes modified True)) (\<lambda>_.
       bind_async (confirm_loop x job total_bytes) (\<lambda>(resumed, skip).
       bind_async (lift_async (with_ctx (''opening local file '' @ local_path) (fs_open fs local_path))) (\<lambda>contents.
       bind_async (if 0 < resumed
           then lift_async (with_ctx (''seeking local file '' @ local_path @ '' to resume offset '' @ show_nat (unat resumed))
             (fs_seek fs local_path resumed))
           else return_async ()) (\<lambda>_.
       return_async
         \<lparr>pt_local_path = local_path, pt_remote_path = remote_path,
          pt_file = \<lparr>fh_rest = drop (unat resumed) contents, fh_reads = reads\<rparr>,
          pt_total_bytes = total_bytes, pt_sent_bytes = resumed, pt_transferred_bytes = 0,
          pt_resumed_bytes = resumed, pt_job_id = job, pt_skip_transfer = skip\<rparr>)))))))"

definition push_progress :: "PushTransfer \<Rightarrow> PushProgress" where
  "push_progress t = \<lparr>pp_sent_bytes = pt_sent_bytes t, pp_total_bytes = pt_total_bytes t,
     pp_transferred_bytes = pt_transferred_bytes t, pp_resumed_bytes = pt_resumed_bytes t\<rparr>"

definition push_result :: "PushTransfer \<Rightarrow> PushResult" where
  "push_result t = \<lparr>pr_local_path = pt_local_path t, pr_remote_path = pt_remote_path t,
     pr_total_bytes = pt_total_bytes t, pr_sent_bytes = pt_sent_bytes t,
     pr_transferred_bytes = pt_transferred_bytes t, pr_resumed_bytes = pt_resumed_bytes t,
     pr_job_id = pt_job_id t\<rparr>"

definition block_message :: "i32 \<Rightarrow> bytes \<Rightarrow> bool \<Rightarrow> message" where
  "block_message job d compressed =
     MFileResponse (Some (FBlock \<lparr>bk_id = job, bk_file_num = 0, bk_data = d, bk_compressed = compressed,
       bk_blk_id = 0\<rparr>))"

text \<open>\<^verbatim>\<open>send_next_block\<close> changes the transfer, also when it fails; \<open>True\<close> means a block was sent.\<close>

definition send_next_block ::
  "ext \<Rightarrow> PushTransfer \<Rightarrow> net \<Rightarrow> bool result outcome \<times> PushTransfer \<times> net" where
  "send_next_block x t w =
     (if pt_skip_transfer t then (Done (Ok False), t, w)
      else
        let (r, h) = file_read FILE_TRANSFER_BLOCK_SIZE (pt_file t);
            t = t\<lparr>pt_file := h\<rparr> in
        case with_ctx (''reading local file '' @ pt_local_path t) r of
          Inl e \<Rightarrow> (Done (Err e), t, w)
        | Inr chunk \<Rightarrow>
            if chunk = [] then (Done (Ok False), t, w)
            else (case compress_chunk x chunk of
              Inl e \<Rightarrow> (Done (Err e), t, w)
            | Inr (d, compressed) \<Rightarrow>
                let t = t\<lparr>pt_sent_bytes := pt_sent_bytes t + of_nat (length chunk),
                          pt_transferred_bytes := pt_transferred_bytes t + of_nat (length d)\<rparr> in
                (case ctx_async (''sending file block for '' @ pt_local_path t)
                    (send_message x (block_message (pt_job_id t) d compressed)) None w of
                   (Done (Inr _), w') \<Rightarrow> (Done (Ok True), t, w')
                 | (Done (Inl e), w') \<Rightarrow> (Done (Err e), t, w')
                 | (Elapsed, w') \<Rightarrow> (Elapsed, t, w')
                 | (Hang, w') \<Rightarrow> (Hang, t, w'))))"

definition wait_for_done :: "ext \<Rightarrow> PushTransfer \<Rightarrow> unit async" where
  "wait_for_done x t =
     (if pt_skip_transfer t then return_async ()
      else
        bind_async (ctx_async ''sending file transfer completion''
          (send_message x (MFileResponse (Some (FDone \<lparr>dn_id = pt_job_id t, dn_file_num = 0\<rparr>))))) (\<lambda>_.
        bind_async (timeout 500 (recv_file_event x (pt_job_id t))) (\<lambda>r.
        lift_async (case r of
           Some (Inr (EvFileError err)) \<Rightarrow> bail (''file transfer error: '' @ fr_error err)
         | _ \<Rightarrow> Ok ()))))"

section \<open>Sending all blocks\<close>

lemma file_read_Ok:
  assumes "file_read n h = (Ok chunk, h')" and "0 < n"
  shows "chunk @ fh_rest h' = fh_rest h" and "chunk = [] \<longleftrightarrow> fh_rest h = []" and "length chunk \<le> n"
  using assms
  by (auto simp: file_read_def Let_def min_def max_def split: list.splits sum.splits if_splits)

text \<open>\<^verbatim>\<open>while transfer.send_next_block(...).await? { }\<close>.\<close>

lemma send_next_block_shorter:
  "(Done (Ok True), t', w') = send_next_block x t w \<Longrightarrow> length (fh_rest (pt_file t')) < length (fh_rest (pt_file t))"
proof -
  assume step: "(Done (Ok True), t', w') = send_next_block x t w"
  obtain r h where r: "file_read FILE_TRANSFER_BLOCK_SIZE (pt_file t) = (r, h)" by force
  from step r obtain chunk where chunk: "r = Ok chunk" "chunk \<noteq> []" "pt_file t' = h"
    by (auto simp: send_next_block_def Let_def split: if_splits sum.splits prod.splits outcome.splits)
  from file_read_Ok [of FILE_TRANSFER_BLOCK_SIZE "pt_file t" chunk h] r chunk
  have "chunk @ fh_rest h = fh_rest (pt_file t)" by (simp add: FILE_TRANSFER_BLOCK_SIZE_def)
  from arg_cong [OF this, of length] chunk show ?thesis by (cases chunk) auto
qed

function push_blocks :: "ext \<Rightarrow> PushTransfer \<Rightarrow> net \<Rightarrow> unit result outcome \<times> PushTransfer \<times> net" where
  "push_blocks x t w =
     (case send_next_block x t w of
        (Done (Inr sent), t', w') \<Rightarrow> if sent then push_blocks x t' w' else (Done (Ok ()), t', w')
      | (Done (Inl e), t', w') \<Rightarrow> (Done (Err e), t', w')
      | (Elapsed, t', w') \<Rightarrow> (Elapsed, t', w')
      | (Hang, t', w') \<Rightarrow> (Hang, t', w'))"
  by pat_completeness auto
termination
  by (relation "measure (\<lambda>(x, t, w). length (fh_rest (pt_file t)))") (auto dest: send_next_block_shorter)

declare push_blocks.simps [simp del]

text \<open>What the receiver makes of a block.\<close>

definition block_bytes :: "ext \<Rightarrow> message \<Rightarrow> bytes option" where
  "block_bytes x m =
     (case m of
        MFileResponse (Some (FBlock b)) \<Rightarrow>
          if bk_compressed b then (case zstd_decode x (bk_data b) of Inr d \<Rightarrow> Some d | Inl _ \<Rightarrow> None)
          else Some (bk_data b)
      | _ \<Rightarrow> None)"

lemma compress_chunk_decodes:
  assumes "zstd_laws x"
  obtains d c where "compress_chunk x chunk = Ok (d, c)" and "block_bytes x (block_message job d c) = Some chunk"
proof -
  obtain z where z: "zstd_encode x chunk = Ok z" "zstd_decode x z = Ok chunk"
    using assms by (meson zstd_laws_def)
  show ?thesis
  proof (cases "length z < length chunk")
    case True
    with z show ?thesis by (intro that [of z True]) (simp_all add: compress_chunk_def block_bytes_def block_message_def)
  next
    case False
    with z show ?thesis by (intro that [of chunk False]) (simp_all add: compress_chunk_def block_bytes_def block_message_def)
  qed
qed

definition block_of :: "ext \<Rightarrow> bytes \<Rightarrow> message \<Rightarrow> bool" where
  "block_of x d m \<longleftrightarrow> block_bytes x m = Some d \<and> d \<noteq> [] \<and> length d \<le> FILE_TRANSFER_BLOCK_SIZE"

text \<open>One step: a failure, the end of the file, or a block with the next bytes of it.\<close>

lemma send_next_block_step:
  assumes "zstd_laws x" and "\<not> pt_skip_transfer t"
  obtains (fail) e t' w' where "send_next_block x t w = (Done (Err e), t', w')" "sends x w w' []"
    | (eof) t' where "send_next_block x t w = (Done (Ok False), t', w)" "fh_rest (pt_file t) = []"
        "pt_sent_bytes t' = pt_sent_bytes t"
    | (block) d m t' w' where "send_next_block x t w = (Done (Ok True), t', w')" "sends x w w' [m]"
        "block_of x d m" "fh_rest (pt_file t) = d @ fh_rest (pt_file t')" "\<not> pt_skip_transfer t'"
        "pt_sent_bytes t' = pt_sent_bytes t + of_nat (length d)" "pt_total_bytes t' = pt_total_bytes t"
proof -
  obtain r h where r: "file_read FILE_TRANSFER_BLOCK_SIZE (pt_file t) = (r, h)" by force
  note step = send_next_block_def [of x t w] r assms(2)
  have bs: "0 < FILE_TRANSFER_BLOCK_SIZE" by (simp add: FILE_TRANSFER_BLOCK_SIZE_def)
  show ?thesis
  proof (cases r)
    case (Inl e)
    with step show ?thesis by (intro fail) auto
  next
    case (Inr chunk)
    note rd = file_read_Ok [OF r [unfolded Inr] bs]
    show ?thesis
    proof (cases "chunk = []")
      case True
      with step Inr rd show ?thesis by (intro eof [of "t\<lparr>pt_file := h\<rparr>"]) auto
    next
      case False
      obtain d c where dc: "compress_chunk x chunk = Ok (d, c)"
        "block_bytes x (block_message (pt_job_id t) d c) = Some chunk"
        by (rule compress_chunk_decodes [OF assms(1)])
      define t' where "t' = t\<lparr>pt_file := h, pt_sent_bytes := pt_sent_bytes t + of_nat (length chunk),
          pt_transferred_bytes := pt_transferred_bytes t + of_nat (length d)\<rparr>"
      show ?thesis
      proof (cases rule: send_message_outcome [of x "block_message (pt_job_id t) d c" None w])
        case (ok w')
        with step Inr False dc rd assms(2) show ?thesis
          by (intro block [of t' w' "block_message (pt_job_id t) d c" chunk])
            (simp_all add: ctx_async_def t'_def block_of_def)
      next
        case (fail e w')
        with step Inr False dc show ?thesis
          by (intro that(1) [of "(''sending file block for '' @ pt_local_path t) # e" t' w'])
            (simp_all add: ctx_async_def t'_def)
      qed
    qed
  qed
qed

lemma push_blocks_result:
  assumes "zstd_laws x" and "\<not> pt_skip_transfer t"
  shows "\<exists>r t' w' ds ms. push_blocks x t w = (Done r, t', w') \<and> sends x w w' ms \<and> list_all2 (block_of x) ds ms \<and>
     (\<exists>rest. fh_rest (pt_file t) = concat ds @ rest \<and>
       (is_ok r \<longrightarrow> rest = [] \<and>
          pt_sent_bytes t' = pt_sent_bytes t + of_nat (length (fh_rest (pt_file t)))))"
  using assms(2)
proof (induction "length (fh_rest (pt_file t))" arbitrary: t w rule: less_induct)
  case (less t w)
  note step = push_blocks.simps [of x t w]
  show ?case
  proof (cases rule: send_next_block_step [OF assms(1) less.prems, of w])
    case (1 e t' w')
    then show ?thesis
      by (intro exI [of _ "Err e"] exI [of _ t'] exI [of _ w'] exI [of _ "[]"]) (simp add: step)
  next
    case (2 t')
    then show ?thesis
      by (intro exI [of _ "Ok ()"] exI [of _ t'] exI [of _ w] exI [of _ "[]"]) (simp add: step)
  next
    case (3 d m t' w')
    then have "d \<noteq> []" by (simp add: block_of_def)
    with 3 have "length (fh_rest (pt_file t')) < length (fh_rest (pt_file t))" by simp
    from less.hyps [OF this \<open>\<not> pt_skip_transfer t'\<close>, of w'] obtain r t2 w2 ds ms rest where
      ih: "push_blocks x t' w' = (Done r, t2, w2)" "sends x w' w2 ms" "list_all2 (block_of x) ds ms"
      "fh_rest (pt_file t') = concat ds @ rest"
      "is_ok r \<Longrightarrow> rest = [] \<and> pt_sent_bytes t2 = pt_sent_bytes t' + of_nat (length (fh_rest (pt_file t')))"
      by blast
    have "push_blocks x t w = (Done r, t2, w2)" using 3 ih by (simp add: step)
    moreover have "sends x w w2 ([m] @ ms)" using 3(2) ih(2) by (rule sends_trans)
    moreover have "list_all2 (block_of x) (d # ds) ([m] @ ms)" using 3 ih by simp
    moreover have "fh_rest (pt_file t) = concat (d # ds) @ rest" using 3 ih by simp
    moreover have "pt_sent_bytes t2 = pt_sent_bytes t + of_nat (length (fh_rest (pt_file t)))" if "is_ok r"
      using 3 ih(5) [OF that] by (simp add: algebra_simps)
    ultimately show ?thesis using ih(5) by blast
  qed
qed

section \<open>The start of a transfer\<close>

lemma confirm_loop_bound:
  assumes "confirm_loop x job total_bytes dl w = (Done (Ok (resumed, skip)), w')"
  shows "resumed \<le> total_bytes \<and> (skip \<longrightarrow> resumed = total_bytes)"
  using assms
proof (induction "length (inbox w)" arbitrary: w rule: less_induct)
  case (less w)
  note step = confirm_loop.simps [of x job total_bytes dl w]
  obtain r w1 where r: "recv_file_event x job dl w = (r, w1)" by force
  show ?case
  proof (cases r)
    case (Done q)
    then have shorter: "length (inbox w1) < length (inbox w)" using r by (metis recv_file_event_inbox)
    show ?thesis
    proof (cases q)
      case (Inr ev)
      have m: "min (min a b) c \<le> b" for a b c :: u64 by (rule order_trans [OF min.cobounded1 min.cobounded2])
      show ?thesis
      proof (cases ev)
        case (EvDone dn)
        with less.prems r Done Inr less.hyps [OF shorter] show ?thesis by (simp add: step ctx_async_def)
      next
        case (EvDigest dg)
        with less.prems r Done Inr m show ?thesis
          by (auto simp: step ctx_async_def confirm_upload_from_remote_digest_def bind_async_def lift_async_def
              Let_def split: prod.splits outcome.splits sum.splits if_splits)
      next
        case (EvConfirm c)
        with less.prems r Done Inr show ?thesis
          by (auto simp: step ctx_async_def split: option.splits confirm_union.splits bool.splits)
      next
        case (EvFileError er)
        with less.prems r Done Inr show ?thesis by (simp add: step ctx_async_def)
      qed
    qed (use less.prems r Done in \<open>simp add: step ctx_async_def\<close>)
  qed (use less.prems r in \<open>simp_all add: step ctx_async_def\<close>)
qed

lemma push_begin_Ok:
  assumes "push_begin x fs nanos reads local_path remote_path dl w = (Done (Ok t), w')"
  shows "\<exists>md contents. fs_metadata fs local_path = Ok md \<and> md_is_file md \<and> fs_open fs local_path = Ok contents \<and>
     pt_total_bytes t = md_len md \<and> pt_resumed_bytes t \<le> md_len md \<and> pt_sent_bytes t = pt_resumed_bytes t \<and>
     fh_rest (pt_file t) = drop (unat (pt_resumed_bytes t)) contents \<and>
     (pt_skip_transfer t \<longrightarrow> pt_resumed_bytes t = md_len md) \<and> is_ok (parse_remote_target remote_path local_path)"
  using assms unfolding push_begin_def
  by (auto dest!: bind_async_Ok confirm_loop_bound simp: Let_def lift_async_def is_ok_iff
      split: if_splits prod.splits)

text \<open>
  \<^verbatim>\<open>wait_for_done\<close> asks for no confirmation: once the completion message is out, the push counts as
  done whatever happens to the connection in the next half second. Only an error the peer reports in
  that time makes it fail.
\<close>

lemma wait_for_done_Ok_iff:
  assumes "\<not> pt_skip_transfer t"
    and "send_message x (MFileResponse (Some (FDone \<lparr>dn_id = pt_job_id t, dn_file_num = 0\<rparr>))) dl w = (Done (Ok ()), w1)"
    and "timeout 500 (recv_file_event x (pt_job_id t)) dl w1 = (Done (Ok r), w2)"
  shows "wait_for_done x t dl w = (Done (Ok ()), w2) \<longleftrightarrow> (\<forall>err. r \<noteq> Some (Ok (EvFileError err)))"
  using assms
  by (auto simp: wait_for_done_def bind_async_def ctx_async_def lift_async_def
      split: option.splits sum.splits FileTransferEvent.splits)

section \<open>Events of a job\<close>

text \<open>Received results that \<^verbatim>\<open>recv_file_event\<close> passes over, and the answers it gives to them.\<close>

definition passed_over :: "ext \<Rightarrow> i32 \<Rightarrow> nat \<times> bytes result \<Rightarrow> bool" where
  "passed_over x job p \<longleftrightarrow>
     (case snd p of
        Inl _ \<Rightarrow> False
      | Inr raw \<Rightarrow> raw = [] \<or> (case dec_msg x raw of Inl _ \<Rightarrow> False
            | Inr m \<Rightarrow> (case file_input job m of FDelay _ \<Rightarrow> True | FSkip \<Rightarrow> True | _ \<Rightarrow> False)))"

fun delay_echoes :: "ext \<Rightarrow> (nat \<times> bytes result) list \<Rightarrow> message list" where
  "delay_echoes x [] = []"
| "delay_echoes x ((t, r) # ps) =
     (case r of Inl _ \<Rightarrow> [] | Inr raw \<Rightarrow> if raw = [] then [] else
        (case dec_msg x raw of Inr (MTestDelay td) \<Rightarrow> [test_delay_echo td] | _ \<Rightarrow> [])) @ delay_echoes x ps"

lemma stream_recv_Done:
  assumes "stream_recv dl w = (Done r, w')"
  shows "\<exists>t. inbox w = (t, r) # inbox w' \<and> outbox w' = outbox w"
  using assms by (auto simp: stream_recv_def Let_def split: list.splits option.splits if_splits)

lemma file_input_delay: "file_input job m = FDelay td \<longleftrightarrow> m = MTestDelay td"
  by (auto simp: file_input_def split: message.splits option.splits file_action.splits file_response.splits
      misc.splits)

lemma file_input_skip: "file_input job m = FSkip \<Longrightarrow> \<forall>td. m \<noteq> MTestDelay td"
  by (auto simp: file_input_def)

lemma recv_file_event_Ok:
  assumes "recv_file_event x job dl w = (Done (Ok ev), w')"
  shows "\<exists>pre t raw m. inbox w = pre @ (t, Ok raw) # inbox w' \<and> list_all (passed_over x job) pre \<and>
     raw \<noteq> [] \<and> dec_msg x raw = Ok m \<and> file_input job m = FEvent ev \<and> sends x w w' (delay_echoes x pre)"
  using assms
proof (induction "length (inbox w)" arbitrary: w rule: less_induct)
  case (less w)
  note step = recv_file_event.simps [of x job dl w]
  from less.prems obtain raw w1 where recv: "stream_recv dl w = (Done (Ok raw), w1)"
    by (auto simp: step ctx_async_def split: prod.splits outcome.splits sum.splits)
  then obtain t where t: "inbox w = (t, Ok raw) # inbox w1" "outbox w1 = outbox w"
    using stream_recv_Done by blast
  note at = less.prems [unfolded step] recv
  have cont: ?case if "recv_file_event x job dl w2 = (Done (Ok ev), w')" "inbox w2 = inbox w1"
      "passed_over x job (t, Ok raw)" "sends x w w2 (delay_echoes x [(t, Ok raw)])" for w2
  proof -
    have "length (inbox w2) < length (inbox w)" using t that by simp
    from less.hyps [OF this that(1)] obtain pre t' raw' m where
      ih: "inbox w2 = pre @ (t', Ok raw') # inbox w'" "list_all (passed_over x job) pre" "raw' \<noteq> []"
      "dec_msg x raw' = Ok m" "file_input job m = FEvent ev" "sends x w2 w' (delay_echoes x pre)" by blast
    show ?case
      by (rule exI [of _ "(t, Ok raw) # pre"], rule exI [of _ t'], rule exI [of _ raw'], rule exI [of _ m])
        (use t that ih sends_trans [OF that(4) ih(6)] in simp)
  qed
  show ?case
  proof (cases "raw = []")
    case True
    with at cont [of w1] t show ?thesis by (simp add: ctx_async_def passed_over_def sends_def)
  next
    case False
    then obtain m where m: "dec_msg x raw = Ok m" using at by (auto simp: ctx_async_def split: sum.splits)
    show ?thesis
    proof (cases "file_input job m")
      case (FEvent e)
      with False at m t show ?thesis
        by (intro exI [of _ "[]"]) (simp add: ctx_async_def sends_def)
    next
      case (FDelay td)
      with False at m obtain w2 where w2: "echo_test_delay x td dl w1 = (Done (Ok ()), w2)"
        "recv_file_event x job dl w2 = (Done (Ok ev), w')"
        by (auto simp: ctx_async_def split: prod.splits outcome.splits sum.splits)
      have "sends x w1 w2 [test_delay_echo td] \<and> inbox w2 = inbox w1"
        by (rule send_message_outcome [of x "test_delay_echo td" dl w1])
          (use w2 in \<open>simp_all add: echo_test_delay_def ctx_async_def\<close>)
      with cont [of w2] w2 FDelay False m t show ?thesis
        by (simp add: passed_over_def file_input_delay sends_def)
    next
      case (FClosed reason)
      with False at m show ?thesis by (simp add: ctx_async_def)
    next
      case FSkip
      with False at m cont [of w1] t file_input_skip [OF FSkip] show ?thesis
        by (auto simp: ctx_async_def passed_over_def sends_def split: message.splits)
    qed
  qed
qed

section \<open>The decision of the peer\<close>

text \<open>
  The answer to the announcement of a file: the first message of the job that is not a \<open>Done\<close>. It says how
  much of a file of \<open>len\<close> bytes the peer has; a digest counts only when the peer calls its file
  identical, and the offset is sent back in 32 bits.
\<close>

definition event_of :: "ext \<Rightarrow> i32 \<Rightarrow> nat \<times> bytes result \<Rightarrow> FileTransferEvent option" where
  "event_of x job p =
     (case snd p of
        Inr raw \<Rightarrow>
          if raw = [] then None
          else (case dec_msg x raw of
             Inr m \<Rightarrow> (case file_input job m of FEvent ev \<Rightarrow> Some ev | _ \<Rightarrow> None)
           | Inl _ \<Rightarrow> None)
      | Inl _ \<Rightarrow> None)"

fun peer_answer :: "ext \<Rightarrow> i32 \<Rightarrow> (nat \<times> bytes result) list \<Rightarrow> FileTransferEvent option" where
  "peer_answer x job [] = None"
| "peer_answer x job (p # ps) =
     (case event_of x job p of
        Some (EvDone _) \<Rightarrow> peer_answer x job ps
      | Some ev \<Rightarrow> Some ev
      | None \<Rightarrow> peer_answer x job ps)"

fun resume_offset :: "nat \<Rightarrow> FileTransferEvent \<Rightarrow> nat" where
  "resume_offset len (EvConfirm c) =
     (case sc_union c of Some (Skip True) \<Rightarrow> len | Some (OffsetBlk k) \<Rightarrow> min (unat k) len | _ \<Rightarrow> 0)"
| "resume_offset len (EvDigest d) =
     (if dg_is_identical d then min (min (unat (dg_transferred_size d)) len) (2 ^ 32 - 1) else 0)"
| "resume_offset len _ = 0"

lemma passed_over_event: "passed_over x job p \<Longrightarrow> event_of x job p = None"
  by (auto simp: passed_over_def event_of_def split: sum.splits file_input.splits)

lemma peer_answer_skips:
  "list_all (passed_over x job) pre \<Longrightarrow> peer_answer x job (pre @ ps) = peer_answer x job ps"
  by (induction pre) (simp_all add: passed_over_event)

lemma recv_file_event_answer:
  assumes "recv_file_event x job dl w = (Done (Ok ev), w')"
  shows "peer_answer x job (inbox w) =
     (case ev of EvDone _ \<Rightarrow> peer_answer x job (inbox w') | _ \<Rightarrow> Some ev)" and "\<exists>ms. sends x w w' ms"
proof -
  from recv_file_event_Ok [OF assms] obtain pre t raw m where
    ev: "inbox w = pre @ (t, Ok raw) # inbox w'" "list_all (passed_over x job) pre" "raw \<noteq> []"
    "dec_msg x raw = Ok m" "file_input job m = FEvent ev" "sends x w w' (delay_echoes x pre)" by blast
  then show "peer_answer x job (inbox w) =
     (case ev of EvDone _ \<Rightarrow> peer_answer x job (inbox w') | _ \<Rightarrow> Some ev)"
    by (simp add: peer_answer_skips event_of_def split: FileTransferEvent.splits)
  from ev(6) show "\<exists>ms. sends x w w' ms" by blast
qed

lemma unat_resumed:
  "unat (min (min a b) (ucast (- 1 :: u32)) :: u64) = min (min (unat a) (unat b)) (2 ^ 32 - 1)"
proof -
  have "unat (ucast (- 1 :: u32) :: u64) = 2 ^ 32 - 1"
    by (simp add: unsigned_ucast_eq unsigned_minus_1_eq_mask mask_eq_exp_minus_1)
  moreover have "unat (min c d) = min (unat c) (unat d)" for c d :: u64
    by (simp add: min_def word_le_nat_alt)
  ultimately show ?thesis by simp
qed

text \<open>The message that tells the peer from where on it gets the file.\<close>

definition resume_confirm :: "i32 \<Rightarrow> FileTransferDigest \<Rightarrow> nat \<Rightarrow> message" where
  "resume_confirm job d k =
     MFileAction (Some (FSendConfirm \<lparr>sc_id = job, sc_file_num = dg_file_num d, sc_union = Some (OffsetBlk (of_nat k))\<rparr>))"

lemma confirm_upload_Ok:
  assumes "confirm_upload_from_remote_digest x job d len dl w = (Done (Ok resumed), w')"
  shows "unat resumed = resume_offset (unat len) (EvDigest d) \<and>
     sends x w w' [resume_confirm job d (unat resumed)]"
proof -
  let ?k = "if dg_is_identical d then min (min (dg_transferred_size d) len) (ucast (- 1 :: u32)) else 0"
  from assms have k: "resumed = ?k" and sent: "send_message x (resume_confirm job d (unat ?k)) dl w = (Done (Ok ()), w')"
    by (auto simp: confirm_upload_from_remote_digest_def Let_def send_confirm_def resume_confirm_def bind_async_def
        ctx_async_def lift_async_def split: prod.splits outcome.splits sum.splits)
  have "sends x w w' [resume_confirm job d (unat ?k)]"
    by (rule send_message_outcome [of x "resume_confirm job d (unat ?k)" dl w]) (use sent in simp_all)
  with k show ?thesis by (simp add: unat_resumed)
qed

fun deciding :: "FileTransferEvent \<Rightarrow> bool" where
  "deciding (EvConfirm c) = True"
| "deciding (EvDigest d) = True"
| "deciding _ = False"

lemma ctx_async_Ok: "ctx_async c m dl w = (Done (Ok v), w') \<Longrightarrow> m dl w = (Done (Ok v), w')"
  by (auto simp: ctx_async_def split: prod.splits outcome.splits)

lemma confirm_loop_decides:
  assumes "confirm_loop x job total_bytes dl w = (Done (Ok (resumed, skip)), w')"
  shows "\<exists>ev ms. peer_answer x job (inbox w) = Some ev \<and> deciding ev \<and> unat resumed = resume_offset (unat total_bytes) ev \<and>
     skip = (\<exists>c. ev = EvConfirm c \<and> sc_union c = Some (Skip True)) \<and>
     sends x w w' (ms @ (case ev of EvDigest d \<Rightarrow> [resume_confirm job d (unat resumed)] | _ \<Rightarrow> []))"
  using assms
proof (induction "length (inbox w)" arbitrary: w rule: less_induct)
  case (less w)
  note step = confirm_loop.simps [of x job total_bytes dl w]
  from less.prems obtain ev w1 where ev: "recv_file_event x job dl w = (Done (Ok ev), w1)"
    by (auto simp: step ctx_async_def split: prod.splits outcome.splits sum.splits)
  note answer = recv_file_event_answer [OF ev]
  from answer(2) obtain ms where ms: "sends x w w1 ms" ..
  show ?case
  proof (cases ev)
    case (EvDone dn)
    have "length (inbox w1) < length (inbox w)" using ev by (metis recv_file_event_inbox)
    from less.hyps [OF this] less.prems ev EvDone obtain ev' ms' where
      "peer_answer x job (inbox w1) = Some ev'" "deciding ev'" "unat resumed = resume_offset (unat total_bytes) ev'"
      "skip = (\<exists>c. ev' = EvConfirm c \<and> sc_union c = Some (Skip True))"
      "sends x w1 w' (ms' @ (case ev' of EvDigest d \<Rightarrow> [resume_confirm job d (unat resumed)] | _ \<Rightarrow> []))"
      by (auto simp: step ctx_async_def)
    with answer(1) EvDone sends_trans [OF ms] show ?thesis
      by (intro exI [of _ ev'] exI [of _ "ms @ ms'"]) simp
  next
    case (EvDigest d)
    with less.prems ev have begun: "bind_async (confirm_upload_from_remote_digest x job d total_bytes)
        (\<lambda>resumed. return_async (resumed, False)) dl w1 = (Done (Ok (resumed, skip)), w')"
      by (simp add: step ctx_async_def)
    then have up: "confirm_upload_from_remote_digest x job d total_bytes dl w1 = (Done (Ok resumed), w')" and "\<not> skip"
      by (auto dest!: bind_async_Ok simp: lift_async_def)
    from confirm_upload_Ok [OF up] EvDigest have "unat resumed = resume_offset (unat total_bytes) ev" by blast
    moreover have "sends x w w' (ms @ [resume_confirm job d (unat resumed)])"
      using confirm_upload_Ok [OF up] sends_trans [OF ms] by blast
    ultimately show ?thesis using answer(1) EvDigest \<open>\<not> skip\<close>
      by (intro exI [of _ ev] exI [of _ ms]) (simp del: resume_offset.simps)
  next
    case (EvConfirm c)
    have "unat (ucast k :: u64) = unat k" for k :: u32
      using unsigned_less [of k, where 'a = nat] by (simp add: unsigned_ucast_eq take_bit_nat_eq_self)
    then have m: "unat (min (ucast k) total_bytes) = min (unat k) (unat total_bytes)" for k :: u32
      by (simp add: min_def word_le_nat_alt)
    from less.prems ev EvConfirm answer(1) ms show ?thesis
      by (auto simp: step ctx_async_def m split: option.splits confirm_union.splits bool.splits)
  next
    case (EvFileError er)
    with less.prems ev show ?thesis by (simp add: step ctx_async_def)
  qed
qed

lemma push_begin_answer:
  assumes "push_begin x fs nanos reads local_path remote_path dl w = (Done (Ok t), w1)"
  shows "\<exists>ev ms. peer_answer x (new_job_id nanos) (inbox w) = Some ev \<and> deciding ev \<and>
     unat (pt_resumed_bytes t) = resume_offset (unat (pt_total_bytes t)) ev \<and>
     pt_skip_transfer t = (\<exists>c. ev = EvConfirm c \<and> sc_union c = Some (Skip True)) \<and>
     sends x w w1 (ms @ (case ev of
       EvDigest d \<Rightarrow> [resume_confirm (new_job_id nanos) d (unat (pt_resumed_bytes t))] | _ \<Rightarrow> []))"
proof -
  let ?job = "new_job_id nanos"
  have send: "inbox v' = inbox v \<and> (\<exists>ms. sends x v v' ms)" if "send_message x m dl v = (Done (Ok ()), v')" for m v v'
    by (rule send_message_outcome [of x m dl v]) (use that in auto)
  from assms obtain len tgt v v' w2 skip modified where
    "send_message x (receive_request ?job tgt len modified) dl w = (Done (Ok ()), v)"
    "send_local_digest x ?job len modified True dl v = (Done (Ok ()), v')"
    and loop: "confirm_loop x ?job len dl v' = (Done (Ok (pt_resumed_bytes t, skip)), w2)"
    and rest: "w1 = w2" "pt_total_bytes t = len" "pt_skip_transfer t = skip"
    unfolding push_begin_def
    by (auto dest!: bind_async_Ok ctx_async_Ok simp: Let_def lift_async_def split: if_splits intro: that)
  with send [of _ w v] send [of _ v v'] obtain ms where ms: "inbox v' = inbox w" "sends x w v' ms"
    unfolding send_local_digest_def by (metis sends_trans)
  from confirm_loop_decides [OF loop] obtain ev ns where
    "peer_answer x ?job (inbox v') = Some ev" "deciding ev" "unat (pt_resumed_bytes t) = resume_offset (unat len) ev"
    "skip = (\<exists>c. ev = EvConfirm c \<and> sc_union c = Some (Skip True))"
    "sends x v' w2 (ns @ (case ev of EvDigest d \<Rightarrow> [resume_confirm ?job d (unat (pt_resumed_bytes t))] | _ \<Rightarrow> []))"
    by blast
  with ms rest sends_trans [OF ms(2)] show ?thesis
    by (intro exI [of _ ev] exI [of _ "ms @ ns"]) (simp del: resume_offset.simps)
qed

section \<open>Properties\<close>

text \<open>The witnesses push the three bytes \<^verbatim>\<open>abc\<close> to a peer that already has the first of them.\<close>

definition demo_fs :: local_fs where
  "demo_fs = \<lparr>fs_metadata = (\<lambda>_. Ok \<lparr>md_is_file = True, md_len = 3, md_modified = None\<rparr>),
     fs_open = (\<lambda>_. Ok [97, 98, 99]), fs_seek = (\<lambda>_ _. Ok ())\<rparr>"

definition demo_confirm :: message where
  "demo_confirm = MFileAction (Some (FSendConfirm \<lparr>sc_id = 1, sc_file_num = 0, sc_union = Some (OffsetBlk 1)\<rparr>))"

definition demo_delay :: TestDelay where
  "demo_delay = \<lparr>td_time = 4, td_from_client = False, td_last_delay = 5, td_target_bitrate = 6\<rparr>"

definition push_ext :: ext where
  "push_ext = table_ext [([1], demo_confirm), ([2], MOther), ([3], MTestDelay demo_delay)]"

lemma push_ext_decodes:
  "dec_msg push_ext [1] = Ok demo_confirm" "dec_msg push_ext [2] = Ok MOther"
  "dec_msg push_ext [3] = Ok (MTestDelay demo_delay)"
  by (simp_all add: push_ext_def table_ext_def)

text \<open>
  C5. A push delivers the part of the file the peer lacks. When \<^verbatim>\<open>begin\<close> succeeds on a file whose contents
  have the length its metadata gave, the first message of the job that decides the transfer fixes where it
  starts: the offset of a confirmation, cut to the length of the file; after a digest the size the peer
  says it has, but only when it calls its file identical, and otherwise the start of the file, and then the
  peer was told this very offset. When the loop over \<^verbatim>\<open>send_next_block\<close> ends without an error, the blocks sent,
  decompressed where they are marked so, none empty and none above 128 KiB, are the file from there on,
  and all bytes are reported as sent. This holds for every way the reads of the file cut it into pieces.
\<close>

theorem push_delivers_file:
  assumes "zstd_laws x" and "fs_metadata fs local_path = Ok md" and "fs_open fs local_path = Ok contents"
    and "unat (md_len md) = length contents"
    and "push_begin x fs nanos reads local_path remote_path None w = (Done (Ok t), w1)"
    and "\<not> pt_skip_transfer t" and "push_blocks x t w1 = (Done (Ok ()), t', w2)"
  shows "\<exists>ev ns ds ms. peer_answer x (new_job_id nanos) (inbox w) = Some ev \<and>
     (case ev of
        EvConfirm c \<Rightarrow> unat (pt_resumed_bytes t) =
          (case sc_union c of Some (OffsetBlk k) \<Rightarrow> min (unat k) (length contents) | _ \<Rightarrow> 0)
      | EvDigest d \<Rightarrow>
          unat (pt_resumed_bytes t) =
            (if dg_is_identical d then min (min (unat (dg_transferred_size d)) (length contents)) (2 ^ 32 - 1) else 0) \<and>
          sends x w w1 (ns @ [resume_confirm (new_job_id nanos) d (unat (pt_resumed_bytes t))])
      | _ \<Rightarrow> False) \<and>
     sends x w1 w2 ms \<and> list_all2 (block_of x) ds ms \<and>
     contents = take (unat (pt_resumed_bytes t)) contents @ concat ds \<and>
     pt_sent_bytes t' = md_len md"
proof -
  from push_begin_Ok [OF assms(5)] assms(2,3) have begun: "pt_resumed_bytes t \<le> md_len md"
    "pt_sent_bytes t = pt_resumed_bytes t" "fh_rest (pt_file t) = drop (unat (pt_resumed_bytes t)) contents"
    "pt_total_bytes t = md_len md" by auto
  from push_blocks_result [OF assms(1,6), of w1] assms(7) obtain ds ms rest where
    sent: "sends x w1 w2 ms" "list_all2 (block_of x) ds ms" "fh_rest (pt_file t) = concat ds @ rest" "rest = []"
    "pt_sent_bytes t' = pt_sent_bytes t + of_nat (length (fh_rest (pt_file t)))" by auto
  have "unat (pt_resumed_bytes t) \<le> length contents" using begun(1) assms(4) by (simp add: word_le_nat_alt)
  then have "pt_sent_bytes t' = of_nat (unat (pt_resumed_bytes t) + (length contents - unat (pt_resumed_bytes t)))"
    unfolding sent(5) begun(2,3) by (simp add: of_nat_diff)
  with \<open>unat (pt_resumed_bytes t) \<le> length contents\<close> have "pt_sent_bytes t' = md_len md"
    by (simp flip: assms(4))
  moreover have "contents = take (unat (pt_resumed_bytes t)) contents @ concat ds"
    using sent(3,4) begun(3) by (metis append_Nil2 append_take_drop_id)
  moreover from push_begin_answer [OF assms(5)] begun(4) assms(4,6) obtain ev ns where
    "peer_answer x (new_job_id nanos) (inbox w) = Some ev" "unat (pt_resumed_bytes t) = resume_offset (length contents) ev"
    "\<not> (\<exists>c. ev = EvConfirm c \<and> sc_union c = Some (Skip True))" "deciding ev"
    "sends x w w1 (ns @ (case ev of EvDigest d \<Rightarrow> [resume_confirm (new_job_id nanos) d (unat (pt_resumed_bytes t))] | _ \<Rightarrow> []))"
    by auto
  ultimately show ?thesis using sent(1,2)
    by (intro exI [of _ ev] exI [of _ ns] exI [of _ ds] exI [of _ ms])
      (auto split: FileTransferEvent.splits option.splits confirm_union.splits)
qed

lemma demo_job: "new_job_id 0 = 1"
  by (simp add: new_job_id_def)

lemma demo_confirm_event:
  "recv_file_event push_ext 1 dl w = (Done (Ok (EvConfirm \<lparr>sc_id = 1, sc_file_num = 0, sc_union = Some (OffsetBlk 1)\<rparr>)), w1)"
  if "stream_recv dl w = (Done (Ok [1]), w1)"
  using that by (simp add: recv_file_event.simps ctx_async_def push_ext_decodes demo_confirm_def file_input_def)

lemma demo_begin:
  "\<exists>w1. push_begin push_ext demo_fs 0 [] ''/tmp/a'' ''b'' None (net_start [(5, Ok [1])]) =
     (Done (Ok \<lparr>pt_local_path = ''/tmp/a'', pt_remote_path = ''b'', pt_file = \<lparr>fh_rest = [98, 99], fh_reads = []\<rparr>,
        pt_total_bytes = 3, pt_sent_bytes = 1, pt_transferred_bytes = 0, pt_resumed_bytes = 1, pt_job_id = 1,
        pt_skip_transfer = False\<rparr>), w1) \<and> faults w1 = []"
proof -
  have target: "is_ok (parse_remote_target ''b'' ''/tmp/a'')" by code_simp
  then obtain tg where tg: "parse_remote_target ''b'' ''/tmp/a'' = Ok tg" by (auto simp: is_ok_iff)
  show ?thesis
    unfolding push_begin_def
    by (simp add: bind_async_def lift_async_def demo_fs_def tg demo_job Let_def ctx_async_def send_message_def
        stream_send_def send_local_digest_def confirm_loop.simps stream_recv_def demo_confirm_event)
qed

theorem push_delivers_file_witness:
  "\<exists>t w1 t' w2 ds ms. push_begin push_ext demo_fs 0 [] ''/tmp/a'' ''b'' None (net_start [(5, Ok [1])]) =
       (Done (Ok t), w1) \<and> push_blocks push_ext t w1 = (Done (Ok ()), t', w2) \<and>
     pt_resumed_bytes t = 1 \<and> sends push_ext w1 w2 ms \<and> list_all2 (block_of push_ext) ds ms \<and> [97, 98, 99] = [97] @ concat ds \<and>
     pt_sent_bytes t' = 3"
proof -
  obtain t w1 where t: "push_begin push_ext demo_fs 0 [] ''/tmp/a'' ''b'' None (net_start [(5, Ok [1])]) =
      (Done (Ok t), w1)" "pt_file t = \<lparr>fh_rest = [98, 99], fh_reads = []\<rparr>" "pt_resumed_bytes t = 1"
    "\<not> pt_skip_transfer t" "faults w1 = []"
    using demo_begin by fastforce
  have z: "zstd_encode push_ext bs = Ok bs" for bs by (simp add: push_ext_def table_ext_def)
  obtain t' w2 where b: "push_blocks push_ext t w1 = (Done (Ok ()), t', w2)"
    using t by (simp add: push_blocks.simps send_next_block_def file_read_def FILE_TRANSFER_BLOCK_SIZE_def
        compress_chunk_def z ctx_async_def send_message_def stream_send_def)
  from push_delivers_file [of push_ext demo_fs "''/tmp/a''" "\<lparr>md_is_file = True, md_len = 3, md_modified = None\<rparr>"
      "[97, 98, 99]" 0 "[]" "''b''" "net_start [(5, Ok [1])]" t w1 t' w2] t b
  have "\<exists>ds ms. sends push_ext w1 w2 ms \<and> list_all2 (block_of push_ext) ds ms \<and> [97, 98, 99] = [97] @ concat ds \<and>
      pt_sent_bytes t' = 3"
    by (auto simp: demo_fs_def push_ext_def table_ext_zstd)
  with t b show ?thesis by blast
qed

text \<open>
  C29. A transfer reacts to its own job only. The event \<^verbatim>\<open>recv_file_event\<close> returns is the first
  message that carries the id of the job; everything before it was a heartbeat, a message of another
  kind or of another job, or a test delay, each of which was answered, in order, and nothing else was
  sent.
\<close>

theorem recv_file_event_own_job:
  assumes "recv_file_event x job dl w = (Done (Ok ev), w')"
  shows "\<exists>pre t raw m. inbox w = pre @ (t, Ok raw) # inbox w' \<and> list_all (passed_over x job) pre \<and>
     dec_msg x raw = Ok m \<and> file_input job m = FEvent ev \<and>
     (case ev of EvDigest d \<Rightarrow> dg_id d = job | EvConfirm c \<Rightarrow> sc_id c = job
               | EvDone d \<Rightarrow> dn_id d = job | EvFileError e \<Rightarrow> fr_id e = job) \<and>
     sends x w w' (delay_echoes x pre)"
proof -
  have own: "case ev of EvDigest d \<Rightarrow> dg_id d = job | EvConfirm c \<Rightarrow> sc_id c = job
      | EvDone d \<Rightarrow> dn_id d = job | EvFileError e \<Rightarrow> fr_id e = job"
    if "file_input job m = FEvent ev" for m
    using that by (auto simp: file_input_def split: message.splits option.splits file_action.splits
        file_response.splits misc.splits if_splits)
  from recv_file_event_Ok [OF assms] obtain pre t raw m where
    ev: "inbox w = pre @ (t, Ok raw) # inbox w'" "list_all (passed_over x job) pre"
    "dec_msg x raw = Ok m" "file_input job m = FEvent ev" "sends x w w' (delay_echoes x pre)"
    by blast
  with own [OF ev(4)] show ?thesis by blast
qed

theorem recv_file_event_own_job_witness:
  "\<exists>ev w' pre t raw m. recv_file_event push_ext 1 None (net_start [(2, Ok [2]), (5, Ok [1])]) = (Done (Ok ev), w') \<and>
     [(2, Ok [2]), (5, Ok [1])] = pre @ (t, Ok raw) # inbox w' \<and> dec_msg push_ext raw = Ok m \<and>
     file_input 1 m = FEvent ev"
proof -
  obtain ev w' where "recv_file_event push_ext 1 None (net_start [(2, Ok [2]), (5, Ok [1])]) = (Done (Ok ev), w')"
    by (simp add: recv_file_event.simps [of _ _ _ "net_start ms" for ms] ctx_async_def stream_recv_def
        push_ext_decodes file_input_def [of _ MOther] demo_confirm_event)
  from this recv_file_event_own_job [OF this] show ?thesis by auto
qed

lemma split_char_parts: "q \<in> set (split_char c s) \<Longrightarrow> c \<notin> set q"
  by (induction c s arbitrary: q rule: split_char.induct) (auto split: if_splits list.splits)

lemma path_file_name_Some:
  assumes "path_file_name p = Some n"
  shows "n \<noteq> []" and "CHR ''/'' \<notin> set n"
proof -
  from assms obtain ns where "rev (filter (\<lambda>c. c \<noteq> [] \<and> c \<noteq> ''.'') (split_char CHR ''/'' p)) = n # ns"
    by (auto simp: path_file_name_def split: list.splits if_splits)
  then have "n \<in> set (filter (\<lambda>c. c \<noteq> [] \<and> c \<noteq> ''.'') (split_char CHR ''/'' p))"
    by (metis list.set_intros(1) set_rev)
  then show "n \<noteq> []" and "CHR ''/'' \<notin> set n" using split_char_parts by auto
qed

text \<open>
  Where a file is pushed to. A remote path that is blank, or a local path without a file name, is an
  error; a path that ends with a slash names a directory, in which the file keeps its local name; a path
  with a slash inside is split at its last one; any other path is a file of the working directory. So the
  directory is never empty, and the file name is never empty and has no slash.
\<close>

theorem parse_remote_target_spec:
  "case parse_remote_target remote_path local_path of
     Inl _ \<Rightarrow> trim remote_path = [] \<or> path_file_name local_path = None
   | Inr t \<Rightarrow> trim remote_path \<noteq> [] \<and> rt_dir t \<noteq> [] \<and> rt_file_name t \<noteq> [] \<and> CHR ''/'' \<notin> set (rt_file_name t) \<and>
       (if ends_with (trim remote_path) ''/'' then
          path_file_name local_path = Some (rt_file_name t) \<and>
          rt_dir t = (if trim_end_matches ''/'' (trim remote_path) = [] then ''/''
                      else trim_end_matches ''/'' (trim remote_path))
        else trim remote_path = rt_file_name t \<and> rt_dir t = ''.'' \<or>
             trim remote_path = rt_dir t @ ''/'' @ rt_file_name t \<or>
             trim remote_path = ''/'' @ rt_file_name t \<and> rt_dir t = ''/'')"
proof (cases "trim remote_path = [] \<or> path_file_name local_path = None")
  case True
  then have "\<exists>e. parse_remote_target remote_path local_path = Inl e"
    by (cases "trim remote_path = []") (simp_all add: parse_remote_target_def bail_def)
  with True show ?thesis by (elim exE) simp
next
  case False
  then obtain n where n: "path_file_name local_path = Some n" "trim remote_path \<noteq> []" by auto
  note name = path_file_name_Some [OF n(1)]
  show ?thesis
  proof (cases "ends_with (trim remote_path) ''/''")
    case True
    with n name show ?thesis by (simp add: parse_remote_target_def Let_def)
  next
    case no_slash: False
    have val: "parse_remote_target remote_path local_path =
        (case rsplit_once (trim remote_path) CHR ''/'' of
           Some (dir, file_name) \<Rightarrow>
             if file_name = [] then bail (''remote path has no file name: '' @ remote_path)
             else Ok \<lparr>rt_dir = if dir = [] then ''/'' else dir, rt_file_name = file_name\<rparr>
         | None \<Rightarrow> Ok \<lparr>rt_dir = ''.'', rt_file_name = trim remote_path\<rparr>)"
      unfolding parse_remote_target_def Let_def n(1) option.case if_not_P [OF n(2)] if_not_P [OF no_slash] ..
    show ?thesis
    proof (cases "rsplit_once (trim remote_path) CHR ''/''")
      case None
      with n no_slash rsplit_once_None [THEN iffD1, OF None] show ?thesis unfolding val None by simp
    next
      case (Some p)
      obtain dir fname where p: "p = (dir, fname)" by force
      with Some have split: "trim remote_path = dir @ CHR ''/'' # fname" "CHR ''/'' \<notin> set fname"
        by (auto simp: rsplit_once_Some)
      with no_slash have "fname \<noteq> []" by (auto simp: ends_with_iff)
      with split no_slash show ?thesis unfolding val Some p by simp
    qed
  qed
qed

end
