(* ===== verification/Capture.thy ===== *)
theory Capture
  imports Messages Session
begin

text \<open>
  \<^verbatim>\<open>src/capture.rs\<close>: asking the peer for a screenshot and cutting and converting the picture. The crate
  \<^verbatim>\<open>image\<close> is the record \<open>image_lib\<close> (decoding, the size of a picture, cutting and the two encoders).
  Writing the result to a file or to the standard output is part of the command line program's effects.
\<close>

section \<open>Pictures\<close>

record CaptureOptions =
  co_format :: "string option"
  co_quality :: "u8 option"
  co_region :: "CaptureRegion option"
  co_display :: "i32 option"

record 'img image_lib =
  load_from_memory :: "bytes \<Rightarrow> 'img result"
  dimensions :: "'img \<Rightarrow> u32 \<times> u32"
  crop_imm :: "'img \<Rightarrow> u32 \<Rightarrow> u32 \<Rightarrow> u32 \<Rightarrow> u32 \<Rightarrow> 'img"
  encode_jpeg :: "u8 \<Rightarrow> 'img \<Rightarrow> bytes result"
  encode_png :: "'img \<Rightarrow> bytes result"

definition checked_add :: "u32 \<Rightarrow> u32 \<Rightarrow> u32 option" where
  "checked_add a b = (if unat a + unat b < 2 ^ 32 then Some (a + b) else None)"

definition bounds_error :: "CaptureRegion \<Rightarrow> u32 \<Rightarrow> u32 \<Rightarrow> string" where
  "bounds_error r width height =
     ''capture region '' @ show_nat (unat (r_x r)) @ '','' @ show_nat (unat (r_y r)) @ '','' @
     show_nat (unat (r_w r)) @ '','' @ show_nat (unat (r_h r)) @ '' exceeds image bounds '' @
     show_nat (unat width) @ ''x'' @ show_nat (unat height)"

definition crop_image :: "'img image_lib \<Rightarrow> 'img \<Rightarrow> CaptureRegion \<Rightarrow> 'img result" where
  "crop_image lib img r =
     (case dimensions lib img of (width, height) \<Rightarrow>
      bind_result (ok_or ''capture region x overflow'' (checked_add (r_x r) (r_w r))) (\<lambda>x2.
      bind_result (ok_or ''capture region y overflow'' (checked_add (r_y r) (r_h r))) (\<lambda>y2.
      if width < x2 \<or> height < y2 then bail (bounds_error r width height)
      else Ok (crop_imm lib img (r_x r) (r_y r) (r_w r) (r_h r)))))"

definition encode_image :: "'img image_lib \<Rightarrow> 'img \<Rightarrow> CaptureOptions \<Rightarrow> bytes result" where
  "encode_image lib img opts =
     (let format = (case co_format opts of Some f \<Rightarrow> f | None \<Rightarrow> ''png'') in
      if eq_ignore_ascii_case format ''jpg'' \<or> eq_ignore_ascii_case format ''jpeg'' then
        let quality = (case co_quality opts of Some q \<Rightarrow> q | None \<Rightarrow> 90) in
        with_ctx ''encoding screenshot as JPEG'' (encode_jpeg lib quality img)
      else with_ctx ''encoding screenshot as PNG'' (encode_png lib img))"

definition process_screenshot_bytes :: "'img image_lib \<Rightarrow> bytes \<Rightarrow> CaptureOptions \<Rightarrow> bytes result" where
  "process_screenshot_bytes lib bs opts =
     (let needs_processing =
            co_region opts \<noteq> None \<or>
            (case co_format opts of Some f \<Rightarrow> \<not> eq_ignore_ascii_case f ''png'' | None \<Rightarrow> False) \<or>
            co_quality opts \<noteq> None in
      if \<not> needs_processing then Ok bs
      else
        bind_result (with_ctx ''decoding screenshot image'' (load_from_memory lib bs)) (\<lambda>img.
        bind_result (case co_region opts of Some r \<Rightarrow> crop_image lib img r | None \<Rightarrow> Ok img) (\<lambda>img.
        encode_image lib img opts)))"

section \<open>The request\<close>

text \<open>The body of the loop that waits for the response.\<close>

definition screenshot_input ::
  "ext \<Rightarrow> 'img image_lib \<Rightarrow> string \<Rightarrow> CaptureOptions \<Rightarrow> bytes result \<Rightarrow> bytes result option" where
  "screenshot_input x lib sid opts received =
     (case with_ctx ''waiting for ScreenshotResponse'' received of
        Inl e \<Rightarrow> Some (Err e)
      | Inr raw \<Rightarrow>
          (case with_ctx ''decoding screenshot Message'' (dec_msg x raw) of
             Inl e \<Rightarrow> Some (Err e)
           | Inr (MScreenshotResponse response) \<Rightarrow>
               if sr_sid response \<noteq> sid then None
               else if sr_msg response \<noteq> [] then Some (bail (''screenshot failed: '' @ sr_msg response))
               else Some (process_screenshot_bytes lib (sr_data response) opts)
           | Inr _ \<Rightarrow> None))"

definition request_screenshot_with_sid ::
  "ext \<Rightarrow> 'img image_lib \<Rightarrow> i32 \<Rightarrow> string \<Rightarrow> CaptureOptions \<Rightarrow> bytes async" where
  "request_screenshot_with_sid x lib display sid opts =
     bind_async (ctx_async ''sending ScreenshotRequest''
       (send_message x (MScreenshotRequest \<lparr>sq_display = display, sq_sid = sid\<rparr>))) (\<lambda>_.
     recv_until (screenshot_input x lib sid opts))"

text \<open>\<open>process_id\<close> and \<open>nanos\<close> are the process id and the time the request's id is made of.\<close>

definition request_screenshot ::
  "ext \<Rightarrow> 'img image_lib \<Rightarrow> nat \<Rightarrow> nat \<Rightarrow> CaptureOptions \<Rightarrow> bytes async" where
  "request_screenshot x lib process_id nanos opts =
     request_screenshot_with_sid x lib (case co_display opts of Some d \<Rightarrow> d | None \<Rightarrow> 0)
       (''rustdesk-cli-'' @ show_nat process_id @ ''-'' @ show_nat nanos) opts"

section \<open>Lemmas\<close>

lemma wb_request_screenshot [simp]: "well_behaved (request_screenshot x lib p n opts)"
  unfolding request_screenshot_def request_screenshot_with_sid_def by (intro wb_bind) auto

definition region_fits :: "CaptureRegion \<Rightarrow> u32 \<times> u32 \<Rightarrow> bool" where
  "region_fits r d \<longleftrightarrow> unat (r_x r) + unat (r_w r) \<le> unat (fst d) \<and> unat (r_y r) + unat (r_h r) \<le> unat (snd d)"

lemma checked_add_Some: "checked_add a b = Some c \<longleftrightarrow> unat c = unat a + unat b"
proof
  assume "checked_add a b = Some c"
  then show "unat c = unat a + unat b" by (auto simp: checked_add_def unat_word_ariths split: if_splits)
next
  assume c: "unat c = unat a + unat b"
  moreover have "unat c < 2 ^ 32" using unsigned_less [of c, where 'a = nat] by simp
  moreover from c have "c = a + b" by (metis of_nat_add of_nat_unat ucast_id)
  ultimately show "checked_add a b = Some c" by (simp add: checked_add_def)
qed

lemma crop_image_result:
  "crop_image lib img r = Ok (crop_imm lib img (r_x r) (r_y r) (r_w r) (r_h r)) \<and> region_fits r (dimensions lib img) \<or>
   (\<exists>e. crop_image lib img r = Err e) \<and> \<not> region_fits r (dimensions lib img)"
proof -
  obtain width height where d: "dimensions lib img = (width, height)" by force
  note crop = crop_image_def [of lib img r]
  show ?thesis
  proof (cases "checked_add (r_x r) (r_w r)")
    case None
    then have "2 ^ 32 \<le> unat (r_x r) + unat (r_w r)" by (auto simp: checked_add_def split: if_splits)
    moreover have "unat width < 2 ^ 32" using unsigned_less [of width, where 'a = nat] by simp
    ultimately have "\<not> region_fits r (width, height)" by (simp add: region_fits_def)
    with None d show ?thesis by (simp add: crop bail_def)
  next
    case (Some x2)
    note x2 = Some Some [unfolded checked_add_Some]
    show ?thesis
    proof (cases "checked_add (r_y r) (r_h r)")
      case None
      then have "2 ^ 32 \<le> unat (r_y r) + unat (r_h r)" by (auto simp: checked_add_def split: if_splits)
      moreover have "unat height < 2 ^ 32" using unsigned_less [of height, where 'a = nat] by simp
      ultimately have "\<not> region_fits r (width, height)" by (simp add: region_fits_def)
      with None x2 d show ?thesis by (simp add: crop bail_def)
    next
      case (Some y2)
      with x2 d Some [unfolded checked_add_Some] show ?thesis
        by (auto simp: crop region_fits_def word_less_nat_alt bail_def)
    qed
  qed
qed

section \<open>Properties\<close>

text \<open>
  C34. Cutting a region. \<^verbatim>\<open>crop_image\<close> cuts exactly the requested region when it lies inside the picture,
  measured without wrap-around, and is an error otherwise, also when the sums overflow 32 bits.
\<close>

theorem crop_image_bounds:
  "if unat (r_x r) + unat (r_w r) \<le> unat (fst (dimensions lib img)) \<and>
      unat (r_y r) + unat (r_h r) \<le> unat (snd (dimensions lib img))
   then crop_image lib img r = Ok (crop_imm lib img (r_x r) (r_y r) (r_w r) (r_h r))
   else \<not> is_ok (crop_image lib img r)"
  using crop_image_result [of lib img r] by (auto simp: region_fits_def)

text \<open>
  A screenshot is the answer to its own request. \<^verbatim>\<open>request_screenshot_with_sid\<close> sends one request,
  and when it succeeds its result is made of the first response that carries the id of the request and
  no error, and everything received before that was some other message.
\<close>

theorem screenshot_own_response:
  assumes "request_screenshot_with_sid x lib display sid opts dl w = (Done (Ok bs), w')"
  shows "\<exists>pre t raw resp. inbox w = pre @ (t, Ok raw) # inbox w' \<and>
     dec_msg x raw = Ok (MScreenshotResponse resp) \<and> sr_sid resp = sid \<and> sr_msg resp = [] \<and>
     process_screenshot_bytes lib (sr_data resp) opts = Ok bs \<and>
     list_all (\<lambda>p. screenshot_input x lib sid opts (snd p) = None) pre \<and>
     sends x w w' [MScreenshotRequest \<lparr>sq_display = display, sq_sid = sid\<rparr>]"
proof -
  from assms obtain w1 where w1: "send_message x (MScreenshotRequest \<lparr>sq_display = display, sq_sid = sid\<rparr>) dl w = (Done (Ok ()), w1)"
    and loop: "recv_until (screenshot_input x lib sid opts) dl w1 = (Done (Ok bs), w')"
    by (auto simp: request_screenshot_with_sid_def bind_async_def ctx_async_def split: prod.splits outcome.splits sum.splits)
  have sent: "sends x w w1 [MScreenshotRequest \<lparr>sq_display = display, sq_sid = sid\<rparr>]" "inbox w1 = inbox w"
    by (rule send_message_outcome [of x "MScreenshotRequest \<lparr>sq_display = display, sq_sid = sid\<rparr>" dl w], use w1 in auto)+
  from recv_until_Done [OF loop] obtain pre t r where r: "inbox w1 = pre @ (t, r) # inbox w'"
    "list_all (\<lambda>p. screenshot_input x lib sid opts (snd p) = None) pre"
    "screenshot_input x lib sid opts r = Some (Ok bs)" "outbox w' = outbox w1" by blast
  from r(3) obtain raw resp where "r = Ok raw" "dec_msg x raw = Ok (MScreenshotResponse resp)" "sr_sid resp = sid"
    "sr_msg resp = []" "process_screenshot_bytes lib (sr_data resp) opts = Ok bs"
    by (auto simp: screenshot_input_def split: sum.splits message.splits if_splits)
  with r sent show ?thesis by (auto simp: sends_def)
qed

definition demo_lib :: "bytes image_lib" where
  "demo_lib = \<lparr>load_from_memory = (\<lambda>b. Ok b), dimensions = (\<lambda>b. (of_nat (length b), 1)),
     crop_imm = (\<lambda>b x y w h. take (unat w) (drop (unat x) b)), encode_jpeg = (\<lambda>q b. Ok b),
     encode_png = (\<lambda>b. Ok b)\<rparr>"

definition shot_ext :: ext where
  "shot_ext = table_ext [([1], MScreenshotResponse \<lparr>sr_sid = ''other'', sr_msg = [], sr_data = [9]\<rparr>),
     ([2], MScreenshotResponse \<lparr>sr_sid = ''me'', sr_msg = [], sr_data = [7, 8]\<rparr>)]"

theorem screenshot_own_response_witness:
  "\<exists>bs w' pre t raw resp. request_screenshot_with_sid shot_ext demo_lib 0 ''me''
       \<lparr>co_format = None, co_quality = None, co_region = None, co_display = None\<rparr> None
       (net_start [(1, Ok [1]), (2, Ok [2])]) = (Done (Ok bs), w') \<and>
     [(1, Ok [1]), (2, Ok [2])] = pre @ (t, Ok raw) # inbox w' \<and>
     dec_msg shot_ext raw = Ok (MScreenshotResponse resp) \<and> sr_sid resp = ''me'' \<and> bs = [7, 8]"
proof -
  let ?opts = "\<lparr>co_format = None, co_quality = None, co_region = None, co_display = None\<rparr>"
  have "\<exists>w'. request_screenshot_with_sid shot_ext demo_lib 0 ''me'' ?opts None
      (net_start [(1, Ok [1]), (2, Ok [2])]) = (Done (Ok [7, 8]), w')"
    by (simp add: request_screenshot_with_sid_def bind_async_def ctx_async_def send_message_def stream_send_def
        recv_until.simps stream_recv_def screenshot_input_def shot_ext_def table_ext_def process_screenshot_bytes_def)
  then obtain w' where w': "request_screenshot_with_sid shot_ext demo_lib 0 ''me'' ?opts None
      (net_start [(1, Ok [1]), (2, Ok [2])]) = (Done (Ok [7, 8]), w')" by blast
  from w' screenshot_own_response [OF w'] show ?thesis by auto
qed

end
