(* ===== verification/Base64.thy ===== *)
theory Base64
  imports Rust_Strings
begin

text \<open>
  The three base64 routines of the program: \<^verbatim>\<open>base64_encode\<close> and \<^verbatim>\<open>base64_decode\<close> of
  \<^verbatim>\<open>src/capture.rs\<close>, which carry screenshots through the JSON protocol between daemon and
  CLI, and the lenient \<^verbatim>\<open>base64_decode\<close> of \<^verbatim>\<open>src/connection.rs\<close> behind
  \<^verbatim>\<open>decode_server_key\<close>.
\<close>

section \<open>Definitions\<close>

text \<open>\<^verbatim>\<open>slice::chunks(n)\<close>; the code only calls it with a positive constant.\<close>

function chunks :: "nat \<Rightarrow> 'a list \<Rightarrow> 'a list list" where
  "chunks n xs = (if xs = [] \<or> n = 0 then [] else take n xs # chunks n (drop n xs))"
  by pat_completeness auto
termination
  by (relation "measure (\<lambda>(n, xs). length xs)") auto

declare chunks.simps [simp del]

definition b64_alphabet :: string where
  "b64_alphabet = ''ABCDEFGHIJKLMNOPQRSTUVWXYZabcdefghijklmnopqrstuvwxyz0123456789+/''"

definition b64_char :: "u8 \<Rightarrow> char" where
  "b64_char i = b64_alphabet ! unat i"

definition get_or_zero :: "bytes \<Rightarrow> nat \<Rightarrow> u8" where
  "get_or_zero xs i = (if i < length xs then xs ! i else 0)"

definition encode_chunk :: "bytes \<Rightarrow> string" where
  "encode_chunk chunk =
     (let b0 = chunk ! 0; b1 = get_or_zero chunk 1; b2 = get_or_zero chunk 2 in
      [b64_char (drop_bit 2 b0),
       b64_char (push_bit 4 (b0 AND 0x03) OR drop_bit 4 b1),
       (if 1 < length chunk then b64_char (push_bit 2 (b1 AND 0x0f) OR drop_bit 6 b2) else CHR ''=''),
       (if 2 < length chunk then b64_char (b2 AND 0x3f) else CHR ''='')])"

definition base64_encode :: "bytes \<Rightarrow> string" where
  "base64_encode input = concat (map encode_chunk (chunks 3 input))"

text \<open>\<^verbatim>\<open>c as char\<close> for a byte, as UTF-8.\<close>

definition u8_as_char :: "u8 \<Rightarrow> string" where
  "u8_as_char c = (if c < 128 then [char_of (unat c)]
     else [char_of (unat (0xC0 OR drop_bit 6 c)), char_of (unat (0x80 OR (c AND 0x3F)))])"

definition b64_val :: "u8 \<Rightarrow> u8 result" where
  "b64_val c =
     (if 65 \<le> c \<and> c \<le> 90 then Ok (c - 65)
      else if 97 \<le> c \<and> c \<le> 122 then Ok (c - 97 + 26)
      else if 48 \<le> c \<and> c \<le> 57 then Ok (c - 48 + 52)
      else if c = 43 then Ok 62
      else if c = 47 then Ok 63
      else bail (''invalid base64 character: '' @ u8_as_char c))"

definition pad_byte :: u8 where "pad_byte = 61"

text \<open>One round of the loop of \<^verbatim>\<open>capture::base64_decode\<close>, on a chunk of four bytes.\<close>

definition decode_chunk :: "bytes \<Rightarrow> bytes result" where
  "decode_chunk chunk =
     (let pad = length (takeWhile (\<lambda>b. b = pad_byte) (rev chunk)) in
      bind_result (b64_val (chunk ! 0)) (\<lambda>c0.
      bind_result (b64_val (chunk ! 1)) (\<lambda>c1.
      bind_result (if chunk ! 2 = pad_byte then Ok 0 else b64_val (chunk ! 2)) (\<lambda>c2.
      bind_result (if chunk ! 3 = pad_byte then Ok 0 else b64_val (chunk ! 3)) (\<lambda>c3.
      let n = push_bit 18 (ucast c0 :: u32) OR push_bit 12 (ucast c1)
              OR push_bit 6 (ucast c2) OR ucast c3 in
      Ok ([ucast (drop_bit 16 n AND 0xff)]
          @ (if pad < 2 then [ucast (drop_bit 8 n AND 0xff)] else [])
          @ (if pad < 1 then [ucast (n AND 0xff)] else [])))))))"

fun decode_chunks :: "(bytes \<Rightarrow> bytes result) \<Rightarrow> bytes list \<Rightarrow> bytes result" where
  "decode_chunks dec [] = Ok []"
| "decode_chunks dec (c # cs) =
     bind_result (dec c) (\<lambda>out. bind_result (decode_chunks dec cs) (\<lambda>more. Ok (out @ more)))"

definition base64_decode :: "string \<Rightarrow> bytes result" where
  "base64_decode input =
     (let bytes = str_bytes input in
      if length bytes mod 4 \<noteq> 0 then bail ''invalid base64 length''
      else decode_chunks decode_chunk (chunks 4 bytes))"

text \<open>The inner loop of \<^verbatim>\<open>connection::base64_decode\<close>: \<open>i\<close> counts the bytes of the chunk.\<close>

fun key_chunk_bits :: "nat \<Rightarrow> bytes \<Rightarrow> u32 \<Rightarrow> u32 result" where
  "key_chunk_bits i [] buf = Ok buf"
| "key_chunk_bits i (b # bs) buf =
     bind_result (b64_val b) (\<lambda>v. key_chunk_bits (Suc i) bs (buf OR push_bit (18 - 6 * i) (ucast v)))"

definition decode_key_chunk :: "bytes \<Rightarrow> bytes result" where
  "decode_key_chunk chunk =
     (let len = length chunk in
      bind_result (key_chunk_bits 0 chunk 0) (\<lambda>buf.
      Ok ([ucast (drop_bit 16 buf)]
          @ (if 2 < len then [ucast (drop_bit 8 buf)] else [])
          @ (if 3 < len then [ucast buf] else []))))"

definition base64_decode_key :: "string \<Rightarrow> bytes result" where
  "base64_decode_key input =
     (let input = trim_end_matches [CHR ''=''] input in
      decode_chunks decode_key_chunk (chunks 4 (str_bytes input)))"

definition decode_server_key :: "string \<Rightarrow> bytes result" where
  "decode_server_key base64_key =
     bind_result (with_ctx ''invalid base64 server key'' (base64_decode_key base64_key)) (\<lambda>bytes.
     if length bytes = 32 then Ok bytes
     else bail (''server key is '' @ show_nat (length bytes) @ '' bytes, expected 32''))"

section \<open>Chunks\<close>

lemma chunks_Nil [simp]: "chunks n [] = []"
  by (simp add: chunks.simps)

lemma chunks_append:
  assumes "length xs = n" and "0 < n"
  shows "chunks n (xs @ ys) = xs # chunks n ys"
  using assms by (subst chunks.simps) auto

lemma chunks_short:
  assumes "xs \<noteq> []" and "length xs \<le> n"
  shows "chunks n xs = [xs]"
  using assms by (subst chunks.simps) (cases n; auto)

text \<open>Induction along the chunks of three bytes that the encoder takes.\<close>

lemma chunk3_induct [case_names Nil One Two More]:
  assumes "P []" and "\<And>a. P [a]" and "\<And>a b. P [a, b]"
    and "\<And>a b c xs. P xs \<Longrightarrow> P (a # b # c # xs)"
  shows "P xs"
proof (induction xs rule: length_induct)
  case (1 xs)
  show ?case
  proof (cases xs rule: list.exhaust)
    case (Cons a ys)
    show ?thesis
    proof (cases ys)
      case (Cons b zs)
      with \<open>xs = a # ys\<close> 1 show ?thesis by (cases zs) (auto intro: assms)
    qed (simp add: \<open>xs = a # ys\<close> assms)
  qed (simp add: assms)
qed

lemma base64_encode_simps [simp]:
  "base64_encode [] = []"
  "base64_encode [a] = encode_chunk [a]"
  "base64_encode [a, b] = encode_chunk [a, b]"
  "base64_encode (a # b # c # xs) = encode_chunk [a, b, c] @ base64_encode xs"
  using chunks_append [of "[a, b, c]" 3 xs]
  by (simp_all add: base64_encode_def chunks_short)

lemma length_encode_chunk [simp]: "length (encode_chunk c) = 4"
  by (simp add: encode_chunk_def Let_def)

section \<open>The alphabet\<close>

lemma b64_val_alphabet:
  "map (\<lambda>c. b64_val (of_nat (chr_code c))) b64_alphabet = map (\<lambda>n. Ok (of_nat n)) [0..<64]"
  by (simp add: b64_alphabet_def b64_val_def upt_conv_Cons)

lemma b64_alphabet_props:
  "length b64_alphabet = 64" "CHR ''='' \<notin> set b64_alphabet" "\<forall>c\<in>set b64_alphabet. chr_code c < 128"
  by (simp_all add: b64_alphabet_def)

lemma b64_val_b64_char:
  assumes "i < 64"
  shows "b64_val (of_nat (chr_code (b64_char i))) = Ok i" and "b64_char i \<noteq> CHR ''=''"
proof -
  from assms have i: "unat i < 64" by (simp add: word_less_nat_alt)
  with arg_cong [OF b64_val_alphabet, of "\<lambda>xs. xs ! unat i"]
  show "b64_val (of_nat (chr_code (b64_char i))) = Ok i"
    by (simp add: b64_char_def b64_alphabet_props)
  have "b64_char i \<in> set b64_alphabet"
    using i by (simp add: b64_char_def b64_alphabet_props)
  then show "b64_char i \<noteq> CHR ''=''" using b64_alphabet_props(2) by metis
qed

text \<open>The four sextets of three bytes, and the 24 bits of four sextets.\<close>

definition sx0 :: "u8 \<Rightarrow> u8" where "sx0 a = drop_bit 2 a"
definition sx1 :: "u8 \<Rightarrow> u8 \<Rightarrow> u8" where "sx1 a b = push_bit 4 (a AND 0x03) OR drop_bit 4 b"
definition sx2 :: "u8 \<Rightarrow> u8 \<Rightarrow> u8" where "sx2 b c = push_bit 2 (b AND 0x0f) OR drop_bit 6 c"
definition sx3 :: "u8 \<Rightarrow> u8" where "sx3 c = c AND 0x3f"

definition sx_group :: "u8 \<Rightarrow> u8 \<Rightarrow> u8 \<Rightarrow> u8 \<Rightarrow> u32" where
  "sx_group i j k l = push_bit 18 (ucast i) OR push_bit 12 (ucast j) OR push_bit 6 (ucast k) OR ucast l"

lemmas sx_defs = sx0_def sx1_def sx2_def sx3_def

lemma u8_masks: "(3 :: u8) = mask 2" "(0x0f :: u8) = mask 4" "(0x3f :: u8) = mask 6"
  by (simp_all add: mask_eq_exp_minus_1)

lemma sx_zero [simp]: "sx2 0 0 = 0" "sx3 0 = 0"
  by (simp_all add: sx_defs)

lemma sx_less [simp]: "sx0 a < 64" "sx1 a b < 64" "sx2 b c < 64" "sx3 c < 64"
proof -
  have *: "w < 64" if "w = take_bit 6 w" for w :: u8
  proof -
    have "unat w = take_bit 6 (unat w)" by (metis that unsigned_take_bit_eq)
    also have "\<dots> < 64" using take_bit_nat_less_exp [of 6 "unat w"] by simp
    finally show ?thesis by (simp add: word_less_nat_alt)
  qed
  show "sx0 a < 64" "sx1 a b < 64" "sx2 b c < 64" "sx3 c < 64"
    unfolding sx_defs u8_masks
    by (intro * bit_word_eqI; auto simp: bit_simps dest: bit_imp_le_length)+
qed

section \<open>Round trips\<close>

lemma str_bytes_append [simp]: "str_bytes (s @ t) = str_bytes s @ str_bytes t"
  by (simp add: str_bytes_def)

lemma length_str_bytes [simp]: "length (str_bytes s) = length s"
  by (simp add: str_bytes_def)

lemma word8_bit_cases:
  fixes x y :: u8
  assumes "bit x 0 = bit y 0" "bit x 1 = bit y 1" "bit x 2 = bit y 2" "bit x 3 = bit y 3"
    "bit x 4 = bit y 4" "bit x 5 = bit y 5" "bit x 6 = bit y 6" "bit x 7 = bit y 7"
  shows "x = y"
proof (rule bit_word_eqI)
  fix n
  assume "n < LENGTH(8)"
  then consider "n = 0" | "n = 1" | "n = 2" | "n = 3" | "n = 4" | "n = 5" | "n = 6" | "n = 7"
    by fastforce
  then show "bit x n = bit y n" by cases (simp_all only: assms)
qed

lemma bit_u8_beyond [simp]: "8 \<le> n \<Longrightarrow> \<not> bit (b :: u8) n"
  using bit_imp_le_length [of b n] by auto

lemma ucast_low_byte [simp]: "(ucast (w AND 0xff :: u32) :: u8) = ucast w"
proof -
  have m: "(0xff :: u32) = mask 8" by (simp add: mask_eq_exp_minus_1)
  show ?thesis unfolding m by (rule bit_word_eqI) (simp add: bit_simps)
qed

text \<open>The three bytes come back out of the four sextets the encoder made of them.\<close>

lemma regroup_bits [simp]:
  "(ucast (drop_bit 16 (sx_group (sx0 a) (sx1 a b) (sx2 b c) (sx3 c))) :: u8) = a"
  "(ucast (drop_bit 8 (sx_group (sx0 a) (sx1 a b) (sx2 b c) (sx3 c))) :: u8) = b"
  "(ucast (sx_group (sx0 a) (sx1 a b) (sx2 b c) (sx3 c)) :: u8) = c"
  unfolding sx_group_def sx_defs u8_masks by (rule word8_bit_cases; simp add: bit_simps)+

lemmas regroup_padded [simp] =
  regroup_bits [of _ _ 0, unfolded sx_zero] regroup_bits [of _ 0 0, unfolded sx_zero]

abbreviation sextet :: "u8 \<Rightarrow> u8" where
  "sextet i \<equiv> of_nat (chr_code (b64_char i))"

lemma b64_val_pad [simp]: "b64_val pad_byte \<noteq> Ok i"
  by (simp add: b64_val_def pad_byte_def)

lemma sextet_facts [simp]:
  assumes "i < 64"
  shows "b64_val (sextet i) = Ok i" and "sextet i \<noteq> pad_byte" and "b64_char i \<noteq> CHR ''=''"
proof -
  show i: "b64_val (sextet i) = Ok i" and "b64_char i \<noteq> CHR ''=''"
    using b64_val_b64_char [OF assms] by auto
  show "sextet i \<noteq> pad_byte" using i b64_val_pad [of i] by metis
qed

lemma encode_chunk_sx:
  "encode_chunk [a] = map b64_char [sx0 a, sx1 a 0] @ ''==''"
  "encode_chunk [a, b] = map b64_char [sx0 a, sx1 a b, sx2 b 0] @ ''=''"
  "encode_chunk [a, b, c] = map b64_char [sx0 a, sx1 a b, sx2 b c, sx3 c]"
  by (simp_all add: encode_chunk_def get_or_zero_def sx_defs)

lemma str_bytes_Cons [simp]: "str_bytes (c # s) = of_nat (chr_code c) # str_bytes s" "str_bytes [] = []"
  by (simp_all add: str_bytes_def)

lemma decode_sextets:
  assumes "i < 64" and "j < 64" and "k < 64" and "l < 64"
  shows "decode_chunk [sextet i, sextet j, pad_byte, pad_byte] =
      Ok [ucast (drop_bit 16 (sx_group i j 0 0))]"
    and "decode_chunk [sextet i, sextet j, sextet k, pad_byte] =
      Ok [ucast (drop_bit 16 (sx_group i j k 0)), ucast (drop_bit 8 (sx_group i j k 0))]"
    and "decode_chunk [sextet i, sextet j, sextet k, sextet l] =
      Ok [ucast (drop_bit 16 (sx_group i j k l)), ucast (drop_bit 8 (sx_group i j k l)),
          ucast (sx_group i j k l)]"
  using assms by (simp_all add: decode_chunk_def sx_group_def Let_def del: drop_bit_or)

lemmas decode_sextets_simps =
  decode_sextets(1) [of _ _ 0 0, unfolded pad_byte_def]
  decode_sextets(2) [of _ _ _ 0, unfolded pad_byte_def] decode_sextets(3)

lemma decode_key_sextets:
  assumes "i < 64" and "j < 64" and "k < 64" and "l < 64"
  shows "decode_key_chunk [sextet i, sextet j] =
      Ok [ucast (drop_bit 16 (sx_group i j 0 0))]"
    and "decode_key_chunk [sextet i, sextet j, sextet k] =
      Ok [ucast (drop_bit 16 (sx_group i j k 0)), ucast (drop_bit 8 (sx_group i j k 0))]"
    and "decode_key_chunk [sextet i, sextet j, sextet k, sextet l] =
      Ok [ucast (drop_bit 16 (sx_group i j k l)), ucast (drop_bit 8 (sx_group i j k l)),
          ucast (sx_group i j k l)]"
  using assms by (simp_all add: decode_key_chunk_def sx_group_def Let_def or.assoc del: drop_bit_or)

lemmas decode_key_sextets_simps =
  decode_key_sextets(1) [of _ _ 0 0] decode_key_sextets(2) [of _ _ _ 0] decode_key_sextets(3)

lemma base64_decode_encode: "base64_decode (base64_encode bs) = Ok bs"
proof -
  have "length (base64_encode bs) mod 4 = 0 \<and>
    decode_chunks decode_chunk (chunks 4 (str_bytes (base64_encode bs))) = Ok bs"
  proof (induction bs rule: chunk3_induct)
    case (More a b c xs)
    then show ?case
      using chunks_append [of "str_bytes (encode_chunk [a, b, c])" 4 "str_bytes (base64_encode xs)"]
      by (simp add: encode_chunk_sx decode_sextets_simps del: length_encode_chunk)
  qed (simp_all add: chunks_short encode_chunk_sx decode_sextets_simps del: length_encode_chunk)
  then show ?thesis by (simp add: base64_decode_def Let_def)
qed

lemma trim_end_matches_keep:
  "x \<noteq> [] \<Longrightarrow> last x \<notin> set cs \<Longrightarrow> trim_end_matches cs (x @ y) = x @ trim_end_matches cs y"
  by (cases x rule: rev_cases) (auto simp: trim_end_matches_def dropWhile_append)

lemma base64_decode_key_encode: "base64_decode_key (base64_encode bs) = Ok bs"
  unfolding base64_decode_key_def Let_def
proof (induction bs rule: chunk3_induct)
  case (More a b c xs)
  let ?e = "encode_chunk [a, b, c]"
  have "trim_end_matches ''='' (?e @ base64_encode xs) = ?e @ trim_end_matches ''='' (base64_encode xs)"
    by (rule trim_end_matches_keep) (simp_all add: encode_chunk_sx)
  with More show ?case
    using chunks_append [of "str_bytes ?e" 4 "str_bytes (trim_end_matches ''='' (base64_encode xs))"]
    by (simp add: encode_chunk_sx decode_key_sextets_simps del: length_encode_chunk)
qed (simp_all add: trim_end_matches_def chunks_short encode_chunk_sx decode_key_sextets_simps)

section \<open>The contract of a base64 decoder\<close>

text \<open>
  What the users of a decoder rely on: it inverts \<^verbatim>\<open>base64_encode\<close>. Hence no two byte
  strings have the same encoding, and a decoder followed by a length check accepts exactly
  the encoded strings of that length among the encoded ones.
\<close>

locale base64_decoder =
  fixes dec :: "string \<Rightarrow> bytes result"
  assumes dec_enc: "dec (base64_encode bs) = Ok bs"
begin

lemma encode_inj: "base64_encode xs = base64_encode ys \<Longrightarrow> xs = ys"
  by (metis dec_enc Inr_inject)

lemma dec_then:
  "bind_result (with_ctx c (dec (base64_encode bs))) f = f bs"
  by (simp add: dec_enc)

end

interpretation screenshot: base64_decoder base64_decode
  by unfold_locales (rule base64_decode_encode)

interpretation server_key: base64_decoder base64_decode_key
  by unfold_locales (rule base64_decode_key_encode)

section \<open>Properties\<close>

lemma length_base64_encode: "length (base64_encode bs) = 4 * ((length bs + 2) div 3)"
proof (induction bs rule: chunk3_induct)
  case (More a b c xs)
  have "(length (a # b # c # xs) + 2) div 3 = Suc ((length xs + 2) div 3)" by simp
  with More show ?case by simp
qed simp_all

lemma b64_char_in_alphabet: "i < 64 \<Longrightarrow> b64_char i \<in> set b64_alphabet"
  by (simp add: b64_char_def b64_alphabet_props word_less_nat_alt)

lemma set_base64_encode: "set (base64_encode bs) \<subseteq> set b64_alphabet \<union> {CHR ''=''}"
  by (induction bs rule: chunk3_induct) (simp_all add: encode_chunk_sx b64_char_in_alphabet)

text \<open>
  C25. Base64 round trip. For every byte string, the text \<^verbatim>\<open>capture::base64_encode\<close> makes of
  it has four characters for every started group of three bytes, all of them in the base64
  alphabet or the padding character, and both decoders of the program
  (\<^verbatim>\<open>capture::base64_decode\<close> and \<^verbatim>\<open>connection::base64_decode\<close>) give back exactly the bytes.
\<close>

theorem base64_roundtrip:
  "length (base64_encode bs) = 4 * ((length bs + 2) div 3) \<and>
   set (base64_encode bs) \<subseteq> set b64_alphabet \<union> {CHR ''=''} \<and>
   base64_decode (base64_encode bs) = Ok bs \<and> base64_decode_key (base64_encode bs) = Ok bs"
  using set_base64_encode [of bs]
  by (simp add: length_base64_encode screenshot.dec_enc server_key.dec_enc)

text \<open>
  Server keys. \<^verbatim>\<open>decode_server_key\<close> on the base64 text of a key returns the key when it
  has 32 bytes and the length error otherwise; whatever it is given, what it returns has 32 bytes.
\<close>

theorem decode_server_key_correct:
  "decode_server_key (base64_encode key) =
     (if length key = 32 then Ok key
      else Err [''server key is '' @ show_nat (length key) @ '' bytes, expected 32'']) \<and>
   (\<forall>text k. decode_server_key text = Ok k \<longrightarrow> length k = 32)"
  by (auto simp: decode_server_key_def server_key.dec_then bail_def bind_result_Ok_iff split: if_splits)

theorem decode_server_key_correct_witness:
  "decode_server_key (base64_encode (replicate 32 7)) = Ok (replicate 32 7) \<and>
   length (replicate 32 (7 :: u8)) = 32"
  using decode_server_key_correct [of "replicate 32 7"] by auto

text \<open>
  \<^verbatim>\<open>capture::base64_decode\<close> is lenient about padding: it accepts padding inside the
  text, and a padding character followed by a data character, and returns bytes no encoder
  produced the text from.
\<close>

theorem base64_decode_lenient:
  "base64_decode ''AA==AAAA'' = Ok [0, 0, 0, 0] \<and> base64_decode ''AB=C'' = Ok [0, 16, 2] \<and>
   (\<forall>bs. base64_encode bs \<noteq> ''AA==AAAA'' \<and> base64_encode bs \<noteq> ''AB=C'')"
proof -
  have a: "base64_decode ''AA==AAAA'' = Ok [0, 0, 0, 0]"
    by (simp add: base64_decode_def chunks.simps decode_chunk_def b64_val_def pad_byte_def)
  have b: "base64_decode ''AB=C'' = Ok [0, 16, 2]"
    by (simp add: base64_decode_def chunks.simps decode_chunk_def b64_val_def pad_byte_def)
  have "base64_encode bs \<noteq> ''AA==AAAA''" for bs
  proof
    assume bs: "base64_encode bs = ''AA==AAAA''"
    with screenshot.dec_enc [of bs] a have "bs = [0, 0, 0, 0]" by simp
    with bs show False by (simp add: encode_chunk_def b64_char_def b64_alphabet_def)
  qed
  moreover have "base64_encode bs \<noteq> ''AB=C''" for bs
  proof
    assume bs: "base64_encode bs = ''AB=C''"
    with screenshot.dec_enc [of bs] b have "bs = [0, 16, 2]" by simp
    with bs show False
      by (simp add: encode_chunk_def b64_char_def b64_alphabet_def get_or_zero_def Let_def)
  qed
  ultimately show ?thesis using a b by blast
qed

end
