(* ===== verification/Daemon.thy ===== *)
theory Daemon
  imports Connection Exec File_Transfer Capture Base64
begin

text \<open>
  \<^verbatim>\<open>src/daemon.rs\<close> without its event loop: which connection a command needs, the configuration, the messages
  after login, reconnecting with back-off, and the commands the daemon carries out on the encrypted stream,
  with the answers it writes to the local socket. The event loop is the theory Daemon\_Loop, the files of the
  daemon are the theory Daemon\_Files.
\<close>

section \<open>Constants\<close>

definition HEARTBEAT_INTERVAL :: nat where "HEARTBEAT_INTERVAL = 30000"
definition KEEPALIVE_TIMEOUT :: nat where "KEEPALIVE_TIMEOUT = 90000"
definition DEFAULT_IDLE_TIMEOUT :: nat where "DEFAULT_IDLE_TIMEOUT = 300000"
definition SHELL_TERMINAL_OPEN_TIMEOUT :: nat where "SHELL_TERMINAL_OPEN_TIMEOUT = 15000"
definition RECONNECT_BACKOFFS :: "nat list" where "RECONNECT_BACKOFFS = [1000, 2000, 4000, 8000, 16000, 30000]"

section \<open>Which connection a command needs\<close>

definition conn_type_for_command :: "SessionCommand \<Rightarrow> ConnType" where
  "conn_type_for_command cmd = (case cmd of Shell \<Rightarrow> TerminalConn | Exec _ _ \<Rightarrow> TerminalConn | _ \<Rightarrow> DefaultConn)"

definition login_union_for_conn_type :: "ConnType \<Rightarrow> string option \<Rightarrow> login_union option" where
  "login_union_for_conn_type conn_type sid =
     (case conn_type of
        TerminalConn \<Rightarrow> Some (LoginTerminal (case sid of Some s \<Rightarrow> s | None \<Rightarrow> []))
      | _ \<Rightarrow> None)"

definition host_of :: "string \<Rightarrow> string" where
  "host_of s = split_first CHR '':'' s"

definition build_connection_config ::
  "string \<Rightarrow> string option \<Rightarrow> string option \<Rightarrow> string option \<Rightarrow> string option \<Rightarrow> string option \<Rightarrow> PeerConfig" where
  "build_connection_config peer pw srv id_srv relay_srv key =
     \<lparr>id_server = (case id_srv of Some s \<Rightarrow> s
        | None \<Rightarrow> (case srv of Some s \<Rightarrow> host_of s @ '':21116'' | None \<Rightarrow> ''localhost:21116'')),
      relay_server = (case relay_srv of Some s \<Rightarrow> s
        | None \<Rightarrow> (case srv of Some s \<Rightarrow> host_of s @ '':21117'' | None \<Rightarrow> ''localhost:21117'')),
      server_key = (case key of Some k \<Rightarrow> k | None \<Rightarrow> []),
      cfg_peer_id = peer,
      cfg_password = (case pw of Some p \<Rightarrow> p | None \<Rightarrow> []),
      warmup_secs = 2\<rparr>"

section \<open>After the login\<close>

definition build_option_message :: OptionMessage where
  "build_option_message = default_option_message\<lparr>image_quality := QBest, custom_fps := 0,
     disable_audio := Yes, disable_clipboard := Yes, disable_camera := Yes, terminal_persistent := Yes,
     supported_decoding := Some 1\<rparr>"

definition send_option_message :: "ext \<Rightarrow> unit async" where
  "send_option_message x =
     ctx_async ''sending OptionMessage'' (send_message x (MMisc (Some (MiscOption build_option_message))))"

definition send_session_init :: "ext \<Rightarrow> unit async" where
  "send_session_init x =
     bind_async (ctx_async ''sending CaptureDisplays'' (send_message x (MMisc (Some (CaptureDisplays [0]))))) (\<lambda>_.
     bind_async (ctx_async ''sending refresh_video'' (send_message x (MMisc (Some (RefreshVideo True))))) (\<lambda>_.
     return_async ()))"

definition initialize_stream_for_mode :: "ext \<Rightarrow> ConnType \<Rightarrow> unit async" where
  "initialize_stream_for_mode x conn_type =
     (if conn_type = DefaultConn then
        bind_async (send_option_message x) (\<lambda>_. bind_async (send_session_init x) (\<lambda>_. return_async ()))
      else return_async ())"

text \<open>\<^verbatim>\<open>handle_peer_message\<close>: \<open>False\<close> when the peer closes the session.\<close>

definition handle_peer_message :: "ext \<Rightarrow> bytes \<Rightarrow> bool async" where
  "handle_peer_message x raw =
     bind_async (lift_async (dec_msg x raw)) (\<lambda>msg.
     case msg of
       MTestDelay td \<Rightarrow>
         bind_async (ctx_async ''echoing TestDelay'' (send_message x (test_delay_echo td))) (\<lambda>_. return_async True)
     | MMisc (Some (CloseReason reason)) \<Rightarrow> return_async False
     | _ \<Rightarrow> return_async True)"

definition is_keepalive_expired :: "nat \<Rightarrow> nat \<Rightarrow> bool" where
  "is_keepalive_expired recv_idle timeout_ms = (timeout_ms < recv_idle)"

section \<open>Reconnecting\<close>

definition reconnect_needles :: "string list" where
  "reconnect_needles = [''decryption failed'', ''broken pipe'', ''connection reset'', ''connection aborted'',
     ''unexpected eof'', ''failed to fill whole buffer'', ''connection refused'', ''transport'', ''closed'',
     ''timed out'']"

definition should_reconnect :: "err \<Rightarrow> bool" where
  "should_reconnect e = list_ex (str_contains (to_ascii_lowercase (err_chain e))) reconnect_needles"

definition reconnecting_response :: "nat \<Rightarrow> nat \<Rightarrow> nat \<Rightarrow> SessionResponse" where
  "reconnecting_response attempt total_attempts backoff =
     resp_error (''reconnecting... attempt '' @ show_nat attempt @ ''/'' @ show_nat total_attempts @ '' in '' @
       show_nat (backoff div 1000) @ ''s'')"

text \<open>
  The attempts from number \<open>attempt\<close> on, with what remains of the back-offs; \<open>conn\<close> is tried once for each.
  A panic in \<open>conn\<close> is not an error it can be retried after.
\<close>

fun retry_loop ::
  "(nat \<Rightarrow> ('a, 'w) aio) \<Rightarrow> (SessionResponse \<Rightarrow> (unit, 'w) aio) \<Rightarrow> nat \<Rightarrow> nat \<Rightarrow> err option \<Rightarrow> nat list \<Rightarrow> ('a, 'w) aio" where
  "retry_loop conn notify n attempt last_error [] =
     lift_async (Err (case last_error of Some e \<Rightarrow> e | None \<Rightarrow> [''reconnect failed'']))"
| "retry_loop conn notify n attempt last_error (backoff # backoffs) =
     bind_async (notify (reconnecting_response attempt n backoff)) (\<lambda>_.
     bind_async (sleep backoff) (\<lambda>_.
     bind_async (try_async (conn attempt)) (\<lambda>r.
     case r of
       Inr v \<Rightarrow> return_async v
     | Inl e \<Rightarrow> if is_panic e then lift_async (Err e)
                else retry_loop conn notify n (attempt + 1) (Some e) backoffs)))"

definition reconnect_with_retry_backoffs ::
  "nat list \<Rightarrow> (nat \<Rightarrow> ('a, 'w) aio) \<Rightarrow> (SessionResponse \<Rightarrow> (unit, 'w) aio) \<Rightarrow> ('a, 'w) aio" where
  "reconnect_with_retry_backoffs backoffs conn notify =
     retry_loop conn notify (length backoffs) 1 None backoffs"

definition reconnect_with_retry ::
  "(nat \<Rightarrow> ('a, 'w) aio) \<Rightarrow> (SessionResponse \<Rightarrow> (unit, 'w) aio) \<Rightarrow> ('a, 'w) aio" where
  "reconnect_with_retry conn notify = reconnect_with_retry_backoffs RECONNECT_BACKOFFS conn notify"

section \<open>The state of the daemon\<close>

text \<open>
  Beside the network: the session, the type of the active connection, the time of the last command, how many
  connection attempts were made (each draws its own random bytes) and what was written to \<^verbatim>\<open>stderr\<close> by the notifier.
  The service id of the active terminal is \<open>active_service_id\<close> of the network state.
\<close>

record dstate = world +
  d_session :: Session
  d_conn_type :: ConnType
  d_last_activity :: nat
  d_attempts :: nat
  d_log :: "SessionResponse list"

type_synonym 'a dio = "nat option \<Rightarrow> dstate \<Rightarrow> 'a result outcome \<times> dstate"

definition on_world :: "'a wio \<Rightarrow> 'a dio" where
  "on_world m dl w = (case m dl (world.truncate w) of (r, v) \<Rightarrow> (r, world.extend v (world.more w)))"

text \<open>
  The machine: \<open>draw\<close> gives the random bytes of a connection attempt and how binding its UDP socket ends, \<open>nanos\<close> the
  time of day at a time of the clock, \<open>parse_cmd\<close> is \<^verbatim>\<open>serde_json::from_str\<close> of a command.
\<close>

record 'img daemon_env =
  de_conn :: conn_env
  de_ser :: serializer
  de_draw :: "nat \<Rightarrow> entropy \<times> unit result"
  de_nanos :: "nat \<Rightarrow> nat"
  de_fs :: local_fs
  de_reads :: "nat \<Rightarrow> nat result list"
  de_images :: "'img image_lib"
  parse_cmd :: "string \<Rightarrow> SessionCommand result"

abbreviation de_ext :: "'img daemon_env \<Rightarrow> ext" where
  "de_ext env \<equiv> ce_ext (de_conn env)"

definition peer_info_state :: "HbbPeerInfo \<Rightarrow> PeerInfoState" where
  "peer_info_state info =
     \<lparr>ps_peer_id = hp_username info, ps_username = hp_username info, ps_hostname = hp_hostname info,
      ps_displays = map (\<lambda>d. \<lparr>d_x = hd_x d, d_y = hd_y d, d_width = hd_width d, d_height = hd_height d,
        d_name = hd_name d, d_online = hd_online d, d_cursor_embedded = hd_cursor_embedded d\<rparr>) (hp_displays info)\<rparr>"

definition notify_stderr :: "SessionResponse \<Rightarrow> unit dio" where
  "notify_stderr resp dl w = (Done (Ok ()), w\<lparr>d_log := d_log w @ [resp]\<rparr>)"

definition notify_nothing :: "SessionResponse \<Rightarrow> unit dio" where
  "notify_nothing resp = return_async ()"

definition set_peer :: "HbbPeerInfo \<Rightarrow> unit dio" where
  "set_peer info dl w =
     (Done (Ok ()), w\<lparr>d_session := (d_session w)\<lparr>state := Connected, peer_info := Some (peer_info_state info)\<rparr>\<rparr>)"

text \<open>One attempt of \<^verbatim>\<open>connection::connect_with_mode\<close>.\<close>

definition connect_attempt ::
  "'img daemon_env \<Rightarrow> PeerConfig \<Rightarrow> ConnType \<Rightarrow> string option \<Rightarrow> HbbPeerInfo dio" where
  "connect_attempt env cfg conn_type sid dl w =
     (case de_draw env (d_attempts w) of (ent, bound) \<Rightarrow>
       on_world (connect_with_mode (de_conn env) ent bound cfg conn_type (login_union_for_conn_type conn_type sid)) dl
         (w\<lparr>d_attempts := d_attempts w + 1\<rparr>))"

text \<open>
  A new connection takes the place of the old stream only when everything succeeds; otherwise the old stream
  is still the one in use.
\<close>

definition restore_stream :: "dstate \<Rightarrow> dstate \<Rightarrow> dstate" where
  "restore_stream w w' =
     w'\<lparr>past := past w' @ [current_phase (world.truncate w')], inbox := inbox w, outbox := outbox w,
       faults := faults w, closed := closed w, peer_addr := peer_addr w, stream_key := stream_key w\<rparr>"

definition keep_stream :: "'a dio \<Rightarrow> 'a dio" where
  "keep_stream m dl w =
     (case m dl w of
        (Done (Inr v), w') \<Rightarrow> (Done (Ok v), w')
      | (r, w') \<Rightarrow> (r, restore_stream w w'))"

definition reconnect_encrypted_stream ::
  "'img daemon_env \<Rightarrow> PeerConfig \<Rightarrow> ConnType \<Rightarrow> (SessionResponse \<Rightarrow> unit dio) \<Rightarrow> string option \<Rightarrow> unit dio" where
  "reconnect_encrypted_stream env cfg conn_type notify sid =
     keep_stream
       (bind_async (reconnect_with_retry (\<lambda>_. connect_attempt env cfg conn_type sid) notify) (\<lambda>info.
        bind_async (on_stream (initialize_stream_for_mode (de_ext env) conn_type)) (\<lambda>_.
        set_peer info)))"

section \<open>Commands\<close>

definition send_response :: "serializer \<Rightarrow> SessionResponse \<Rightarrow> unit async" where
  "send_response ser resp = uds_write (ser resp @ [10])"

definition push_progress_response :: "string \<Rightarrow> PushProgress \<Rightarrow> SessionResponse" where
  "push_progress_response remote_path p =
     resp_ok_with_data (''push progress '' @ show_nat (unat (pp_sent_bytes p)) @ ''/'' @ show_nat (unat (pp_total_bytes p)))
       (JObj [(''kind'', JStr ''progress''), (''remote_path'', JStr remote_path),
         (''sent_bytes'', json_unsigned (pp_sent_bytes p)), (''total_bytes'', json_unsigned (pp_total_bytes p)),
         (''transferred_bytes'', json_unsigned (pp_transferred_bytes p)),
         (''resumed_bytes'', json_unsigned (pp_resumed_bytes p))])"

definition push_complete_response :: "PushResult \<Rightarrow> SessionResponse" where
  "push_complete_response r =
     resp_ok_with_data (''Pushed `'' @ pr_local_path r @ ''` to `'' @ pr_remote_path r @ ''`'')
       (JObj [(''kind'', JStr ''complete''), (''job_id'', json_i32 (pr_job_id r)),
         (''local_path'', JStr (pr_local_path r)), (''remote_path'', JStr (pr_remote_path r)),
         (''total_bytes'', json_unsigned (pr_total_bytes r)), (''sent_bytes'', json_unsigned (pr_sent_bytes r)),
         (''transferred_bytes'', json_unsigned (pr_transferred_bytes r)),
         (''resumed_bytes'', json_unsigned (pr_resumed_bytes r))])"

definition saturating_sub :: "u64 \<Rightarrow> u64 \<Rightarrow> u64" where
  "saturating_sub a b = (if b \<le> a then a - b else 0)"

text \<open>
  The loop over the blocks, with a progress report when the last block was sent and whenever a megabyte was sent
  since the last report.
\<close>

definition report_due :: "PushProgress \<Rightarrow> u64 \<Rightarrow> bool" where
  "report_due p last_reported \<longleftrightarrow> pp_sent_bytes p = pp_total_bytes p \<or>
     1024 * 1024 \<le> saturating_sub (pp_sent_bytes p) last_reported"

function push_file_loop ::
  "ext \<Rightarrow> serializer \<Rightarrow> string \<Rightarrow> u64 \<Rightarrow> PushTransfer \<Rightarrow> net \<Rightarrow> unit result outcome \<times> PushTransfer \<times> net" where
  "push_file_loop x ser remote_path last_reported t w =
     (case send_next_block x t w of
        (Done (Inr True), t', w') \<Rightarrow>
          let progress = push_progress t' in
          if report_due progress last_reported then
            (case send_response ser (push_progress_response remote_path progress) None w' of
               (Done (Inr _), w'') \<Rightarrow> push_file_loop x ser remote_path (pp_sent_bytes progress) t' w''
             | (Done (Inl e), w'') \<Rightarrow> (Done (Err e), t', w'')
             | (Elapsed, w'') \<Rightarrow> (Elapsed, t', w'')
             | (Hang, w'') \<Rightarrow> (Hang, t', w''))
          else push_file_loop x ser remote_path last_reported t' w'
      | (Done (Inr False), t', w') \<Rightarrow> (Done (Ok ()), t', w')
      | (Done (Inl e), t', w') \<Rightarrow> (Done (Err e), t', w')
      | (Elapsed, t', w') \<Rightarrow> (Elapsed, t', w')
      | (Hang, t', w') \<Rightarrow> (Hang, t', w'))"
  by pat_completeness auto
termination
  by (relation "measure (\<lambda>(x, ser, rp, lr, t, w). length (fh_rest (pt_file t)))") (auto dest: send_next_block_shorter)

declare push_file_loop.simps [simp del]

definition push_file_command ::
  "ext \<Rightarrow> serializer \<Rightarrow> local_fs \<Rightarrow> nat \<Rightarrow> nat result list \<Rightarrow> string \<Rightarrow> string \<Rightarrow> SessionResponse async" where
  "push_file_command x ser fs nanos reads local_path remote_path =
     bind_async (push_begin x fs nanos reads local_path remote_path) (\<lambda>transfer.
     bind_async (send_response ser (push_progress_response remote_path (push_progress transfer))) (\<lambda>_ dl w.
       case push_file_loop x ser remote_path (pp_sent_bytes (push_progress transfer)) transfer w of
         (Done (Inr _), t', w') \<Rightarrow>
           bind_async (wait_for_done x t') (\<lambda>_. return_async (push_complete_response (push_result t'))) dl w'
       | (Done (Inl e), t', w') \<Rightarrow> (Done (Err e), w')
       | (Elapsed, t', w') \<Rightarrow> (Elapsed, w')
       | (Hang, t', w') \<Rightarrow> (Hang, w')))"

text \<open>The commands that are neither a shell nor a push nor an exec; \<open>process_id\<close> and the time make the request id.\<close>

definition dispatch_session :: "SessionCommand \<Rightarrow> SessionResponse dio" where
  "dispatch_session cmd dl w =
     (case dispatch cmd (d_session w) of
        (Inr (resp, _), s) \<Rightarrow> (Done (Ok resp), w\<lparr>d_session := s\<rparr>)
      | (Inl e, s) \<Rightarrow> (Done (Err e), w\<lparr>d_session := s\<rparr>))"

definition capture_response_data :: "bytes \<Rightarrow> SessionResponse" where
  "capture_response_data bs =
     resp_ok_with_data ''Screenshot captured''
       (JObj [(''bytes_b64'', JStr (base64_encode bs)), (''bytes'', json_nat (length bs)), (''format'', JStr ''png'')])"

definition execute_daemon_command :: "'img daemon_env \<Rightarrow> SessionCommand \<Rightarrow> SessionResponse dio" where
  "execute_daemon_command env cmd dl w =
     (let x = de_ext env; nanos = de_nanos env (clock w) in
      case cmd of
        Exec command tmo \<Rightarrow> on_stream (exec_command x (de_ser env) nanos command tmo) dl w
      | ClipboardGet \<Rightarrow> on_stream (clipboard_get x (de_ser env) nanos) dl w
      | ClipboardSet txt \<Rightarrow> on_stream (clipboard_set x (de_ser env) nanos txt) dl w
      | Capture _ fmt q reg disp timeout_secs \<Rightarrow>
          bind_async (on_stream (timeout (1000 * (case timeout_secs of Some t \<Rightarrow> unat t | None \<Rightarrow> 10))
            (request_screenshot x (de_images env) (process_id (de_conn env)) nanos
               \<lparr>co_format = fmt, co_quality = q, co_region = reg, co_display = disp\<rparr>))) (\<lambda>r.
          bind_async (lift_async (case r of None \<Rightarrow> bail ''screenshot request timed out'' | Some b \<Rightarrow> b)) (\<lambda>bs.
          return_async (capture_response_data bs))) dl w
      | other \<Rightarrow> dispatch_session other dl w)"

section \<open>The shell\<close>

text \<open>
  Which branch of the \<^verbatim>\<open>select!\<close> completes next: a line from the command line program at some time, its end, or the
  terminal (\<^verbatim>\<open>recv_terminal_data\<close> runs to its end, its 15 seconds counted from the last completed branch, as the
  cancelled future is dropped). Without a next event the loop waits for ever.
\<close>

datatype shell_input = ShLine nat string | ShEof nat | ShTerm

definition advance :: "nat \<Rightarrow> unit async" where
  "advance t dl w = (Done (Ok ()), w\<lparr>clock := max t (clock w)\<rparr>)"

fun shell_loop :: "ext \<Rightarrow> i32 \<Rightarrow> shell_input list \<Rightarrow> unit async" where
  "shell_loop x tid [] = (\<lambda>dl w. (Hang, w))"
| "shell_loop x tid (ShLine t line # evs) =
     bind_async (advance t) (\<lambda>_.
     bind_async (send_terminal_data x tid (str_bytes line)) (\<lambda>_.
     shell_loop x tid evs))"
| "shell_loop x tid (ShEof t # evs) =
     bind_async (advance t) (\<lambda>_.
     bind_async (ignore_async (close_terminal x tid)) (\<lambda>_.
     set_service None))"
| "shell_loop x tid (ShTerm # evs) =
     bind_async (try_async (recv_terminal_data x)) (\<lambda>r.
     case r of
       Inr (EvData d) \<Rightarrow> bind_async (uds_write d) (\<lambda>_. shell_loop x tid evs)
     | Inr (EvClosed _) \<Rightarrow> set_service None
     | Inr (EvError msg) \<Rightarrow> set_service None
     | Inl e \<Rightarrow> set_service None)"

definition shell_started :: "i32 \<Rightarrow> SessionResponse" where
  "shell_started tid =
     resp_ok_with_data ''Shell session started''
       (JObj [(''mode'', JStr ''interactive''), (''terminal_id'', json_i32 tid)])"

definition shell_open_failed :: "serializer \<Rightarrow> string \<Rightarrow> string \<Rightarrow> 'a async" where
  "shell_open_failed ser reply_msg msg =
     bind_async (ignore_async (write_json_line ser (resp_error reply_msg))) (\<lambda>_. lift_async (bail msg))"

definition shell_session :: "ext \<Rightarrow> serializer \<Rightarrow> shell_input list \<Rightarrow> unit async" where
  "shell_session x ser evs =
     bind_async (timeout SHELL_TERMINAL_OPEN_TIMEOUT (open_terminal x 24 80)) (\<lambda>r.
     bind_async
       (case r of
          Some (Inr info) \<Rightarrow> return_async info
        | Some (Inl e) \<Rightarrow> shell_open_failed ser (''terminal open failed: '' @ err_chain e)
                            (''shell: terminal open failed: '' @ err_chain e)
        | None \<Rightarrow> shell_open_failed ser ''terminal open timed out'' ''shell: terminal open timed out'') (\<lambda>info.
     bind_async (set_service (Some (service_id info))) (\<lambda>_.
     bind_async (write_json_line ser (shell_started (terminal_id info))) (\<lambda>_.
     shell_loop x (terminal_id info) evs))))"

section \<open>Shutting down\<close>

text \<open>
  The files that \<^verbatim>\<open>graceful_shutdown\<close> also removes are those of the theory Daemon\_Process: every path that calls it
  returns from \<^verbatim>\<open>run_daemon\<close>, where \<^verbatim>\<open>DaemonCleanupGuard\<close> removes them in any case.
\<close>

definition graceful_shutdown :: "ext \<Rightarrow> unit async" where
  "graceful_shutdown x =
     bind_async (ignore_async (send_message x (MMisc (Some (CloseReason []))))) (\<lambda>_.
     ctx_async ''closing encrypted transport'' stream_close)"

section \<open>What the commands leave alone\<close>

locale untouched_net = untouched_local f for f :: "net \<Rightarrow> 'b"
begin

lemma send_message_keeps [simp, intro]: "keeps f (send_message x m)"
  unfolding send_message_def by (rule send_keeps)

lemma messages_keep [simp, intro]:
  "keeps f (request_screenshot_with_sid x lib display sid opts)"
  "keeps f (initialize_stream_for_mode x ct)" "keeps f (handle_peer_message x raw)"
  "keeps f (echo_test_delay x td)" "keeps f (send_response ser resp)"
  "keeps f (confirm_upload_from_remote_digest x job digest total_bytes)"
  "keeps f (send_local_digest x job total_bytes modified up)"
  unfolding request_screenshot_with_sid_def initialize_stream_for_mode_def send_option_message_def
    send_session_init_def handle_peer_message_def echo_test_delay_def send_response_def
    confirm_upload_from_remote_digest_def send_local_digest_def send_confirm_def Let_def
  by (auto split: message.splits option.splits misc.splits intro!: keeps_bind)

lemma recv_file_event_keeps [simp, intro]: "keeps f (recv_file_event x job)"
  unfolding keeps_def
proof (intro allI)
  fix dl w
  show "f (snd (recv_file_event x job dl w)) = f w"
  proof (induction "length (inbox w)" arbitrary: w rule: less_induct)
    case (less w)
    obtain r w1 where r: "ctx_async ''receiving file transfer message'' stream_recv dl w = (r, w1)" by force
    have "f w1 = f w" using keeps_ctx [OF recv_keeps] r by (rule keepsD)
    moreover have "length (inbox w1) < length (inbox w)" if "r = Done q" for q
      using ctx_recv_inbox [of q w1] r that by metis
    moreover have "inbox w2 = inbox w1 \<and> f w2 = f w1" if "echo_test_delay x td dl w1 = (Done p, w2)" for td p w2
      using that keepsD [OF messages_keep(4) that] by (metis echo_inbox)
    moreover have "f w2 = f w1" if "echo_test_delay x td dl w1 = (p, w2)" for td p w2
      using keepsD [OF messages_keep(4) that] .
    ultimately show ?case using less r
      by (auto simp: recv_file_event.simps [of x job dl w]
          split: outcome.splits sum.splits file_input.splits prod.splits)
  qed
qed

lemma confirm_loop_keeps [simp, intro]: "keeps f (confirm_loop x job total_bytes)"
  unfolding keeps_def
proof (intro allI)
  fix dl w
  show "f (snd (confirm_loop x job total_bytes dl w)) = f w"
  proof (induction "length (inbox w)" arbitrary: w rule: less_induct)
    case (less w)
    let ?m = "ctx_async ''waiting for file transfer confirmation'' (recv_file_event x job)"
    obtain r w1 where r: "?m dl w = (r, w1)" by force
    have "f w1 = f w" using keeps_ctx [OF recv_file_event_keeps] r by (rule keepsD)
    moreover have "length (inbox w1) < length (inbox w)" if "r = Done q" for q
      using r that by (auto simp: ctx_async_def split: prod.splits outcome.splits dest: recv_file_event_inbox [OF sym])
    moreover have "f (snd (bind_async (confirm_upload_from_remote_digest x job digest total_bytes)
        (\<lambda>resumed. return_async (resumed, False)) dl w1)) = f w1" for digest
      by (rule kept) (intro keeps_bind messages_keep keeps_lift)
    ultimately show ?case using less r
      by (auto simp: confirm_loop.simps [of x job total_bytes dl w]
          split: outcome.splits sum.splits FileTransferEvent.splits)
  qed
qed

lemma send_next_block_keeps: "send_next_block x t w = (r, t', w') \<Longrightarrow> f w' = f w"
  by (auto simp: send_next_block_def Let_def split: if_splits prod.splits sum.splits outcome.splits
      dest!: keepsD [OF keeps_ctx [OF send_message_keeps]])

lemma push_file_loop_keeps: "push_file_loop x ser rp lr t w = (r, t', w') \<Longrightarrow> f w' = f w"
proof (induction x ser rp lr t w arbitrary: r t' w' rule: push_file_loop.induct)
  case (1 x ser rp lr t w)
  obtain q t1 w1 where q: "send_next_block x t w = (q, t1, w1)" by (metis prod_cases3)
  have kept: "f w1 = f w" using q by (rule send_next_block_keeps)
  show ?case
  proof (cases "q = Done (Ok True)")
    case True
    note step = push_file_loop.simps [of x ser rp lr t w] and t1 = q [unfolded True]
    show ?thesis
    proof (cases "report_due (push_progress t1) lr")
      case due: True
      obtain p w2 where p: "send_response ser (push_progress_response rp (push_progress t1)) None w1 = (p, w2)" by force
      have w2: "f w2 = f w1" using messages_keep(5) p by (rule keepsD)
      show ?thesis
      proof (cases "\<exists>u. p = Done (Inr u)")
        case True
        then have "push_file_loop x ser rp (pp_sent_bytes (push_progress t1)) t1 w2 = (r, t', w')"
          using "1.prems" p t1 due by (auto simp: step Let_def)
        then have "f w' = f w2"
          using "1.IH"(1) t1 due p True by (metis)
        with w2 kept show ?thesis by simp
      next
        case False
        with "1.prems" p t1 due w2 kept show ?thesis
          by (auto simp: step Let_def split: outcome.splits sum.splits)
      qed
    next
      case False
      then have "push_file_loop x ser rp lr t1 w1 = (r, t', w')" using "1.prems" t1 by (simp add: step Let_def)
      with "1.IH"(2) t1 False kept show ?thesis by metis
    qed
  next
    case False
    with kept "1.prems" q show ?thesis
      by (auto simp: push_file_loop.simps [of x ser rp lr t w] split: outcome.splits sum.splits bool.splits)
  qed
qed

lemma push_keeps [simp, intro]:
  "keeps f (push_begin x fs nanos reads lp rp)" "keeps f (wait_for_done x t)"
  unfolding push_begin_def wait_for_done_def Let_def by (auto intro!: keeps_bind)

lemma push_file_command_keeps [simp, intro]: "keeps f (push_file_command x ser fs nanos reads lp rp)"
  unfolding push_file_command_def
proof (intro keeps_bind, goal_cases)
  case (3 transfer u)
  show ?case
  proof (rule keepsI, goal_cases)
    case (1 dl w r w')
    obtain q t1 w1 where q: "push_file_loop x ser rp (pp_sent_bytes (push_progress transfer)) transfer w = (q, t1, w1)"
      by (metis prod_cases3)
    have "f w1 = f w" using q by (rule push_file_loop_keeps)
    moreover have "keeps f (bind_async (wait_for_done x t1) (\<lambda>_. return_async (push_complete_response (push_result t1))))"
      by (auto intro!: keeps_bind)
    ultimately show ?case using 1 q by (auto split: outcome.splits sum.splits dest: keepsD)
  qed
qed auto

end

interpretation nsvc: untouched_net active_service_id
  by unfold_locales (rule keepsI, auto simp: io_defs uds_write_def split: list.splits option.splits if_splits)+

lemma exec_keeps_service [simp, intro]:
  "keeps active_service_id (exec_command x ser nanos cmd tmo)"
  "keeps active_service_id (clipboard_get x ser nanos)"
  "keeps active_service_id (clipboard_set x ser nanos txt)"
proof -
  show e: "keeps active_service_id (exec_command x ser nanos cmd tmo)" for cmd tmo
    by (rule keepsI) (auto simp: exec_command_def split: prod.splits)
  show "keeps active_service_id (clipboard_get x ser nanos)" "keeps active_service_id (clipboard_set x ser nanos txt)"
    unfolding clipboard_get_def clipboard_set_def by (auto intro!: keeps_bind e split: option.splits)
qed

section \<open>Reconnecting: what is kept and what is reported\<close>

lemma world_extend_simps [simp]:
  "clock (world.extend v m) = clock v" "active_service_id (world.extend v m) = active_service_id v"
  "uds_out (world.extend v m) = uds_out v" "uds_faults (world.extend v m) = uds_faults v"
  "stream_key (world.extend v m) = stream_key v" "world.more (world.extend v m) = m"
  "outbox (world.extend v m) = outbox v" "past (world.extend v m) = past v"
  by (simp_all add: world.defs)

lemma world_truncate_simps [simp]:
  "clock (world.truncate w) = clock w" "active_service_id (world.truncate w) = active_service_id w"
  "uds_out (world.truncate w) = uds_out w" "uds_faults (world.truncate w) = uds_faults w"
  "stream_key (world.truncate w) = stream_key w"
  by (simp_all add: world.defs)

text \<open>What belongs to the daemon itself.\<close>

definition daemon_part :: "dstate \<Rightarrow> Session \<times> ConnType \<times> nat \<times> nat \<times> SessionResponse list" where
  "daemon_part w = (d_session w, d_conn_type w, d_last_activity w, d_attempts w, d_log w)"

lemma extend_parts [simp]:
  "daemon_part (world.extend v (world.more w)) = daemon_part w"
  "daemon_part (net.extend n (net.more w)) = daemon_part w"
  by (cases w; simp add: world.defs net.defs daemon_part_def)+

lemma extend_key [simp]: "stream_key (net.extend n (net.more w)) = stream_key w"
  by (cases w) (simp add: net.defs)

lemma daemon_part_kept [simp, intro]:
  "keeps daemon_part (on_world m)" "keeps daemon_part (on_stream m')" "keeps stream_key (on_stream m'')"
  by (rule keepsI; auto simp: on_world_def on_stream_def split: prod.splits)+

lemma on_stream_keeps_service [simp, intro]:
  "keeps active_service_id m \<Longrightarrow> keeps active_service_id (on_stream m)"
  by (rule keepsI) (auto simp: on_stream_def split: prod.splits dest: keepsD)

definition local_part :: "'w net_scheme \<Rightarrow> string option \<times> bytes list \<times> err option list" where
  "local_part w = (active_service_id w, uds_out w, uds_faults w)"

lemma local_part_connect [simp, intro]: "keeps local_part (connect_with_mode env ent bound cfg ct lu)"
  using svc.connect_with_mode_keeps [of env ent bound cfg ct lu] uds.connect_with_mode_keeps [of env ent bound cfg ct lu]
  by (simp add: keeps_def local_part_def)

lemma connect_attempt_run:
  assumes "connect_attempt env cfg ct sid dl w = (r, w')"
  shows "daemon_part w' = daemon_part (w\<lparr>d_attempts := Suc (d_attempts w)\<rparr>)"
    and "local_part w' = local_part w" and "clock w \<le> clock w'"
    and "r = Done (Ok info) \<Longrightarrow> stream_key w' = Some (en_peer_key (fst (de_draw env (d_attempts w))))"
proof -
  obtain ent bound where d: "de_draw env (d_attempts w) = (ent, bound)" by force
  let ?m = "connect_with_mode (de_conn env) ent bound cfg ct (login_union_for_conn_type ct sid)"
  let ?w = "w\<lparr>d_attempts := Suc (d_attempts w)\<rparr>"
  from assms d have run: "on_world ?m dl ?w = (r, w')" by (simp add: connect_attempt_def)
  then obtain v where v: "?m dl (world.truncate ?w) = (r, v)" "w' = world.extend v (world.more ?w)"
    by (auto simp: on_world_def split: prod.splits)
  show "daemon_part w' = daemon_part ?w" using daemon_part_kept(1) run by (rule keepsD)
  show "local_part w' = local_part w" using keepsD [OF local_part_connect v(1)] v(2) by (simp add: local_part_def)
  show "clock w \<le> clock w'" using timelyD(1) [OF timely_connect(3) v(1)] v(2) by simp
  show "r = Done (Ok info) \<Longrightarrow> stream_key w' = Some (en_peer_key (fst (de_draw env (d_attempts w))))"
    using connect_Ok_encrypted [of _ ent bound] v d by simp
qed

text \<open>A notifier that only writes the log, or nothing.\<close>

definition logs :: "(SessionResponse \<Rightarrow> unit dio) \<Rightarrow> (SessionResponse list \<Rightarrow> SessionResponse list) \<Rightarrow> bool" where
  "logs notify g \<longleftrightarrow> g [] = [] \<and> (\<forall>a b. g (a @ b) = g a @ g b) \<and>
     (\<forall>resp dl w. notify resp dl w = (Done (Ok ()), w\<lparr>d_log := d_log w @ g [resp]\<rparr>))"

lemma logs_notifiers [simp]: "logs notify_stderr (\<lambda>rs. rs)" "logs notify_nothing (\<lambda>rs. [])"
  by (simp_all add: logs_def notify_stderr_def notify_nothing_def lift_async_def)

lemma retry_loop_run:
  assumes "logs notify g"
    and "retry_loop (\<lambda>_. connect_attempt env cfg ct sid) notify n a le bs None w = (r, w')"
  shows "\<exists>k \<le> length bs.
     daemon_part w' = daemon_part (w\<lparr>d_attempts := d_attempts w + k,
       d_log := d_log w @ g (map (\<lambda>i. reconnecting_response (a + i) n (bs ! i)) [0..<k])\<rparr>) \<and>
     local_part w' = local_part w \<and> clock w + sum_list (take k bs) \<le> clock w' \<and>
     (case r of
        Done (Inr info) \<Rightarrow> 0 < k \<and> stream_key w' = Some (en_peer_key (fst (de_draw env (d_attempts w + (k - 1)))))
      | Done (Inl e) \<Rightarrow> k = length bs \<or> is_panic e
      | _ \<Rightarrow> 0 < k)"
  using assms(2)
proof (induction bs arbitrary: a le w)
  case Nil
  with assms(1) show ?case
    by (auto simp: lift_async_def logs_def daemon_part_def intro!: exI [of _ "0 :: nat"])
next
  case (Cons b bs)
  let ?w1 = "w\<lparr>d_log := d_log w @ g [reconnecting_response a n b], clock := clock w + b\<rparr>"
  obtain q w2 where q: "connect_attempt env cfg ct sid None ?w1 = (q, w2)" by force
  note at = connect_attempt_run [OF q]
  have run: "bind_async (try_async (connect_attempt env cfg ct sid)) (\<lambda>r. case r of Inr v \<Rightarrow> return_async v
      | Inl e \<Rightarrow> if is_panic e then lift_async (Err e)
                 else retry_loop (\<lambda>_. connect_attempt env cfg ct sid) notify n (a + 1) (Some e) bs) None ?w1 = (r, w')"
    using Cons.prems assms(1) by (simp add: bind_async_def logs_def sleep_def)
  have one: ?case
    if "w' = w2" and "case r of Done (Inr info) \<Rightarrow> q = Done (Ok info) | Done (Inl e) \<Rightarrow> is_panic e | _ \<Rightarrow> True"
    using that at by (intro exI [of _ 1])
      (auto simp: daemon_part_def local_part_def split: outcome.splits sum.splits)
  show ?case
  proof (cases "\<exists>e. q = Done (Inl e) \<and> \<not> is_panic e")
    case False
    show ?thesis
    proof (rule one)
      show "w' = w2" using run q False
        by (auto simp: bind_async_def try_async_def lift_async_def split: outcome.splits sum.splits if_splits)
      show "case r of Done (Inr info) \<Rightarrow> q = Done (Ok info) | Done (Inl e) \<Rightarrow> is_panic e | _ \<Rightarrow> True"
        using run q False
        by (auto simp: bind_async_def try_async_def lift_async_def split: outcome.splits sum.splits if_splits)
    qed
  next
    case True
    then obtain e where e: "q = Done (Inl e)" "\<not> is_panic e" by blast
    with run q have "retry_loop (\<lambda>_. connect_attempt env cfg ct sid) notify n (a + 1) (Some e) bs None w2 = (r, w')"
      by (simp add: bind_async_def try_async_def)
    from Cons.IH [OF this] obtain k where k: "k \<le> length bs"
      "daemon_part w' = daemon_part (w2\<lparr>d_attempts := d_attempts w2 + k,
         d_log := d_log w2 @ g (map (\<lambda>i. reconnecting_response (a + 1 + i) n (bs ! i)) [0..<k])\<rparr>)"
      "local_part w' = local_part w2" "clock w2 + sum_list (take k bs) \<le> clock w'"
      "case r of
        Done (Inr info) \<Rightarrow> 0 < k \<and> stream_key w' = Some (en_peer_key (fst (de_draw env (d_attempts w2 + (k - 1)))))
      | Done (Inl e) \<Rightarrow> k = length bs \<or> is_panic e
      | _ \<Rightarrow> 0 < k" by blast
    have reports: "map (\<lambda>i. reconnecting_response (a + i) n ((b # bs) ! i)) [0..<Suc k] =
        [reconnecting_response a n b] @ map (\<lambda>i. reconnecting_response (a + 1 + i) n (bs ! i)) [0..<k]"
      by (simp add: upt_conv_Cons map_Suc_upt [symmetric] comp_def del: upt_Suc)
    from assms(1) have g: "g (xs @ ys) = g xs @ g ys" for xs ys by (simp add: logs_def)
    show ?thesis
      by (rule exI [of _ "Suc k"], unfold reports g) (use k at in \<open>auto simp: daemon_part_def local_part_def
          split: outcome.splits sum.splits\<close>)
  qed
qed

text \<open>The stream a daemon uses.\<close>

definition stream_part ::
  "dstate \<Rightarrow> (nat \<times> bytes result) list \<times> bytes list \<times> err option list \<times> bool \<times> string \<times> bytes option" where
  "stream_part w = (inbox w, outbox w, faults w, closed w, peer_addr w, stream_key w)"

definition backoff_log :: "nat \<Rightarrow> SessionResponse list" where
  "backoff_log k = map (\<lambda>i. reconnecting_response (1 + i) 6 (RECONNECT_BACKOFFS ! i)) [0..<k]"

lemma restore_stream_parts [simp]:
  "stream_part (restore_stream w w') = stream_part w" "daemon_part (restore_stream w w') = daemon_part w'"
  "clock (restore_stream w w') = clock w'" "local_part (restore_stream w w') = local_part w'"
  "d_attempts (restore_stream w w') = d_attempts w'" "d_log (restore_stream w w') = d_log w'"
  "d_conn_type (restore_stream w w') = d_conn_type w'" "d_session (restore_stream w w') = d_session w'"
  "d_last_activity (restore_stream w w') = d_last_activity w'"
  by (simp_all add: restore_stream_def stream_part_def daemon_part_def local_part_def)

lemma local_part_initialize [simp, intro]: "keeps local_part (on_stream (initialize_stream_for_mode x ct))"
proof (rule keepsI)
  fix dl r and w w' :: "'b net_scheme"
  have "keeps local_part (stream_send m)" for m
    by (rule keepsI) (auto simp: stream_send_def local_part_def split: list.splits option.splits)
  then have "keeps local_part (initialize_stream_for_mode x ct)"
    unfolding initialize_stream_for_mode_def send_option_message_def send_session_init_def send_message_def
    by (auto intro!: keeps_bind)
  moreover assume "on_stream (initialize_stream_for_mode x ct) dl w = (r, w')"
  ultimately show "local_part w' = local_part w"
    by (auto simp: on_stream_def local_part_def split: prod.splits dest: keepsD)
qed

lemma timely_initialize [simp, intro]: "timely (initialize_stream_for_mode x ct)"
  unfolding initialize_stream_for_mode_def send_option_message_def send_session_init_def send_message_def
  by (auto intro!: timely_bind)

lemma length_backoffs [simp]: "length RECONNECT_BACKOFFS = 6"
  by (simp add: RECONNECT_BACKOFFS_def)

lemma retry_run:
  assumes "logs notify g"
    and "reconnect_with_retry (\<lambda>_. connect_attempt env cfg ct sid) notify None w = (r, w')"
  shows "\<exists>k \<le> 6.
     daemon_part w' = daemon_part (w\<lparr>d_attempts := d_attempts w + k, d_log := d_log w @ g (backoff_log k)\<rparr>) \<and>
     local_part w' = local_part w \<and> clock w + sum_list (take k RECONNECT_BACKOFFS) \<le> clock w' \<and>
     (case r of
        Done (Inr info) \<Rightarrow> 0 < k \<and> stream_key w' = Some (en_peer_key (fst (de_draw env (d_attempts w + (k - 1)))))
      | Done (Inl e) \<Rightarrow> k = 6 \<or> is_panic e
      | _ \<Rightarrow> 0 < k)"
  using retry_loop_run [OF assms(1)
      assms(2) [unfolded reconnect_with_retry_def reconnect_with_retry_backoffs_def length_backoffs]]
  by (simp only: backoff_log_def length_backoffs)

lemma reconnect_run:
  assumes "logs notify g" and "reconnect_encrypted_stream env cfg ct notify sid None w = (r, w')"
  shows "\<exists>k \<le> 6. d_attempts w' = d_attempts w + k \<and> d_log w' = d_log w @ g (backoff_log k) \<and>
     d_conn_type w' = d_conn_type w \<and> d_last_activity w' = d_last_activity w \<and> local_part w' = local_part w \<and>
     clock w + sum_list (take k RECONNECT_BACKOFFS) \<le> clock w' \<and>
     (case r of
        Done (Inr _) \<Rightarrow> 0 < k \<and> stream_key w' = Some (en_peer_key (fst (de_draw env (d_attempts w + (k - 1))))) \<and>
          (\<exists>info. d_session w' = (d_session w)\<lparr>state := Connected, peer_info := Some (peer_info_state info)\<rparr>)
      | _ \<Rightarrow> stream_part w' = stream_part w \<and> d_session w' = d_session w)"
proof -
  let ?m = "reconnect_with_retry (\<lambda>_. connect_attempt env cfg ct sid) notify"
  let ?init = "on_stream (initialize_stream_for_mode (de_ext env) ct) :: unit dio"
  obtain q w1 where q: "?m None w = (q, w1)" by force
  from retry_run [OF assms(1) q] obtain k where k: "k \<le> 6"
    "daemon_part w1 = daemon_part (w\<lparr>d_attempts := d_attempts w + k, d_log := d_log w @ g (backoff_log k)\<rparr>)"
    "local_part w1 = local_part w" "clock w + sum_list (take k RECONNECT_BACKOFFS) \<le> clock w1"
    "case q of
        Done (Inr info) \<Rightarrow> 0 < k \<and> stream_key w1 = Some (en_peer_key (fst (de_draw env (d_attempts w + (k - 1)))))
      | Done (Inl e) \<Rightarrow> k = 6 \<or> is_panic e
      | _ \<Rightarrow> 0 < k" by blast
  show ?thesis
  proof (cases "\<exists>info. q = Done (Ok info)")
    case False
    then have "r = (case q of Done (Inl e) \<Rightarrow> Done (Inl e) | Elapsed \<Rightarrow> Elapsed | _ \<Rightarrow> Hang)" "w' = restore_stream w w1"
      using assms(2) q
      by (auto simp: reconnect_encrypted_stream_def keep_stream_def bind_async_def split: outcome.splits sum.splits)
    with False k show ?thesis by (intro exI [of _ k]) (auto simp: daemon_part_def split: outcome.splits sum.splits)
  next
    case True
    then obtain info where info: "q = Done (Ok info)" by blast
    obtain p w2 where p: "?init None w1 = (p, w2)" by force
    have w2: "daemon_part w2 = daemon_part w1" "local_part w2 = local_part w1" "stream_key w2 = stream_key w1"
      "clock w1 \<le> clock w2"
      using keepsD [OF daemon_part_kept(2) p] keepsD [OF local_part_initialize p] keepsD [OF daemon_part_kept(3) p]
        timelyD(1) [OF timely_on_stream [OF timely_initialize] p] by auto
    show ?thesis
    proof (cases "\<exists>u. p = Done (Ok u)")
      case True
      then have "r = Done (Ok ())"
        "w' = w2\<lparr>d_session := (d_session w2)\<lparr>state := Connected, peer_info := Some (peer_info_state info)\<rparr>\<rparr>"
        using assms(2) q info p
        by (auto simp: reconnect_encrypted_stream_def keep_stream_def bind_async_def set_peer_def)
      with k w2 info show ?thesis by (intro exI [of _ k]) (auto simp: daemon_part_def local_part_def)
    next
      case False
      then have "(\<forall>u. r \<noteq> Done (Ok u))" "w' = restore_stream w w2"
        using assms(2) q info p
        by (auto simp: reconnect_encrypted_stream_def keep_stream_def bind_async_def split: outcome.splits sum.splits)
      with k w2 info show ?thesis by (intro exI [of _ k]) (auto simp: daemon_part_def split: outcome.splits sum.splits)
    qed
  qed
qed

section \<open>Properties\<close>

text \<open>
  C9. Reconnecting. The daemon tries to connect at most six times, each time after announcing the attempt with its
  number and waiting the next of the back-offs 1, 2, 4, 8, 16 and 30 seconds; it gives up only after the sixth failure
  (a panic apart). When it succeeds, the stream in use is encrypted with the key drawn for the last attempt and the
  session is connected; when it fails, the stream and the session are what they were before.
\<close>

theorem reconnect_backoff:
  "(case reconnect_with_retry (\<lambda>_. connect_attempt env cfg ct sid) notify_stderr None w of (r, w') \<Rightarrow>
      \<exists>k \<le> 6. d_attempts w' = d_attempts w + k \<and> d_log w' = d_log w @ backoff_log k \<and>
        clock w + sum_list (take k RECONNECT_BACKOFFS) \<le> clock w' \<and>
        (case r of
           Done (Inr info) \<Rightarrow> 0 < k \<and> stream_key w' = Some (en_peer_key (fst (de_draw env (d_attempts w + (k - 1)))))
         | Done (Inl e) \<Rightarrow> k = 6 \<or> is_panic e
         | _ \<Rightarrow> 0 < k)) \<and>
   (case reconnect_encrypted_stream env cfg ct notify_stderr sid None w of (r, w') \<Rightarrow>
      \<exists>k \<le> 6. d_attempts w' = d_attempts w + k \<and> d_log w' = d_log w @ backoff_log k \<and>
        (case r of
           Done (Inr _) \<Rightarrow> 0 < k \<and>
             stream_key w' = Some (en_peer_key (fst (de_draw env (d_attempts w + (k - 1))))) \<and>
             state (d_session w') = Connected
         | _ \<Rightarrow> stream_part w' = stream_part w \<and> d_session w' = d_session w))"
proof -
  obtain r1 w1 where w1: "reconnect_with_retry (\<lambda>_. connect_attempt env cfg ct sid) notify_stderr None w = (r1, w1)"
    by force
  obtain r2 w2 where w2: "reconnect_encrypted_stream env cfg ct notify_stderr sid None w = (r2, w2)" by force
  from retry_run [OF logs_notifiers(1) w1] reconnect_run [OF logs_notifiers(1) w2] show ?thesis
    unfolding w1 w2 prod.case daemon_part_def
    by (elim exE conjE) (intro conjI exI, auto split: outcome.splits sum.splits)
qed

end
