(* ===== verification/Daemon_Loop.thy ===== *)
theory Daemon_Loop
  imports Daemon
begin

text \<open>
  The event loop of \<^verbatim>\<open>run_daemon\<close>, \<^verbatim>\<open>src/daemon.rs\<close>: one turn for each event of the \<^verbatim>\<open>select!\<close>, the loop over a
  sequence of events, the states the daemon can be in as a step relation, and what holds in all of them.
  A turn returns \<open>True\<close> when the loop goes on and \<open>False\<close> for \<^verbatim>\<open>return Ok(())\<close>; an error of a turn is what
  \<^verbatim>\<open>run_daemon\<close> returns.
\<close>

section \<open>Events\<close>

text \<open>
  What completes the \<^verbatim>\<open>select!\<close>. A local client is accepted at some time; \<open>line\<close> is what \<^verbatim>\<open>read_line\<close> returns
  (\<open>None\<close> when the client keeps the connection open without sending a line), \<open>wfaults\<close> are the faults of the writes to
  it and \<open>evs\<close> what happens during a shell session. \<open>PeerReady\<close> takes the next frame of the open stream. A
  heartbeat tick comes with the time it happens and the reading of \<^verbatim>\<open>recv_idle_for\<close>.
\<close>

datatype daemon_event =
    Accepted nat "string result option" "err option list" "shell_input list"
  | AcceptError nat
  | IdleTimeout
  | PeerReady
  | HeartbeatTick nat nat
  | SignalReceived nat

section \<open>Pieces of a turn\<close>

text \<open>A \<^verbatim>\<open>match\<close> on a result; a panic is not one of its cases.\<close>

definition match_async :: "('a, 'w) aio \<Rightarrow> ('a \<Rightarrow> ('b, 'w) aio) \<Rightarrow> (err \<Rightarrow> ('b, 'w) aio) \<Rightarrow> ('b, 'w) aio" where
  "match_async m ok bad =
     bind_async (try_async m) (\<lambda>r.
     case r of
       Inr v \<Rightarrow> ok v
     | Inl e \<Rightarrow> if is_panic e then lift_async (Err e) else bad e)"

text \<open>\<^verbatim>\<open>graceful_shutdown(&mut encrypted).await?\<close> and then \<^verbatim>\<open>return r\<close>.\<close>

definition leave :: "'img daemon_env \<Rightarrow> unit result \<Rightarrow> bool dio" where
  "leave env r =
     bind_async (on_stream (graceful_shutdown (de_ext env))) (\<lambda>_.
     lift_async (case r of Inr _ \<Rightarrow> Ok False | Inl e \<Rightarrow> Err e))"

definition reconnect_active :: "'img daemon_env \<Rightarrow> PeerConfig \<Rightarrow> (SessionResponse \<Rightarrow> unit dio) \<Rightarrow> unit dio" where
  "reconnect_active env cfg notify dl w =
     reconnect_encrypted_stream env cfg (d_conn_type w) notify (active_service_id w) dl w"

text \<open>After a lost connection: reconnect, or shut down with the error.\<close>

definition recover :: "'img daemon_env \<Rightarrow> PeerConfig \<Rightarrow> bool dio" where
  "recover env cfg =
     match_async (reconnect_active env cfg notify_stderr) (\<lambda>_. return_async True) (\<lambda>e. leave env (Err e))"

definition reply_line :: "'img daemon_env \<Rightarrow> SessionResponse \<Rightarrow> unit dio" where
  "reply_line env resp = ignore_async (on_stream (send_response (de_ser env) resp))"

text \<open>
  Running a command with one more try after a reconnect, as the arms for push, exec and the other commands do it;
  \<open>what\<close> is the word of the error message.
\<close>

definition run_with_reconnect ::
  "'img daemon_env \<Rightarrow> PeerConfig \<Rightarrow> string \<Rightarrow> SessionResponse dio \<Rightarrow> (SessionResponse \<Rightarrow> bool dio) \<Rightarrow> bool dio" where
  "run_with_reconnect env cfg what run answer =
     match_async run answer (\<lambda>command_err.
       if should_reconnect command_err then
         match_async (reconnect_active env cfg notify_nothing)
           (\<lambda>_. match_async run answer (\<lambda>retry_err.
              answer (resp_error (what @ '' failed after reconnect: '' @ err_chain retry_err))))
           (\<lambda>reconnect_err.
              bind_async (reply_line env (resp_error (''connection lost: '' @ err_chain command_err @
                ''; reconnect failed: '' @ err_chain reconnect_err))) (\<lambda>_.
              leave env (Err reconnect_err)))
       else answer (resp_error (err_chain command_err)))"

definition answer_and_go :: "'img daemon_env \<Rightarrow> SessionResponse \<Rightarrow> bool dio" where
  "answer_and_go env resp = bind_async (reply_line env resp) (\<lambda>_. return_async True)"

definition set_conn_type :: "ConnType \<Rightarrow> unit dio" where
  "set_conn_type ct dl w = (Done (Ok ()), w\<lparr>d_conn_type := ct\<rparr>)"

definition set_activity :: "unit dio" where
  "set_activity dl w = (Done (Ok ()), w\<lparr>d_last_activity := clock w\<rparr>)"

definition set_writer :: "err option list \<Rightarrow> unit dio" where
  "set_writer wfaults dl w = (Done (Ok ()), w\<lparr>uds_faults := wfaults\<rparr>)"

definition advance_to :: "nat \<Rightarrow> unit dio" where
  "advance_to t dl w = (Done (Ok ()), w\<lparr>clock := max t (clock w)\<rparr>)"

section \<open>The commands\<close>

definition shell_arm :: "'img daemon_env \<Rightarrow> PeerConfig \<Rightarrow> shell_input list \<Rightarrow> bool dio" where
  "shell_arm env cfg evs =
     match_async (on_stream (shell_session (de_ext env) (de_ser env) evs))
       (\<lambda>_. return_async True)
       (\<lambda>e. if should_reconnect e then recover env cfg else return_async True)"

definition push_arm :: "'img daemon_env \<Rightarrow> PeerConfig \<Rightarrow> string \<Rightarrow> string \<Rightarrow> bool dio" where
  "push_arm env cfg local_path remote_path =
     run_with_reconnect env cfg ''push''
       (\<lambda>dl w. on_stream (push_file_command (de_ext env) (de_ser env) (de_fs env) (de_nanos env (clock w))
          (de_reads env (clock w)) local_path remote_path) dl w)
       (answer_and_go env)"

definition exec_arm :: "'img daemon_env \<Rightarrow> PeerConfig \<Rightarrow> string \<Rightarrow> u64 option \<Rightarrow> bool dio" where
  "exec_arm env cfg command tmo =
     run_with_reconnect env cfg ''exec''
       (\<lambda>dl w. on_stream (exec_command_streaming (de_ext env) (de_ser env) (de_nanos env (clock w)) command tmo) dl w)
       (answer_and_go env)"

definition other_arm :: "'img daemon_env \<Rightarrow> PeerConfig \<Rightarrow> SessionCommand \<Rightarrow> bool dio" where
  "other_arm env cfg cmd =
     run_with_reconnect env cfg ''command'' (execute_daemon_command env cmd)
       (\<lambda>resp. bind_async (reply_line env resp) (\<lambda>_.
          if cmd = Disconnect then leave env (Ok ()) else return_async True))"

definition command_arm :: "'img daemon_env \<Rightarrow> PeerConfig \<Rightarrow> shell_input list \<Rightarrow> SessionCommand \<Rightarrow> bool dio" where
  "command_arm env cfg evs cmd =
     (case cmd of
        Shell \<Rightarrow> shell_arm env cfg evs
      | Push local_path remote_path \<Rightarrow> push_arm env cfg local_path remote_path
      | Exec command tmo \<Rightarrow> exec_arm env cfg command tmo
      | _ \<Rightarrow> other_arm env cfg cmd)"

text \<open>Switching the connection to what the command needs.\<close>

definition switch_mode :: "'img daemon_env \<Rightarrow> PeerConfig \<Rightarrow> ConnType \<Rightarrow> unit dio" where
  "switch_mode env cfg desired dl w =
     (if desired = d_conn_type w then (Done (Ok ()), w)
      else
        bind_async (if desired \<noteq> TerminalConn then set_service None else return_async ()) (\<lambda>_ dl w.
        bind_async (reconnect_encrypted_stream env cfg desired notify_stderr (active_service_id w)) (\<lambda>_.
        set_conn_type desired) dl w) dl w)"

definition handle_line :: "'img daemon_env \<Rightarrow> PeerConfig \<Rightarrow> shell_input list \<Rightarrow> string \<Rightarrow> bool dio" where
  "handle_line env cfg evs line =
     (case parse_cmd env (trim line) of
        Inl e \<Rightarrow> answer_and_go env (resp_error (''Invalid command: '' @ err_chain e))
      | Inr cmd \<Rightarrow>
          match_async (switch_mode env cfg (conn_type_for_command cmd))
            (\<lambda>_. command_arm env cfg evs cmd)
            (\<lambda>reconnect_err. answer_and_go env (resp_error (err_chain reconnect_err))))"

section \<open>One turn, and the loop\<close>

definition peer_turn :: "'img daemon_env \<Rightarrow> PeerConfig \<Rightarrow> bool dio" where
  "peer_turn env cfg =
     match_async stream_recv
       (\<lambda>raw. if raw = [] then return_async True
          else match_async (on_stream (handle_peer_message (de_ext env) raw))
            (\<lambda>go. if go then return_async True else leave env (Ok ()))
            (\<lambda>e. return_async True))
       (\<lambda>e. recover env cfg)"

text \<open>\<^verbatim>\<open>send_heartbeat\<close> is the empty message of the stream, see the theory Stream\_Refinement.\<close>

definition heartbeat_turn :: "'img daemon_env \<Rightarrow> PeerConfig \<Rightarrow> nat \<Rightarrow> bool dio" where
  "heartbeat_turn env cfg idle =
     match_async (stream_send [])
       (\<lambda>_. if is_keepalive_expired idle KEEPALIVE_TIMEOUT then recover env cfg else return_async True)
       (\<lambda>e. recover env cfg)"

definition daemon_turn :: "'img daemon_env \<Rightarrow> PeerConfig \<Rightarrow> nat \<Rightarrow> daemon_event \<Rightarrow> bool dio" where
  "daemon_turn env cfg idle_timeout ev =
     (case ev of
        PeerReady \<Rightarrow> peer_turn env cfg
      | HeartbeatTick t idle \<Rightarrow> bind_async (advance_to t) (\<lambda>_. heartbeat_turn env cfg idle)
      | Accepted t line wfaults evs \<Rightarrow>
          bind_async (advance_to t) (\<lambda>_.
          bind_async set_activity (\<lambda>_.
          bind_async (set_writer wfaults) (\<lambda>_.
          case line of
            None \<Rightarrow> (\<lambda>dl w. (Hang, w))
          | Some (Inl e) \<Rightarrow> return_async True
          | Some (Inr l) \<Rightarrow> handle_line env cfg evs l)))
      | AcceptError t \<Rightarrow> bind_async (advance_to t) (\<lambda>_. return_async True)
      | IdleTimeout \<Rightarrow>
          (\<lambda>dl w. bind_async (advance_to (d_last_activity w + idle_timeout)) (\<lambda>_. leave env (Ok ())) dl w)
      | SignalReceived t \<Rightarrow> bind_async (advance_to t) (\<lambda>_. leave env (Ok ())))"

fun daemon_loop :: "'img daemon_env \<Rightarrow> PeerConfig \<Rightarrow> nat \<Rightarrow> daemon_event list \<Rightarrow> unit dio" where
  "daemon_loop env cfg idle_timeout [] = (\<lambda>dl w. (Hang, w))"
| "daemon_loop env cfg idle_timeout (ev # evs) =
     bind_async (daemon_turn env cfg idle_timeout ev) (\<lambda>go.
     if go then daemon_loop env cfg idle_timeout evs else return_async ())"

section \<open>The states of the daemon\<close>

declare lift_apply [simp del]

text \<open>
  The daemon between two turns: connected, on an encrypted stream of one of the two types it uses, with a terminal
  service only where the connection is a terminal.
\<close>

definition daemon_inv :: "ConnectionConfig \<Rightarrow> dstate \<Rightarrow> bool" where
  "daemon_inv c w \<longleftrightarrow> state (d_session w) = Connected \<and> config (d_session w) = Some c \<and>
     peer_info (d_session w) \<noteq> None \<and> stream_key w \<noteq> None \<and> d_conn_type w \<in> {DefaultConn, TerminalConn} \<and>
     (active_service_id w = None \<or> d_conn_type w = TerminalConn)"

text \<open>Triples with a postcondition for the value and one for the error, for runs without a deadline.\<close>

definition triple :: "(dstate \<Rightarrow> bool) \<Rightarrow> 'a dio \<Rightarrow> ('a \<Rightarrow> dstate \<Rightarrow> bool) \<Rightarrow> (err \<Rightarrow> dstate \<Rightarrow> bool) \<Rightarrow> bool" where
  "triple P m Q E \<longleftrightarrow> (\<forall>w r w'. P w \<longrightarrow> m None w = (Done r, w') \<longrightarrow> (case r of Inr v \<Rightarrow> Q v w' | Inl e \<Rightarrow> E e w'))"

lemma tripleI:
  assumes "\<And>w v w'. P w \<Longrightarrow> m None w = (Done (Ok v), w') \<Longrightarrow> Q v w'"
    and "\<And>w e w'. P w \<Longrightarrow> m None w = (Done (Err e), w') \<Longrightarrow> E e w'"
  shows "triple P m Q E"
  using assms by (auto simp: triple_def split: sum.splits)

lemma tripleD:
  assumes "triple P m Q E" and "P w"
  shows "m None w = (Done (Ok v), w') \<Longrightarrow> Q v w'" and "m None w = (Done (Err e), w') \<Longrightarrow> E e w'"
  using assms by (force simp: triple_def split: sum.splits)+

lemma triple_mono:
  assumes "triple P m Q E" and "\<And>w. P' w \<Longrightarrow> P w" and "\<And>v w. Q v w \<Longrightarrow> Q' v w" and "\<And>e w. E e w \<Longrightarrow> E' e w"
  shows "triple P' m Q' E'"
  using assms by (fastforce simp: triple_def split: sum.splits)

lemma triple_bind:
  assumes "triple P m Q E" and "\<And>v. triple (Q v) (f v) R E"
  shows "triple P (bind_async m f) R E"
proof (rule tripleI)
  fix w v w'
  assume P: "P w" and "bind_async m f None w = (Done (Ok v), w')"
  then obtain u w1 where "m None w = (Done (Ok u), w1)" "f u None w1 = (Done (Ok v), w')"
    by (blast dest: bind_async_Ok)
  with tripleD(1) [OF assms(1) P] tripleD(1) [OF assms(2)] show "R v w'" by blast
next
  fix w e w'
  assume P: "P w" and run: "bind_async m f None w = (Done (Err e), w')"
  obtain q w1 where q: "m None w = (q, w1)" by force
  show "E e w'"
  proof (cases "\<exists>u. q = Done (Ok u)")
    case True
    then obtain u where u: "q = Done (Ok u)" by blast
    with q run tripleD(1) [OF assms(1) P] have "Q u w1" "f u None w1 = (Done (Err e), w')"
      by (auto simp: bind_async_def)
    with tripleD(2) [OF assms(2)] show ?thesis by blast
  next
    case False
    with q run have "q = Done (Err e)" "w1 = w'" by (auto simp: bind_async_def split: outcome.splits sum.splits)
    with q tripleD(2) [OF assms(1) P] show ?thesis by blast
  qed
qed

lemma triple_lift: "(\<And>w v. P w \<Longrightarrow> r = Ok v \<Longrightarrow> Q v w) \<Longrightarrow> (\<And>w e. P w \<Longrightarrow> r = Err e \<Longrightarrow> E e w) \<Longrightarrow> triple P (lift_async r) Q E"
  by (rule tripleI) (auto simp: lift_async_def)

lemma triple_match:
  assumes "triple P m Q E1" and "\<And>v. triple (Q v) (ok v) R E" and "\<And>e. triple (E1 e) (bad e) R E"
    and "\<And>e w. E1 e w \<Longrightarrow> E e w"
  shows "triple P (match_async m ok bad) R E"
  unfolding match_async_def
proof (rule triple_bind)
  show "triple P (try_async m) (\<lambda>r w. case r of Inr v \<Rightarrow> Q v w | Inl e \<Rightarrow> E1 e w) E"
    using assms(1) by (auto simp: triple_def try_async_def split: prod.splits outcome.splits sum.splits)
  show "triple (\<lambda>w. case r of Inr v \<Rightarrow> Q v w | Inl e \<Rightarrow> E1 e w)
      (case r of Inr v \<Rightarrow> ok v | Inl e \<Rightarrow> if is_panic e then lift_async (Err e) else bad e) R E" for r
    using assms(2-4) by (cases r) (auto intro!: triple_lift)
qed

text \<open>An operation that keeps what the invariant speaks of.\<close>

definition inv_part :: "dstate \<Rightarrow> Session \<times> ConnType \<times> bytes option \<times> string option" where
  "inv_part w = (d_session w, d_conn_type w, stream_key w, active_service_id w)"

definition depends_on :: "(dstate \<Rightarrow> 'b) \<Rightarrow> (dstate \<Rightarrow> bool) \<Rightarrow> bool" where
  "depends_on f P \<longleftrightarrow> (\<forall>v w. f v = f w \<longrightarrow> P v = P w)"

lemma triple_keeps: "keeps f m \<Longrightarrow> depends_on f P \<Longrightarrow> triple P m (\<lambda>_. P) (\<lambda>_. P)"
  unfolding depends_on_def by (rule tripleI) (metis keepsD)+

definition in_mode :: "ConnectionConfig \<Rightarrow> ConnType \<Rightarrow> dstate \<Rightarrow> bool" where
  "in_mode c ct w \<longleftrightarrow> daemon_inv c w \<and> d_conn_type w = ct"

lemma depends_inv [simp]: "depends_on inv_part (daemon_inv c)" "depends_on inv_part (in_mode c ct)"
  by (auto simp: depends_on_def inv_part_def daemon_inv_def in_mode_def)

lemma inv_part_kept [simp, intro]:
  "keeps active_service_id m \<Longrightarrow> keeps inv_part (on_stream m)"
  "keeps inv_part (advance_to t)" "keeps inv_part set_activity" "keeps inv_part (set_writer fs)"
  "keeps inv_part stream_recv" "keeps inv_part (stream_send bs)"
proof -
  assume m: "keeps active_service_id m"
  have "keeps active_service_id (on_stream m :: 'a dio)" using m by (rule on_stream_keeps_service)
  with daemon_part_kept(2) [of m] daemon_part_kept(3) [of m]
  show "keeps inv_part (on_stream m)" by (simp add: keeps_def inv_part_def daemon_part_def)
qed (rule keepsI; auto simp: inv_part_def advance_to_def set_activity_def set_writer_def stream_recv_def
    stream_send_def Let_def split: list.splits option.splits if_splits)+

lemma reply_line_kept [simp, intro]: "keeps inv_part (reply_line env resp)"
  unfolding reply_line_def ignore_async_def by (auto intro!: keeps_bind)

lemma triple_leave: "triple P (leave env r) (\<lambda>go _. \<not> go) (\<lambda>_ _. True)"
  unfolding leave_def
  by (rule triple_bind [of _ _ "\<lambda>_ _. True"]) (auto simp: triple_def lift_async_def split: sum.splits)

lemma reconnect_keeps_inv:
  assumes "logs notify g" and "\<And>w. P w \<Longrightarrow> daemon_inv c w"
    and "\<And>v w. P w \<Longrightarrow> daemon_inv c v \<Longrightarrow> d_conn_type v = d_conn_type w \<Longrightarrow> active_service_id v = active_service_id w \<Longrightarrow> P v"
  shows "triple P (reconnect_encrypted_stream env cfg ct notify sid) (\<lambda>_. P) (\<lambda>_. P)"
proof (rule tripleI)
  fix w u w'
  assume P: "P w" and run: "reconnect_encrypted_stream env cfg ct notify sid None w = (Done (Ok u), w')"
  from reconnect_run [OF assms(1) run] assms(2) [OF P] show "P w'"
    by (intro assms(3) [OF P]) (auto simp: daemon_inv_def local_part_def)
next
  fix w e w'
  assume P: "P w" and run: "reconnect_encrypted_stream env cfg ct notify sid None w = (Done (Err e), w')"
  from reconnect_run [OF assms(1) run] assms(2) [OF P] show "P w'"
    by (intro assms(3) [OF P]) (auto simp: daemon_inv_def local_part_def stream_part_def)
qed

lemma in_mode_reconnect:
  assumes "logs notify g"
  shows "triple (in_mode c ct) (reconnect_active env cfg notify) (\<lambda>_. in_mode c ct) (\<lambda>_. in_mode c ct)"
proof -
  have "triple (in_mode c ct) (reconnect_encrypted_stream env cfg a notify s) (\<lambda>_. in_mode c ct) (\<lambda>_. in_mode c ct)" for a s
    by (rule reconnect_keeps_inv [OF assms]) (auto simp: in_mode_def)
  then show ?thesis by (auto simp: triple_def reconnect_active_def)
qed

text \<open>What a turn has to establish.\<close>

abbreviation turn_ok :: "ConnectionConfig \<Rightarrow> ConnType \<Rightarrow> bool dio \<Rightarrow> bool" where
  "turn_ok c ct m \<equiv> triple (in_mode c ct) m (\<lambda>go w. go \<longrightarrow> in_mode c ct w) (\<lambda>_ _. True)"

lemma turn_return [simp, intro]: "turn_ok c ct (return_async b)"
  by (auto intro: triple_lift)

lemma turn_leave [simp, intro]: "turn_ok c ct (leave env r)"
  by (rule triple_mono [OF triple_leave]) auto

lemma turn_recover [simp, intro]: "turn_ok c ct (recover env cfg)"
  unfolding recover_def by (rule triple_match [OF in_mode_reconnect [OF logs_notifiers(1)]]) auto

lemma turn_bind:
  assumes "keeps inv_part m" and "\<And>v. turn_ok c ct (f v)"
  shows "turn_ok c ct (bind_async m f)"
  by (rule triple_bind [OF triple_mono [OF triple_keeps [OF assms(1) depends_inv(2)]] assms(2)]) auto

lemma turn_answer [simp, intro]: "turn_ok c ct (answer_and_go env resp)"
  unfolding answer_and_go_def by (rule turn_bind) auto

lemma turn_run_with_reconnect:
  assumes "triple (in_mode c ct) run (\<lambda>_. in_mode c ct) (\<lambda>_. in_mode c ct)"
    and "\<And>resp. turn_ok c ct (answer resp)"
  shows "turn_ok c ct (run_with_reconnect env cfg what run answer)"
  unfolding run_with_reconnect_def
proof (rule triple_match [OF assms(1) assms(2)], goal_cases)
  case (1 e)
  have "turn_ok c ct (match_async run answer
      (\<lambda>retry_err. answer (resp_error (what @ '' failed after reconnect: '' @ err_chain retry_err))))"
    by (rule triple_match [OF assms(1) assms(2) assms(2)]) auto
  then show ?case
    using assms(2) by (auto intro!: triple_match [OF in_mode_reconnect [OF logs_notifiers(2)]] turn_bind)
qed auto

section \<open>Every arm keeps the invariant\<close>

lemma triple_run: "(\<And>n. triple P (f n) Q E) \<Longrightarrow> triple P (\<lambda>dl w. f (g w) dl w) Q E"
  by (auto simp: triple_def)

lemma on_stream_parts:
  fixes w w' :: dstate
  assumes "on_stream m dl w = (r, w')"
  shows "d_session w' = d_session w" "d_conn_type w' = d_conn_type w" "stream_key w' = stream_key w"
  using keepsD [OF daemon_part_kept(2) assms] keepsD [OF daemon_part_kept(3) assms] by (simp_all add: daemon_part_def)

text \<open>On a terminal connection any operation on the stream may set the service.\<close>

lemma terminal_mode_stream:
  "triple (in_mode c TerminalConn) (on_stream m) (\<lambda>_. in_mode c TerminalConn) (\<lambda>_. in_mode c TerminalConn)"
proof (rule triple_keeps)
  show "keeps (\<lambda>w :: dstate. (d_session w, d_conn_type w, stream_key w)) (on_stream m)"
    by (rule keepsI) (auto dest: on_stream_parts)
  show "depends_on (\<lambda>w. (d_session w, d_conn_type w, stream_key w)) (in_mode c TerminalConn)"
    by (auto simp: depends_on_def in_mode_def daemon_inv_def)
qed

lemma turn_shell_arm: "turn_ok c TerminalConn (shell_arm env cfg evs)"
  unfolding shell_arm_def by (rule triple_match [OF terminal_mode_stream]) auto

lemma turn_exec_arm: "turn_ok c TerminalConn (exec_arm env cfg command tmo)"
  unfolding exec_arm_def
  by (rule turn_run_with_reconnect [OF triple_run [where g = "\<lambda>w. de_nanos env (clock w)"]]) (auto intro: terminal_mode_stream)

lemma keeps_run: "(\<And>w. keeps f (m w)) \<Longrightarrow> keeps f (\<lambda>dl w. m w dl w)"
  by (simp add: keeps_def)

lemma turn_push_arm: "turn_ok c ct (push_arm env cfg local_path remote_path)"
  unfolding push_arm_def
proof (rule turn_run_with_reconnect [OF triple_keeps [of inv_part]])
  show "keeps inv_part (\<lambda>dl w. on_stream (push_file_command (de_ext env) (de_ser env) (de_fs env)
      (de_nanos env (clock w)) (de_reads env (clock w)) local_path remote_path) dl w)"
    by (rule keeps_run) auto
qed auto

lemma dispatch_connected:
  assumes "state s = Connected" and "cmd \<noteq> Disconnect"
  shows "snd (dispatch cmd s) = s"
proof (cases "changes_session cmd")
  case True
  with assms show ?thesis by (cases cmd) (simp_all add: dispatch_def dispatch_connect_def)
qed (rule dispatch_keeps_session)

lemma dispatch_session_connected:
  assumes "in_mode c ct w" and "cmd \<noteq> Disconnect" and "dispatch_session cmd dl w = (r, w')"
  shows "w' = w"
proof -
  have "snd (dispatch cmd (d_session w)) = d_session w"
    using assms by (intro dispatch_connected) (auto simp: in_mode_def daemon_inv_def)
  then show ?thesis using assms(3)
    by (cases "dispatch cmd (d_session w)") (auto simp: dispatch_session_def split: sum.splits prod.splits)
qed

lemma execute_keeps_mode:
  assumes "cmd \<noteq> Disconnect"
  shows "triple (in_mode c ct) (execute_daemon_command env cmd) (\<lambda>_. in_mode c ct) (\<lambda>_. in_mode c ct)"
proof -
  have keep: "triple (in_mode c ct) m (\<lambda>_. in_mode c ct) (\<lambda>_. in_mode c ct)" if "keeps inv_part m" for m :: "SessionResponse dio"
    using that by (rule triple_keeps) simp
  have disp: "triple (in_mode c ct) (dispatch_session cmd) (\<lambda>_. in_mode c ct) (\<lambda>_. in_mode c ct)"
    by (rule tripleI) (metis dispatch_session_connected assms)+
  have stream: "triple (in_mode c ct) (\<lambda>dl w. on_stream (f (g w)) dl w) (\<lambda>_. in_mode c ct) (\<lambda>_. in_mode c ct)"
    if "\<And>n. keeps active_service_id (f n)" for f :: "nat \<Rightarrow> SessionResponse async" and g
    by (rule triple_run) (auto intro!: keep that)
  have capture: "triple (in_mode c ct) (\<lambda>dl w. bind_async (on_stream (timeout d (request_screenshot x lib p (g w) opts))) (\<lambda>r.
          bind_async (lift_async (case r of None \<Rightarrow> bail ''screenshot request timed out'' | Some b \<Rightarrow> b)) (\<lambda>bs.
          return_async (capture_response_data bs))) dl w) (\<lambda>_. in_mode c ct) (\<lambda>_. in_mode c ct)" for d x lib p g opts
    by (rule triple_run [where g = g], rule keep)
      (auto simp: request_screenshot_def intro!: keeps_bind)
  show ?thesis
    unfolding execute_daemon_command_def
    using disp by (cases cmd) (auto simp: Let_def intro!: stream capture)
qed

lemma execute_disconnect_Ok:
  "in_mode c ct w \<Longrightarrow> execute_daemon_command env Disconnect dl w = (Done (Err e), w') \<Longrightarrow> False"
  by (auto simp: execute_daemon_command_def dispatch_session_def dispatch_def session_simps in_mode_def daemon_inv_def
      Let_def)

lemma turn_other_arm: "turn_ok c ct (other_arm env cfg cmd)"
proof (cases "cmd = Disconnect")
  case False
  then show ?thesis
    unfolding other_arm_def by (auto intro!: turn_run_with_reconnect execute_keeps_mode turn_bind)
next
  case True
  have never: "triple (in_mode c ct) (execute_daemon_command env Disconnect) (\<lambda>_ _. True) (\<lambda>_ _. False)"
    by (rule tripleI) (auto dest: execute_disconnect_Ok)
  have bye: "triple (\<lambda>_. True) (bind_async (reply_line env resp) (\<lambda>_. leave env (Ok ())))
      (\<lambda>go w. go \<longrightarrow> in_mode c ct w) (\<lambda>_ _. True)" for resp
  proof (rule triple_bind [of _ _ "\<lambda>_ _. True"])
    show "triple (\<lambda>_. True) (leave env (Ok ())) (\<lambda>go w. go \<longrightarrow> in_mode c ct w) (\<lambda>_ _. True)"
      by (rule triple_mono [OF triple_leave]) auto
  qed (simp add: triple_def split: sum.splits)
  show ?thesis
    unfolding True other_arm_def run_with_reconnect_def if_P [OF refl]
    by (rule triple_match [OF never bye]) (simp_all add: triple_def)
qed

lemma turn_command_arm: "turn_ok c (conn_type_for_command cmd) (command_arm env cfg evs cmd)"
  unfolding command_arm_def
  by (cases cmd) (simp_all add: conn_type_for_command_def turn_shell_arm turn_exec_arm turn_push_arm turn_other_arm)

lemma switch_mode_inv:
  assumes "desired \<in> {DefaultConn, TerminalConn}"
  shows "triple (daemon_inv c) (switch_mode env cfg desired) (\<lambda>_. in_mode c desired) (\<lambda>_. daemon_inv c)"
proof -
  let ?P = "\<lambda>w. daemon_inv c w \<and> (desired = TerminalConn \<or> active_service_id w = None)"
  have recon: "triple ?P (reconnect_encrypted_stream env cfg desired notify_stderr sid) (\<lambda>_. ?P) (\<lambda>_. ?P)" for sid
    by (rule reconnect_keeps_inv [OF logs_notifiers(1)]) auto
  have clear: "triple (daemon_inv c) (if desired \<noteq> TerminalConn then set_service None else return_async ())
      (\<lambda>_. ?P) (\<lambda>_. daemon_inv c)"
    by (rule tripleI) (auto simp: set_service_def lift_async_def daemon_inv_def split: if_splits)
  have set: "triple ?P (set_conn_type desired) (\<lambda>_. in_mode c desired) (\<lambda>_. daemon_inv c)"
    using assms by (auto simp: triple_def set_conn_type_def in_mode_def daemon_inv_def)
  have "triple ?P (\<lambda>dl w. bind_async (reconnect_encrypted_stream env cfg desired notify_stderr (active_service_id w))
      (\<lambda>_. set_conn_type desired) dl w) (\<lambda>_. in_mode c desired) (\<lambda>_. daemon_inv c)"
    by (rule triple_run, rule triple_bind [OF triple_mono [OF recon]]) (use set in auto)
  from triple_bind [OF clear this] show ?thesis
    by (auto simp: triple_def switch_mode_def in_mode_def)
qed

lemma turn_handle_line:
  "triple (daemon_inv c) (handle_line env cfg evs line) (\<lambda>go w. go \<longrightarrow> daemon_inv c w) (\<lambda>_ _. True)"
proof -
  have "keeps inv_part (answer_and_go env resp)" for resp
    unfolding answer_and_go_def by (auto intro!: keeps_bind)
  note this [THEN triple_keeps, OF depends_inv(1) [of c]]
  then have ans: "triple (daemon_inv c) (answer_and_go env resp) (\<lambda>go w. go \<longrightarrow> daemon_inv c w) (\<lambda>_ _. True)" for resp
    by (rule triple_mono) auto
  show ?thesis
  proof (cases "parse_cmd env (trim line)")
    case (Inl e)
    show ?thesis unfolding handle_line_def Inl sum.case by (rule ans)
  next
    case (Inr cmd)
    have "conn_type_for_command cmd \<in> {DefaultConn, TerminalConn}"
      by (cases cmd) (simp_all add: conn_type_for_command_def)
    moreover have "triple (in_mode c (conn_type_for_command cmd)) (command_arm env cfg evs cmd)
        (\<lambda>go w. go \<longrightarrow> daemon_inv c w) (\<lambda>_ _. True)"
      by (rule triple_mono [OF turn_command_arm [of c]]) (simp_all add: in_mode_def)
    ultimately show ?thesis
      unfolding handle_line_def Inr sum.case by (intro triple_match [OF switch_mode_inv _ ans]) simp_all
  qed
qed

lemma daemon_inv_modes: "daemon_inv c w \<longleftrightarrow> (\<exists>ct. in_mode c ct w)"
  by (auto simp: in_mode_def)

lemma turn_any_mode:
  assumes "\<And>ct. turn_ok c ct m"
  shows "triple (daemon_inv c) m (\<lambda>go w. go \<longrightarrow> daemon_inv c w) (\<lambda>_ _. True)"
  using assms by (fastforce simp: triple_def daemon_inv_modes split: sum.splits)

lemma turn_peer: "turn_ok c ct (peer_turn env cfg)"
proof -
  have keep: "triple (in_mode c ct) m (\<lambda>_. in_mode c ct) (\<lambda>_. in_mode c ct)" if "keeps inv_part m" for m :: "'a dio"
    using that by (rule triple_keeps) simp
  have "turn_ok c ct (match_async (on_stream (handle_peer_message (de_ext env) raw))
            (\<lambda>go. if go then return_async True else leave env (Ok ())) (\<lambda>e. return_async True))" for raw
    by (rule triple_match [OF triple_keeps [of inv_part]]) auto
  then show ?thesis
    unfolding peer_turn_def
    by (intro triple_match [OF triple_keeps [of inv_part]]) auto
qed

lemma turn_heartbeat: "turn_ok c ct (heartbeat_turn env cfg idle)"
  unfolding heartbeat_turn_def by (rule triple_match [OF triple_keeps [of inv_part]]) auto

lemma turn_inv:
  "triple (daemon_inv c) (daemon_turn env cfg idle_timeout ev) (\<lambda>go w. go \<longrightarrow> daemon_inv c w) (\<lambda>_ _. True)"
proof (cases ev)
  case (Accepted t line fs evs)
  have step: "triple (daemon_inv c) (bind_async m f) (\<lambda>go w. go \<longrightarrow> daemon_inv c w) (\<lambda>_ _. True)"
    if "keeps inv_part m" "\<And>u. triple (daemon_inv c) (f u) (\<lambda>go w. go \<longrightarrow> daemon_inv c w) (\<lambda>_ _. True)"
    for m :: "unit dio" and f
    by (rule triple_bind [OF triple_mono [OF triple_keeps [OF that(1) depends_inv(1)]] that(2)]) auto
  show ?thesis
    unfolding Accepted daemon_turn_def daemon_event.case
  proof (intro step inv_part_kept)
    have hang: "triple (daemon_inv c) (\<lambda>dl w. (Hang, w)) (\<lambda>go w. go \<longrightarrow> daemon_inv c w) (\<lambda>_ _. True)"
      by (simp add: triple_def)
    show "triple (daemon_inv c) (case line of None \<Rightarrow> (\<lambda>dl w. (Hang, w)) | Some (Inl e) \<Rightarrow> return_async True
        | Some (Inr l) \<Rightarrow> handle_line env cfg evs l) (\<lambda>go w. go \<longrightarrow> daemon_inv c w) (\<lambda>_ _. True)"
      by (auto split: option.split sum.split intro!: hang turn_handle_line triple_lift)
  qed
next
  case IdleTimeout
  have "triple (daemon_inv c) (bind_async (advance_to (n + idle_timeout)) (\<lambda>_. leave env (Ok ())))
      (\<lambda>go w. go \<longrightarrow> daemon_inv c w) (\<lambda>_ _. True)" for n
    by (intro turn_any_mode turn_bind) auto
  then show ?thesis unfolding IdleTimeout daemon_turn_def daemon_event.case by (rule triple_run)
qed (simp_all add: daemon_turn_def turn_any_mode turn_bind turn_peer turn_heartbeat turn_leave inv_part_kept)

section \<open>Starting, and the reachable states\<close>

text \<open>\<^verbatim>\<open>connect_with_timeout\<close>, and what \<^verbatim>\<open>run_daemon\<close> sets up before the loop.\<close>

datatype ConnectWithTimeoutError = ConnectFailed err | TimedOut nat

definition connect_with_timeout ::
  "'img daemon_env \<Rightarrow> PeerConfig \<Rightarrow> nat \<Rightarrow> ConnType \<Rightarrow> (ConnectWithTimeoutError + HbbPeerInfo) dio" where
  "connect_with_timeout env cfg timeout_secs conn_type =
     bind_async (timeout (1000 * timeout_secs) (connect_attempt env cfg conn_type None)) (\<lambda>r.
     case r of
       None \<Rightarrow> return_async (Inl (TimedOut timeout_secs))
     | Some (Inl e) \<Rightarrow> if is_panic e then lift_async (Err e) else return_async (Inl (ConnectFailed e))
     | Some (Inr info) \<Rightarrow> return_async (Inr info))"

definition begin_session :: "ConnectionConfig \<Rightarrow> HbbPeerInfo \<Rightarrow> dstate \<Rightarrow> dstate" where
  "begin_session c info w =
     w\<lparr>d_session := session_new\<lparr>state := Connected, config := Some c, peer_info := Some (peer_info_state info)\<rparr>,
       d_conn_type := DefaultConn, active_service_id := None, d_last_activity := clock w\<rparr>"

inductive daemon_reachable ::
  "'img daemon_env \<Rightarrow> PeerConfig \<Rightarrow> nat \<Rightarrow> nat \<Rightarrow> ConnectionConfig \<Rightarrow> dstate \<Rightarrow> bool"
  for env cfg timeout_secs idle_timeout c where
  start: "connect_with_timeout env cfg timeout_secs DefaultConn None w0 = (Done (Ok (Inr info)), w1) \<Longrightarrow>
     on_stream (initialize_stream_for_mode (de_ext env) DefaultConn) None w1 = (Done (Ok ()), w2) \<Longrightarrow>
     daemon_reachable env cfg timeout_secs idle_timeout c (begin_session c info w2)"
| step: "daemon_reachable env cfg timeout_secs idle_timeout c w \<Longrightarrow>
     daemon_turn env cfg idle_timeout ev None w = (Done (Ok True), w') \<Longrightarrow>
     daemon_reachable env cfg timeout_secs idle_timeout c w'"

lemma timely_connect_attempt [simp, intro]: "timely (connect_attempt env cfg ct sid)"
proof (rule timelyI)
  fix dl r and w w' :: dstate
  assume run: "connect_attempt env cfg ct sid dl w = (r, w')"
  obtain ent bound where d: "de_draw env (d_attempts w) = (ent, bound)" by force
  let ?m = "connect_with_mode (de_conn env) ent bound cfg ct (login_union_for_conn_type ct sid)"
  let ?w = "world.truncate (w\<lparr>d_attempts := Suc (d_attempts w)\<rparr>)"
  obtain v where v: "?m dl ?w = (r, v)" and w': "clock w' = clock v"
    using run d by (auto simp: connect_attempt_def on_world_def split: prod.splits)
  from timelyD [OF timely_connect(3) v] w'
  show "clock w \<le> clock w' \<and> (\<forall>d. dl = Some d \<longrightarrow> clock w \<le> d \<longrightarrow> clock w' \<le> d) \<and> (r = Hang \<longrightarrow> dl = None)"
    by simp
qed

lemma connect_with_timeout_Ok:
  assumes "connect_with_timeout env cfg secs ct dl w = (Done (Ok (Inr info)), w')"
  shows "stream_key w' \<noteq> None"
proof -
  from assms obtain dl' where "connect_attempt env cfg ct None dl' w = (Done (Ok info), w')"
    by (auto simp: connect_with_timeout_def bind_async_def lift_async_def timeout_def Let_def
        split: prod.splits outcome.splits sum.splits option.splits if_splits)
  then show ?thesis by (auto dest: connect_attempt_run(4))
qed

lemma reachable_inv: "daemon_reachable env cfg secs idle c w \<Longrightarrow> daemon_inv c w"
proof (induction rule: daemon_reachable.induct)
  case (start w0 info w1 w2)
  have "stream_key w2 = stream_key w1" using daemon_part_kept(3) start(2) by (rule keepsD)
  with connect_with_timeout_Ok [OF start(1)] show ?case by (simp add: daemon_inv_def begin_session_def)
next
  case (step w ev w')
  with tripleD(1) [OF turn_inv, OF step(3)] show ?case by blast
qed

section \<open>When the daemon stops\<close>

text \<open>The events after which the loop returns \<^verbatim>\<open>Ok(())\<close>.\<close>

definition stops :: "'img daemon_env \<Rightarrow> daemon_event \<Rightarrow> dstate \<Rightarrow> bool" where
  "stops env ev w =
     (case ev of
        IdleTimeout \<Rightarrow> True
      | SignalReceived _ \<Rightarrow> True
      | PeerReady \<Rightarrow>
          (case inbox w of
             (t, Inr raw) # _ \<Rightarrow>
               (case dec_msg (de_ext env) raw of Inr (MMisc (Some (CloseReason _))) \<Rightarrow> True | _ \<Rightarrow> False)
           | _ \<Rightarrow> False)
      | Accepted t (Some (Inr line)) _ _ \<Rightarrow> parse_cmd env (trim line) = Ok Disconnect
      | _ \<Rightarrow> False)"

abbreviation goes_on :: "bool dio \<Rightarrow> bool" where
  "goes_on m \<equiv> triple (\<lambda>_. True) m (\<lambda>go _. go) (\<lambda>_ _. True)"

lemma goes_on_return [simp]: "goes_on (return_async True)"
  by (rule triple_lift) auto

lemma goes_on_bind: "(\<And>v. goes_on (f v)) \<Longrightarrow> goes_on (bind_async m f)"
  by (rule triple_bind [of _ _ "\<lambda>_ _. True"]) (auto simp: triple_def split: sum.splits)

lemma goes_on_match: "(\<And>v. goes_on (ok v)) \<Longrightarrow> (\<And>e. goes_on (bad e)) \<Longrightarrow> goes_on (match_async m ok bad)"
  by (rule triple_match [of _ _ "\<lambda>_ _. True" "\<lambda>_ _. True"]) (auto simp: triple_def split: sum.splits)

lemma goes_on_leave_Err [simp]: "goes_on (leave env (Err e))"
  unfolding leave_def by (rule goes_on_bind) (rule triple_lift; simp)

lemma goes_on_pieces [simp]:
  "goes_on (recover env cfg)" "goes_on (answer_and_go env resp)"
  "goes_on (shell_arm env cfg evs)" "goes_on (push_arm env cfg lp rp)" "goes_on (exec_arm env cfg cm tmo)"
  "goes_on (heartbeat_turn env cfg idle)"
proof -
  show r: "goes_on (recover env cfg)" unfolding recover_def by (auto intro: goes_on_match)
  show a: "goes_on (answer_and_go env resp)" for resp unfolding answer_and_go_def by (auto intro: goes_on_bind)
  show "goes_on (shell_arm env cfg evs)" "goes_on (heartbeat_turn env cfg idle)"
    unfolding shell_arm_def heartbeat_turn_def using r by (auto intro!: goes_on_match)
  show "goes_on (push_arm env cfg lp rp)" "goes_on (exec_arm env cfg cm tmo)"
    unfolding push_arm_def exec_arm_def run_with_reconnect_def using a by (auto intro!: goes_on_match goes_on_bind)
qed

lemma goes_on_other_arm: "cmd \<noteq> Disconnect \<Longrightarrow> goes_on (other_arm env cfg cmd)"
  unfolding other_arm_def run_with_reconnect_def by (auto intro!: goes_on_match goes_on_bind)

lemma goes_on_handle_line: "parse_cmd env (trim line) \<noteq> Ok Disconnect \<Longrightarrow> goes_on (handle_line env cfg evs line)"
  unfolding handle_line_def
  by (auto split: sum.splits intro!: goes_on_match simp: command_arm_def goes_on_other_arm split: SessionCommand.splits)

text \<open>A turn that ends the loop closes the stream.\<close>

abbreviation closes :: "bool dio \<Rightarrow> bool" where
  "closes m \<equiv> triple (\<lambda>_. True) m (\<lambda>go w. go \<or> closed w) (\<lambda>_ _. True)"

lemma goes_on_closes: "goes_on m \<Longrightarrow> closes m"
  by (erule triple_mono) auto

lemma closes_bind: "(\<And>v. closes (f v)) \<Longrightarrow> closes (bind_async m f)"
  by (rule triple_bind [of _ _ "\<lambda>_ _. True"]) (auto simp: triple_def split: sum.splits)

lemma closes_match: "(\<And>v. closes (ok v)) \<Longrightarrow> (\<And>e. closes (bad e)) \<Longrightarrow> closes (match_async m ok bad)"
  by (rule triple_match [of _ _ "\<lambda>_ _. True" "\<lambda>_ _. True"]) (auto simp: triple_def split: sum.splits)

lemma shutdown_closes: "graceful_shutdown x dl n = (Done (Ok u), n') \<Longrightarrow> closed n'"
  by (auto simp: graceful_shutdown_def bind_async_def ctx_async_def stream_close_def
      split: prod.splits outcome.splits sum.splits list.splits option.splits)

lemma closes_leave [simp]: "closes (leave env r)"
  unfolding leave_def
proof (rule triple_bind [of _ _ "\<lambda>_ w. closed w"])
  show "triple (\<lambda>_. True) (on_stream (graceful_shutdown (de_ext env))) (\<lambda>_. closed) (\<lambda>_ _. True)"
    by (rule tripleI) (auto simp: on_stream_def net.defs split: prod.splits dest: shutdown_closes)
qed (auto intro!: triple_lift)

lemma closes_other_arm: "closes (other_arm env cfg cmd)"
proof (cases "cmd = Disconnect")
  case True
  then show ?thesis
    unfolding other_arm_def run_with_reconnect_def
    by (auto intro!: closes_match closes_bind simp: goes_on_closes)
qed (simp add: goes_on_closes goes_on_other_arm)

lemma closes_handle_line: "closes (handle_line env cfg evs line)"
  unfolding handle_line_def
  by (auto split: sum.splits intro!: closes_match simp: command_arm_def closes_other_arm goes_on_closes
      split: SessionCommand.splits)

lemma closes_peer_turn: "closes (peer_turn env cfg)"
  unfolding peer_turn_def by (auto intro!: closes_match simp: goes_on_closes)

lemma closes_turn: "closes (daemon_turn env cfg idle_timeout ev)"
proof (cases ev)
  case (Accepted t line fs evs)
  have "closes (case line of None \<Rightarrow> (\<lambda>dl w. (Hang, w)) | Some (Inl e) \<Rightarrow> return_async True
      | Some (Inr l) \<Rightarrow> handle_line env cfg evs l)"
    by (auto split: option.split sum.split simp: goes_on_closes closes_handle_line) (simp add: triple_def)
  then show ?thesis
    unfolding Accepted daemon_turn_def daemon_event.case by (intro closes_bind)
next
  case IdleTimeout
  have "closes (bind_async (advance_to (n + idle_timeout)) (\<lambda>_. leave env (Ok ())))" for n
    by (intro closes_bind closes_leave)
  then show ?thesis unfolding IdleTimeout daemon_turn_def daemon_event.case by (rule triple_run)
qed (simp_all add: daemon_turn_def closes_bind closes_peer_turn goes_on_closes)

lemma handle_peer_message_False:
  "handle_peer_message x raw dl n = (Done (Ok False), n') \<Longrightarrow> \<exists>r. dec_msg x raw = Ok (MMisc (Some (CloseReason r)))"
  by (cases "dec_msg x raw")
    (auto simp: handle_peer_message_def bind_async_def lift_async_def
      split: message.splits option.splits misc.splits prod.splits outcome.splits sum.splits)

lemma match_async_Ok:
  assumes "match_async m ok bad dl w = (Done (Ok v), w')"
  obtains u w1 where "m dl w = (Done (Ok u), w1)" "ok u dl w1 = (Done (Ok v), w')"
    | e w1 where "m dl w = (Done (Err e), w1)" "bad e dl w1 = (Done (Ok v), w')"
  using assms
  by (auto simp: match_async_def bind_async_def try_async_def lift_async_def
      split: prod.splits outcome.splits sum.splits if_splits)

lemma peer_turn_stops:
  assumes "peer_turn env cfg None w = (Done (Ok False), w')"
  shows "stops env PeerReady w"
proof -
  from assms [unfolded peer_turn_def] show ?thesis
  proof (cases rule: match_async_Ok)
    case (1 raw w1)
    from 1(1) obtain t rest where i: "inbox w = (t, Ok raw) # rest"
      by (auto simp: stream_recv_def Let_def split: list.splits)
    from 1(2) have "raw \<noteq> []" by (auto simp: lift_async_def)
    with 1(2) have "match_async (on_stream (handle_peer_message (de_ext env) raw))
            (\<lambda>go. if go then return_async True else leave env (Ok ())) (\<lambda>e. return_async True) None w1 =
            (Done (Ok False), w')" by simp
    then obtain n where "handle_peer_message (de_ext env) raw None (net.truncate w1) = (Done (Ok False), n)"
      by (cases rule: match_async_Ok) (auto simp: lift_async_def on_stream_def split: prod.splits if_splits)
    with i show ?thesis by (auto simp: stops_def dest!: handle_peer_message_False)
  next
    case (2 e w1)
    with tripleD(1) [OF goes_on_pieces(1)] show ?thesis by blast
  qed
qed

lemma turn_stops:
  assumes "daemon_turn env cfg idle_timeout ev None w = (Done (Ok False), w')"
  shows "stops env ev w"
proof (rule ccontr)
  assume n: "\<not> stops env ev w"
  have "goes_on (daemon_turn env cfg idle_timeout ev)" if "ev \<noteq> PeerReady"
  proof (cases ev)
    case (Accepted t line fs evs)
    have "goes_on (case line of None \<Rightarrow> (\<lambda>dl w. (Hang, w)) | Some (Inl e) \<Rightarrow> return_async True
        | Some (Inr l) \<Rightarrow> handle_line env cfg evs l)"
      using n Accepted
      by (auto simp: stops_def goes_on_handle_line split: option.splits sum.splits) (simp add: triple_def)
    then show ?thesis unfolding Accepted daemon_turn_def daemon_event.case by (intro goes_on_bind)
  qed (use n that in \<open>simp_all add: daemon_turn_def stops_def goes_on_bind\<close>)
  with tripleD(1) [OF this _ assms] have "ev = PeerReady" by blast
  with assms n peer_turn_stops show False by (auto simp: daemon_turn_def)
qed

section \<open>Commands that only talk to the session\<close>

text \<open>The commands that are answered by \<^verbatim>\<open>Session::dispatch\<close> alone.\<close>

fun session_only :: "SessionCommand \<Rightarrow> bool" where
  "session_only (Connect _ _ _) = True"
| "session_only (Type _) = True"
| "session_only (Key _) = True"
| "session_only (Click _ _ _ _) = True"
| "session_only (Drag _ _ _ _ _) = True"
| "session_only (Scroll _ _ _) = True"
| "session_only (Move _ _) = True"
| "session_only Status = True"
| "session_only Displays = True"
| "session_only _ = False"

lemma session_only_arm:
  "session_only cmd \<Longrightarrow> command_arm env cfg evs cmd = other_arm env cfg cmd \<and> cmd \<noteq> Disconnect \<and>
     conn_type_for_command cmd = DefaultConn \<and> execute_daemon_command env cmd = dispatch_session cmd"
  by (cases cmd) (auto simp: command_arm_def conn_type_for_command_def execute_daemon_command_def fun_eq_iff)

lemma dispatch_connected_Ok:
  "state s = Connected \<Longrightarrow> \<exists>resp ms. fst (dispatch cmd s) = Ok (resp, ms)"
  by (cases cmd) (auto simp: dispatch_def reply_arm_defs session_simps dispatch_connect_def dispatch_status_def
      dispatch_displays_def bind_op_def Let_def)

section \<open>Without a network\<close>

text \<open>No UDP socket can be bound: every attempt to connect fails at once.\<close>

definition offline :: "'img daemon_env \<Rightarrow> string \<Rightarrow> bool" where
  "offline env m \<longleftrightarrow> (\<forall>n. snd (de_draw env n) = Err [m]) \<and> \<not> starts_with m ''panic: ''"

lemma offline_attempt:
  assumes "offline env m"
  shows "connect_attempt env cfg ct sid None w =
     (Done (Err [''failed to connect to rendezvous server'', m]), w\<lparr>d_attempts := Suc (d_attempts w)\<rparr>)"
proof -
  have "snd (de_draw env (d_attempts w)) = Err [m]" using assms by (simp add: offline_def)
  then obtain ent where d: "de_draw env (d_attempts w) = (ent, Err [m])" by (cases "de_draw env (d_attempts w)") auto
  have "connect_with_mode (de_conn env) ent (Err [m]) cfg ct lu None v =
      (Done (Err [''failed to connect to rendezvous server'', m]), v)" for lu v
    by (simp add: connect_with_mode_def bind_async_def lift_async_def with_ctx_def)
  moreover have "world.extend (world.truncate v) (world.more v) = v" for v :: dstate
    by (cases v) (simp add: world.defs)
  ultimately show ?thesis by (simp add: connect_attempt_def d on_world_def)
qed

lemma offline_retry:
  assumes "offline env m"
  shows "bs \<noteq> [] \<or> le = Some [''failed to connect to rendezvous server'', m] \<Longrightarrow>
    \<exists>w'. retry_loop (\<lambda>_. connect_attempt env cfg ct sid) notify_stderr n a le bs None w =
      (Done (Err [''failed to connect to rendezvous server'', m]), w') \<and>
      d_attempts w' = d_attempts w + length bs \<and> clock w' = clock w + sum_list bs"
proof (induction bs arbitrary: a le w)
  case Nil
  then show ?case by (simp add: lift_async_def)
next
  case (Cons b bs)
  let ?e = "[''failed to connect to rendezvous server'', m]"
  let ?w = "w\<lparr>d_log := d_log w @ [reconnecting_response a n b], clock := clock w + b, d_attempts := Suc (d_attempts w)\<rparr>"
  have "\<not> is_panic ?e" using assms by (simp add: offline_def is_panic_def)
  moreover obtain w' where "retry_loop (\<lambda>_. connect_attempt env cfg ct sid) notify_stderr n (a + 1) (Some ?e) bs None ?w =
      (Done (Err ?e), w')" "d_attempts w' = Suc (d_attempts w) + length bs" "clock w' = clock w + b + sum_list bs"
    using Cons.IH [of "Some ?e" "a + 1" ?w] by auto
  moreover have "notify_stderr resp None v = (Done (Ok ()), v\<lparr>d_log := d_log v @ [resp]\<rparr>)" for resp v
    by (simp add: notify_stderr_def)
  ultimately show ?case
    by (simp add: bind_async_def sleep_def try_async_def offline_attempt [OF assms])
qed

lemma offline_reconnect:
  assumes "offline env m"
  shows "\<exists>w'. reconnect_encrypted_stream env cfg ct notify_stderr sid None w =
     (Done (Err [''failed to connect to rendezvous server'', m]), w') \<and>
     d_attempts w' = d_attempts w + 6 \<and> clock w' = clock w + 61000"
proof -
  obtain w' where w': "reconnect_with_retry (\<lambda>_. connect_attempt env cfg ct sid) notify_stderr None w =
      (Done (Err [''failed to connect to rendezvous server'', m]), w')"
      "d_attempts w' = d_attempts w + 6" "clock w' = clock w + 61000"
    using offline_retry [OF assms, of RECONNECT_BACKOFFS None cfg ct sid "length RECONNECT_BACKOFFS" 1 w]
    by (auto simp: reconnect_with_retry_def reconnect_with_retry_backoffs_def RECONNECT_BACKOFFS_def)
  then show ?thesis by (simp add: reconnect_encrypted_stream_def keep_stream_def bind_async_def)
qed

section \<open>A daemon that starts\<close>

definition demo_denv :: "bytes daemon_env" where
  "demo_denv = \<lparr>de_conn = peer_env, de_ser = (\<lambda>_. [123, 125]), de_draw = (\<lambda>n. (demo_entropy, Ok ())), de_nanos = (\<lambda>t. t),
     de_fs = demo_fs, de_reads = (\<lambda>_. []), de_images = demo_lib,
     parse_cmd = (\<lambda>s. Ok (Move 1 2))\<rparr>"

definition demo_dstate :: dstate where
  "demo_dstate = world.extend (world_start [(3, Ok [5])] relay_dials) (dstate.fields session_new DefaultConn 0 0 [])"

definition demo_peer :: ConnectionConfig where
  "demo_peer = \<lparr>peer_id = ''1'', password = Some ''pw'', server = None\<rparr>"

lemma demo_daemon_starts: "\<exists>w. daemon_reachable demo_denv demo_config 30 300000 demo_peer w \<and> d_conn_type w = DefaultConn"
proof -
  obtain v where v: "connect_with_mode peer_env demo_entropy (Ok ()) demo_config DefaultConn None (Some 30000)
      (world_start [(3, Ok [5])] relay_dials) = (Done (Ok demo_peer_info), v)" "faults v = []"
    using demo_connect by blast
  define w1 where "w1 = world.extend v (dstate.fields session_new DefaultConn 0 (Suc 0) [])"
  have start: "world.truncate (demo_dstate\<lparr>d_attempts := Suc 0\<rparr>) = world_start [(3, Ok [5])] relay_dials"
    "world.more (demo_dstate\<lparr>d_attempts := Suc 0\<rparr>) = dstate.fields session_new DefaultConn 0 (Suc 0) []"
    "d_attempts demo_dstate = 0" "clock demo_dstate = 0"
    by (simp_all add: demo_dstate_def world_start_def world.defs dstate.defs)
  have "connect_attempt demo_denv demo_config DefaultConn None (Some 30000) demo_dstate = (Done (Ok demo_peer_info), w1)"
    by (simp add: connect_attempt_def demo_denv_def on_world_def start v login_union_for_conn_type_def w1_def)
  then have con: "connect_with_timeout demo_denv demo_config 30 DefaultConn None demo_dstate = (Done (Ok (Inr demo_peer_info)), w1)"
    by (simp add: connect_with_timeout_def bind_async_def timeout_def start lift_async_def)
  have "faults w1 = []" using v by (simp add: w1_def world.defs)
  then obtain w2 where "on_stream (initialize_stream_for_mode (de_ext demo_denv) DefaultConn) None w1 = (Done (Ok ()), w2)"
    by (simp add: on_stream_def initialize_stream_for_mode_def send_option_message_def send_session_init_def
        send_message_def stream_send_def bind_async_def ctx_async_def lift_async_def net.defs split: prod.splits)
  from daemon_reachable.start [OF con this] show ?thesis
    by (intro exI [of _ "begin_session demo_peer demo_peer_info w2"]) (simp add: begin_session_def)
qed

section \<open>Properties\<close>

text \<open>The session in a state of the daemon is one of those the theory Session is about.\<close>

lemma daemon_session_reachable:
  assumes "daemon_inv c w"
  shows "session_reachable (d_session w)"
proof -
  from assms obtain i where "d_session w = session_new\<lparr>state := Connected, config := Some c, peer_info := Some i\<rparr>"
    by (cases "d_session w") (auto simp: daemon_inv_def session_new_def)
  then show ?thesis using session_reachable.begun by simp
qed

text \<open>
  C3. The states of the daemon. In every state the event loop can reach, the session is connected to the peer the
  daemon was started for and knows its peer, the stream in use is encrypted, the connection has one of the two types
  the daemon uses, and a terminal service is remembered only on a terminal connection.
\<close>

theorem daemon_invariant:
  "daemon_reachable env cfg secs idle c w \<Longrightarrow> daemon_inv c w"
  by (rule reachable_inv)

theorem daemon_invariant_witness:
  "\<exists>w. daemon_reachable demo_denv demo_config 30 300000 demo_peer w \<and> daemon_inv demo_peer w"
proof -
  obtain w where w: "daemon_reachable demo_denv demo_config 30 300000 demo_peer w" using demo_daemon_starts by blast
  from daemon_invariant [OF this] w show ?thesis by blast
qed

text \<open>
  C8. Stopping. The event loop returns normally only when the idle time is over, on a signal, when the peer sends a
  close reason, or after a disconnect command, and then the stream has been closed.
\<close>

theorem daemon_stops:
  "case daemon_turn env cfg idle_timeout ev None w of
     (Done (Inr False), w') \<Rightarrow> stops env ev w \<and> closed w'
   | _ \<Rightarrow> True"
  using turn_stops [of env cfg idle_timeout ev w] tripleD(1) [OF closes_turn [of env cfg idle_timeout ev] TrueI]
  by (fastforce split: prod.splits outcome.splits sum.splits bool.splits)

text \<open>
  Input commands do not reach the peer. On a default connection, a command for the keyboard or the mouse (as well
  as status, displays and connect) is answered with the answer of the session, and that is all: nothing is sent to the
  peer, and the session, the connection and the stream stay as they are. Only the time of the last activity changes.
\<close>

theorem input_commands_stay_local:
  assumes "daemon_inv c w" and "d_conn_type w = DefaultConn" and "parse_cmd env (trim line) = Ok cmd"
    and "session_only cmd"
  shows "\<exists>resp ms. dispatch cmd (d_session w) = (Ok (resp, ms), d_session w) \<and>
     daemon_turn env cfg idle_timeout (Accepted t (Some (Ok line)) [] evs) None w =
       (Done (Ok True), w\<lparr>clock := max t (clock w), d_last_activity := max t (clock w), uds_faults := [],
          uds_out := uds_out w @ [de_ser env resp @ [10]]\<rparr>)"
proof -
  let ?w = "w\<lparr>clock := max t (clock w), d_last_activity := max t (clock w), uds_faults := []\<rparr>"
  have st: "state (d_session w) = Connected" using assms(1) by (simp add: daemon_inv_def)
  note only = session_only_arm [OF assms(4), of env cfg evs, THEN conjunct1]
    session_only_arm [OF assms(4), of env cfg evs, THEN conjunct2]
  obtain resp ms where d: "dispatch cmd (d_session w) = (Ok (resp, ms), d_session w)"
    using dispatch_connected_Ok [OF st, of cmd] dispatch_connected [OF st, of cmd] only
    by (cases "dispatch cmd (d_session w)") auto
  have run: "execute_daemon_command env cmd None ?w = (Done (Ok resp), ?w)"
    using only d by (simp add: dispatch_session_def)
  have reply: "reply_line env resp None ?w = (Done (Ok ()), ?w\<lparr>uds_out := uds_out w @ [de_ser env resp @ [10]]\<rparr>)"
    by (simp add: reply_line_def ignore_async_def bind_async_def try_async_def on_stream_def send_response_def
        uds_write_def lift_async_def) (cases w; simp add: net.defs)
  have "other_arm env cfg cmd None ?w = (Done (Ok True), ?w\<lparr>uds_out := uds_out w @ [de_ser env resp @ [10]]\<rparr>)"
    using run reply only
    by (simp add: other_arm_def run_with_reconnect_def match_async_def bind_async_def try_async_def lift_async_def)
  then have "daemon_turn env cfg idle_timeout (Accepted t (Some (Ok line)) [] evs) None w =
      (Done (Ok True), ?w\<lparr>uds_out := uds_out w @ [de_ser env resp @ [10]]\<rparr>)"
    using only assms(2,3)
    by (simp add: daemon_turn_def handle_line_def match_async_def bind_async_def try_async_def lift_async_def
        switch_mode_def advance_to_def set_activity_def set_writer_def)
  with d show ?thesis by simp
qed

theorem input_commands_stay_local_witness:
  "\<exists>w resp ms. daemon_reachable demo_denv demo_config 30 300000 demo_peer w \<and>
     dispatch (Move 1 2) (d_session w) = (Ok (resp, ms), d_session w) \<and>
     daemon_turn demo_denv demo_config 300000 (Accepted 9000 (Some (Ok ''m'')) [] []) None w =
       (Done (Ok True), w\<lparr>clock := max 9000 (clock w), d_last_activity := max 9000 (clock w), uds_faults := [],
          uds_out := uds_out w @ [[123, 125, 10]]\<rparr>)"
proof -
  obtain w where w: "daemon_reachable demo_denv demo_config 30 300000 demo_peer w" "d_conn_type w = DefaultConn"
    using demo_daemon_starts by blast
  have line: "parse_cmd demo_denv (trim ''m'') = Ok (Move 1 2)"
    by (simp add: demo_denv_def)
  have "de_ser demo_denv r = [123, 125]" for r by (simp add: demo_denv_def)
  with input_commands_stay_local [OF reachable_inv [OF w(1)] w(2) line, of demo_config 300000 9000 "[]"] w(1)
  show ?thesis by auto
qed

text \<open>
  Disconnecting after a terminal command needs a new connection. When the last command was an exec or a shell,
  a disconnect command first makes the daemon open a default connection. Without a network this takes 61 seconds,
  the command is answered with an error, and the daemon goes on running with the old stream still open.
\<close>

theorem disconnect_after_terminal:
  assumes "daemon_inv c w" and "d_conn_type w = TerminalConn" and "parse_cmd env (trim line) = Ok Disconnect"
    and "offline env m"
  shows "\<exists>w'. daemon_turn env cfg idle_timeout (Accepted t (Some (Ok line)) [] evs) None w = (Done (Ok True), w') \<and>
     clock w' = max t (clock w) + 61000 \<and> d_session w' = d_session w \<and> stream_part w' = stream_part w \<and>
     d_conn_type w' = TerminalConn \<and>
     uds_out w' = uds_out w @
       [de_ser env (resp_error (err_chain [''failed to connect to rendezvous server'', m])) @ [10]]"
proof -
  let ?e = "[''failed to connect to rendezvous server'', m]"
  let ?w = "w\<lparr>clock := max t (clock w), d_last_activity := max t (clock w), uds_faults := [], active_service_id := None\<rparr>"
  obtain w1 where w1: "reconnect_encrypted_stream env cfg DefaultConn notify_stderr None None ?w = (Done (Err ?e), w1)"
    "clock w1 = max t (clock w) + 61000"
    using offline_reconnect [OF assms(4), of cfg DefaultConn None ?w] by auto
  have kept: "d_session w1 = d_session w" "stream_part w1 = stream_part w" "d_conn_type w1 = TerminalConn"
    "uds_out w1 = uds_out w" "uds_faults w1 = []"
    using reconnect_run [OF logs_notifiers(1) w1(1)] assms(2) by (auto simp: stream_part_def local_part_def)
  have "\<not> is_panic ?e" using assms(4) by (simp add: offline_def is_panic_def)
  then have "daemon_turn env cfg idle_timeout (Accepted t (Some (Ok line)) [] evs) None w =
      answer_and_go env (resp_error (err_chain ?e)) None w1"
    using assms(2,3) w1
    by (simp add: daemon_turn_def handle_line_def match_async_def bind_async_def try_async_def lift_async_def
        switch_mode_def advance_to_def set_activity_def set_writer_def set_service_def conn_type_for_command_def)
  also have "\<dots> = (Done (Ok True), w1\<lparr>uds_out := uds_out w @ [de_ser env (resp_error (err_chain ?e)) @ [10]]\<rparr>)"
    using kept by (simp add: answer_and_go_def reply_line_def ignore_async_def bind_async_def try_async_def on_stream_def
        send_response_def uds_write_def lift_async_def) (cases w1; simp add: net.defs)
  finally show ?thesis using kept w1(2) by (simp add: stream_part_def)
qed

theorem disconnect_after_terminal_witness:
  "\<exists>w w'. daemon_inv demo_peer w \<and> daemon_turn (demo_denv\<lparr>de_draw := \<lambda>n. (demo_entropy, Err [''no network'']),
       parse_cmd := \<lambda>s. Ok Disconnect\<rparr>) demo_config 300000 (Accepted 9000 (Some (Ok ''d'')) [] []) None w =
       (Done (Ok True), w') \<and> clock w' = 70000"
proof -
  let ?env = "demo_denv\<lparr>de_draw := \<lambda>n. (demo_entropy, Err [''no network'']), parse_cmd := \<lambda>s. Ok Disconnect\<rparr>"
  let ?w = "begin_session demo_peer demo_peer_info (demo_dstate\<lparr>stream_key := Some [7]\<rparr>)\<lparr>d_conn_type := TerminalConn\<rparr>"
  have inv: "daemon_inv demo_peer ?w" "d_conn_type ?w = TerminalConn" "clock ?w = 0"
    by (simp_all add: daemon_inv_def begin_session_def demo_dstate_def world_start_def world.defs dstate.defs)
  have off: "offline ?env ''no network''" by (simp add: offline_def starts_with_def)
  have "parse_cmd ?env (trim ''d'') = Ok Disconnect" by simp
  from disconnect_after_terminal [OF inv(1,2) this off, of demo_config 300000 9000 "[]"] inv(1,3)
  show ?thesis by auto
qed

text \<open>
  Starting ends. Whatever the servers and the peer do, the daemon's first connection attempt ends within the
  connection timeout, with a connection, an error, or the message that the time is over.
\<close>

theorem startup_bounded:
  "\<exists>r w'. connect_with_timeout env cfg timeout_secs ct None w = (Done r, w') \<and>
     clock w \<le> clock w' \<and> clock w' \<le> clock w + 1000 * timeout_secs"
proof -
  obtain r w' where r: "timeout (1000 * timeout_secs) (connect_attempt env cfg ct None) None w = (Done (Ok r), w')"
    "clock w \<le> clock w'" "clock w' \<le> clock w + 1000 * timeout_secs"
    using timeout_ends [OF timely_connect_attempt] by blast
  then show ?thesis
    by (cases r) (auto simp: connect_with_timeout_def bind_async_def lift_async_def split: sum.splits)
qed

end
