(* ===== verification/Responses.thy ===== *)
theory Responses
  imports Session
begin

text \<open>
  The responses of the command line program, \<^verbatim>\<open>src/main.rs\<close>: the value types of the
  arguments, the functions that build the text and the JSON of each command's answer, and how
  an answer is printed. \<open>render\<close> stands for \<^verbatim>\<open>serde_json\<close>'s rendering of a value.
\<close>

section \<open>Exit codes and defaults\<close>

definition EXIT_SUCCESS :: i32 where "EXIT_SUCCESS = 0"
definition EXIT_CONNECTION :: i32 where "EXIT_CONNECTION = 1"
definition EXIT_SESSION :: i32 where "EXIT_SESSION = 2"
definition EXIT_INPUT :: i32 where "EXIT_INPUT = 3"
definition EXIT_PERMISSION :: i32 where "EXIT_PERMISSION = 4"

definition DEFAULT_WIDTH :: i32 where "DEFAULT_WIDTH = 1920"
definition DEFAULT_HEIGHT :: i32 where "DEFAULT_HEIGHT = 1080"

lemmas exit_defs =
  EXIT_SUCCESS_def EXIT_CONNECTION_def EXIT_SESSION_def EXIT_INPUT_def EXIT_PERMISSION_def

section \<open>Value types\<close>

datatype CaptureFormat = Png | Jpg

fun format_as_str :: "CaptureFormat \<Rightarrow> string" where
  "format_as_str Png = ''png''"
| "format_as_str Jpg = ''jpg''"

datatype Modifier = Ctrl | Shift | Alt | Meta

fun modifier_as_str :: "Modifier \<Rightarrow> string" where
  "modifier_as_str Ctrl = ''ctrl''"
| "modifier_as_str Shift = ''shift''"
| "modifier_as_str Alt = ''alt''"
| "modifier_as_str Meta = ''meta''"

datatype MouseButton = Left | Right | Middle

fun button_as_str :: "MouseButton \<Rightarrow> string" where
  "button_as_str Left = ''left''"
| "button_as_str Right = ''right''"
| "button_as_str Middle = ''middle''"

record Region =
  reg_x :: i32
  reg_y :: i32
  reg_w :: i32
  reg_h :: i32

definition region_to_json :: "Region \<Rightarrow> json" where
  "region_to_json r = JObj [(''x'', json_i32 (reg_x r)), (''y'', json_i32 (reg_y r)),
     (''w'', json_i32 (reg_w r)), (''h'', json_i32 (reg_h r))]"

definition region_as_text :: "Region \<Rightarrow> string" where
  "region_as_text r = show_i32 (reg_x r) @ '','' @ show_i32 (reg_y r) @ '','' @
     show_i32 (reg_w r) @ '','' @ show_i32 (reg_h r)"

text \<open>\<^verbatim>\<open>as u32\<close> keeps the 32 bits.\<close>

definition to_capture_region :: "Region \<Rightarrow> CaptureRegion" where
  "to_capture_region r = \<lparr>r_x = reg_x r, r_y = reg_y r, r_w = reg_w r, r_h = reg_h r\<rparr>"

definition region_from_str :: "string \<Rightarrow> Region result" where
  "region_from_str value =
     (case split_char CHR '','' value of
        [p0, p1, p2, p3] \<Rightarrow>
          bind_result (ok_or ''invalid region x coordinate'' (parse_i32 p0)) (\<lambda>x.
          bind_result (ok_or ''invalid region y coordinate'' (parse_i32 p1)) (\<lambda>y.
          bind_result (ok_or ''invalid region width'' (parse_i32 p2)) (\<lambda>w.
          bind_result (ok_or ''invalid region height'' (parse_i32 p3)) (\<lambda>h.
          if sint w \<le> 0 \<or> sint h \<le> 0 then bail ''region width and height must be positive''
          else Ok \<lparr>reg_x = x, reg_y = y, reg_w = w, reg_h = h\<rparr>))))
      | _ \<Rightarrow> bail ''region must be in x,y,w,h format'')"

record Response =
  resp_text :: string
  resp_json :: json
  resp_exit :: i32

record BatchResponse =
  lines :: "string list"
  batch_json :: json
  batch_exit_code :: i32

section \<open>Printing\<close>

datatype line = Stdout string | Stderr string

definition emit_response :: "(json \<Rightarrow> string) \<Rightarrow> bool \<Rightarrow> Response \<Rightarrow> line list \<times> i32" where
  "emit_response render json_mode response =
     (let is_error = (resp_exit response \<noteq> EXIT_SUCCESS) in
      (if json_mode then [Stdout (render (resp_json response))]
       else if resp_text response \<noteq> [] then
         (if is_error then [Stderr (resp_text response)] else [Stdout (resp_text response)])
       else [],
       resp_exit response))"

definition emit_batch_response :: "(json \<Rightarrow> string) \<Rightarrow> bool \<Rightarrow> BatchResponse \<Rightarrow> line list \<times> i32" where
  "emit_batch_response render json_mode response =
     (let is_error = (batch_exit_code response \<noteq> EXIT_SUCCESS) in
      (if json_mode then [Stdout (render (batch_json response))]
       else map (if is_error then Stderr else Stdout) (lines response),
       batch_exit_code response))"

section \<open>Responses\<close>

definition ok_response :: "string \<Rightarrow> string \<Rightarrow> (string \<times> json) list \<Rightarrow> Response" where
  "ok_response t command members =
     \<lparr>resp_text = t, resp_json = JObj ([(''ok'', JBool True), (''command'', JStr command)] @ members),
      resp_exit = EXIT_SUCCESS\<rparr>"

definition error_response :: "string \<Rightarrow> string \<Rightarrow> string \<Rightarrow> i32 \<Rightarrow> Response" where
  "error_response command ecode msg ec =
     \<lparr>resp_text = ecode @ '': '' @ msg,
      resp_json = JObj [(''ok'', JBool False), (''command'', JStr command),
        (''error'', JObj [(''code'', JStr ecode), (''message'', JStr msg)])],
      resp_exit = ec\<rparr>"

definition size_text :: string where
  "size_text = '' width='' @ show_i32 DEFAULT_WIDTH @ '' height='' @ show_i32 DEFAULT_HEIGHT"

definition connect_response :: "string \<Rightarrow> string option \<Rightarrow> Response" where
  "connect_response pid srv =
     ok_response (''connected id='' @ pid @
         (case srv of Some sv \<Rightarrow> '' server='' @ sv | None \<Rightarrow> []) @ size_text)
       ''connect''
       [(''id'', JStr pid), (''server'', json_option JStr srv), (''connected'', JBool True),
        (''width'', json_i32 DEFAULT_WIDTH), (''height'', json_i32 DEFAULT_HEIGHT)]"

definition disconnect_response :: "bool \<Rightarrow> Response" where
  "disconnect_response was_connected =
     ok_response ''disconnected'' ''disconnect'' [(''was_connected'', JBool was_connected)]"

definition shell_response :: Response where
  "shell_response = ok_response ''shell mode=interactive'' ''shell'' [(''mode'', JStr ''interactive'')]"

definition exec_response :: "string \<Rightarrow> string \<Rightarrow> string \<Rightarrow> i32 \<Rightarrow> Response" where
  "exec_response command stdout stderr ec =
     ok_response (''exec exit_code='' @ show_i32 ec @ '' stdout='' @ stdout) ''exec''
       [(''requested'', JStr command), (''stdout'', JStr stdout), (''stderr'', JStr stderr),
        (''exit_code'', json_i32 ec)]"

definition exec_streaming_response :: "i32 \<Rightarrow> bool \<Rightarrow> Response" where
  "exec_streaming_response ec timed_out =
     ok_response (''exec exit_code='' @ show_i32 ec @ (if timed_out then '' timed_out=true'' else []))
       ''exec'' [(''exit_code'', json_i32 ec), (''timed_out'', JBool timed_out)]"

definition show_u64 :: "u64 \<Rightarrow> string" where
  "show_u64 w = show_nat (unat w)"

definition push_response :: "string \<Rightarrow> string \<Rightarrow> u64 \<Rightarrow> u64 \<Rightarrow> u64 \<Rightarrow> Response" where
  "push_response local_path remote_path sent_bytes total_bytes resumed_bytes =
     ok_response (''push sent_bytes='' @ show_u64 sent_bytes @ '' total_bytes='' @ show_u64 total_bytes @
         '' resumed_bytes='' @ show_u64 resumed_bytes @ '' remote='' @ remote_path)
       ''push''
       [(''local_path'', JStr local_path), (''remote_path'', JStr remote_path),
        (''sent_bytes'', json_unsigned sent_bytes), (''total_bytes'', json_unsigned total_bytes),
        (''resumed_bytes'', json_unsigned resumed_bytes)]"

definition clipboard_get_response :: "string \<Rightarrow> Response" where
  "clipboard_get_response t =
     ok_response (''clipboard text='' @ t) ''clipboard'' [(''action'', JStr ''get''), (''text'', JStr t)]"

definition clipboard_set_response :: "string \<Rightarrow> Response" where
  "clipboard_set_response t =
     (let chars = chars_count t in
      ok_response (''clipboard_set chars='' @ show_nat chars) ''clipboard''
        [(''action'', JStr ''set''), (''chars'', json_nat chars), (''redacted'', JBool True)])"

definition status_response :: Response where
  "status_response = ok_response ''disconnected'' ''status'' [(''connected'', JBool False)]"

definition status_connected_response :: "string \<Rightarrow> Response" where
  "status_connected_response pid =
     ok_response (''connected id='' @ pid @ size_text) ''status''
       [(''connected'', JBool True), (''id'', JStr pid),
        (''width'', json_i32 DEFAULT_WIDTH), (''height'', json_i32 DEFAULT_HEIGHT)]"

definition unwrap_or :: "'a \<Rightarrow> 'a option \<Rightarrow> 'a" where
  "unwrap_or d x = (case x of Some v \<Rightarrow> v | None \<Rightarrow> d)"

definition display_line :: "(json \<Rightarrow> string) \<Rightarrow> json \<Rightarrow> string" where
  "display_line render d =
     ''display '' @ render (json_index d ''idx'') @ '' '' @ render (json_index d ''width'') @ ''x'' @
     render (json_index d ''height'') @ '' at ('' @ render (json_index d ''x'') @ '','' @
     render (json_index d ''y'') @ '') name='' @ unwrap_or [] (as_str (json_index d ''name'')) @
     '' online='' @ show_bool (unwrap_or False (as_bool (json_index d ''online''))) @
     '' cursor_embedded='' @ show_bool (unwrap_or False (as_bool (json_index d ''cursor_embedded'')))"

definition displays_response :: "(json \<Rightarrow> string) \<Rightarrow> json list \<Rightarrow> Response" where
  "displays_response render displays =
     (let text_lines = map (display_line render) displays in
      ok_response (if text_lines = [] then ''no displays'' else join [CHR 0x0A] text_lines)
        ''displays'' [(''displays'', JArr displays)])"

definition fake_capture_bytes :: "CaptureFormat \<Rightarrow> i32 \<Rightarrow> i32 \<Rightarrow> u64" where
  "fake_capture_bytes fmt width height =
     (let pixels = (scast width :: u64) * scast height in
      case fmt of Png \<Rightarrow> pixels div 8 + 8193 | Jpg \<Rightarrow> pixels div 12 + 4821)"

definition capture_response ::
  "string \<Rightarrow> CaptureFormat \<Rightarrow> Region option \<Rightarrow> i32 option \<Rightarrow> u64 \<Rightarrow> Response" where
  "capture_response file fmt region display timeout =
     (let (width, height) = (case region of Some r \<Rightarrow> (reg_w r, reg_h r)
                             | None \<Rightarrow> (DEFAULT_WIDTH, DEFAULT_HEIGHT));
          bytes = fake_capture_bytes fmt width height;
          t = ''captured file='' @ file @ '' format='' @ format_as_str fmt @ '' width='' @
              show_i32 width @ '' height='' @ show_i32 height @ '' bytes='' @ show_u64 bytes;
          t = t @ (case region of Some r \<Rightarrow> '' region='' @ region_as_text r | None \<Rightarrow> []);
          t = t @ (case display of Some d \<Rightarrow> '' display='' @ show_i32 d | None \<Rightarrow> []);
          t = t @ '' timeout='' @ show_u64 timeout;
          common = [(''ok'', JBool True), (''command'', JStr ''capture''), (''file'', JStr file),
             (''format'', JStr (format_as_str fmt)), (''width'', json_i32 width),
             (''height'', json_i32 height), (''bytes'', json_unsigned bytes)];
          j = (case region of Some r \<Rightarrow> JObj (common @ [(''region'', region_to_json r)])
               | None \<Rightarrow> JObj common);
          j = (case display of Some d \<Rightarrow> json_insert ''display'' (json_i32 d) j | None \<Rightarrow> j);
          j = json_insert ''timeout'' (json_unsigned timeout) j in
      \<lparr>resp_text = t, resp_json = j, resp_exit = EXIT_SUCCESS\<rparr>)"

definition capture_result_response ::
  "string option \<Rightarrow> CaptureFormat \<Rightarrow> Region option \<Rightarrow> i32 option \<Rightarrow> u64 \<Rightarrow> nat \<Rightarrow> Response" where
  "capture_result_response file fmt region display timeout bytes =
     (let j = JObj [(''ok'', JBool True), (''command'', JStr ''capture''),
             (''format'', JStr (format_as_str fmt)), (''bytes'', json_nat bytes)];
          j = (case file of Some f \<Rightarrow> json_insert ''file'' (JStr f) j | None \<Rightarrow> j);
          t = (case file of
                 Some f \<Rightarrow> ''captured file='' @ f @ '' format='' @ format_as_str fmt @
                   '' bytes='' @ show_nat bytes
               | None \<Rightarrow> ''captured stdout format='' @ format_as_str fmt @ '' bytes='' @ show_nat bytes);
          j = (case region of Some r \<Rightarrow> json_insert ''region'' (region_to_json r) j | None \<Rightarrow> j);
          j = (case display of Some d \<Rightarrow> json_insert ''display'' (json_i32 d) j | None \<Rightarrow> j);
          j = json_insert ''timeout'' (json_unsigned timeout) j in
      \<lparr>resp_text = t, resp_json = j, resp_exit = EXIT_SUCCESS\<rparr>)"

definition type_response :: "string \<Rightarrow> Response" where
  "type_response t =
     (let chars = chars_count t in
      ok_response (''typed chars='' @ show_nat chars) ''type''
        [(''chars'', json_nat chars), (''redacted'', JBool True)])"

definition key_response :: "string \<Rightarrow> Modifier list \<Rightarrow> Response" where
  "key_response key mods =
     (let names = map modifier_as_str mods in
      ok_response (if names = [] then ''key key='' @ key
          else ''key key='' @ key @ '' modifiers='' @ join '','' names)
        ''key'' [(''key'', JStr key), (''modifiers'', JArr (map JStr names))])"

definition click_response :: "MouseButton \<Rightarrow> i32 \<Rightarrow> i32 \<Rightarrow> bool \<Rightarrow> Response" where
  "click_response button x y dbl =
     ok_response (''clicked button='' @ button_as_str button @ '' x='' @ show_i32 x @ '' y='' @
         show_i32 y @ '' double='' @ show_bool dbl)
       ''click'' [(''button'', JStr (button_as_str button)), (''x'', json_i32 x), (''y'', json_i32 y),
         (''double'', JBool dbl)]"

definition scroll_response :: "i32 \<Rightarrow> i32 \<Rightarrow> i32 \<Rightarrow> Response" where
  "scroll_response x y delta =
     ok_response (''scrolled x='' @ show_i32 x @ '' y='' @ show_i32 y @ '' delta='' @ show_i32 delta)
       ''scroll'' [(''x'', json_i32 x), (''y'', json_i32 y), (''delta'', json_i32 delta)]"

definition move_response :: "i32 \<Rightarrow> i32 \<Rightarrow> Response" where
  "move_response x y =
     ok_response (''moved x='' @ show_i32 x @ '' y='' @ show_i32 y) ''move''
       [(''x'', json_i32 x), (''y'', json_i32 y)]"

definition drag_response :: "i32 \<Rightarrow> i32 \<Rightarrow> i32 \<Rightarrow> i32 \<Rightarrow> Response" where
  "drag_response x1 y1 x2 y2 =
     ok_response (''dragged x1='' @ show_i32 x1 @ '' y1='' @ show_i32 y1 @ '' x2='' @ show_i32 x2 @
         '' y2='' @ show_i32 y2)
       ''drag'' [(''x1'', json_i32 x1), (''y1'', json_i32 y1), (''x2'', json_i32 x2),
         (''y2'', json_i32 y2), (''button'', JStr ''left'')]"

lemma ok_response_simps [simp]:
  "resp_exit (ok_response t c ms) = EXIT_SUCCESS" "resp_text (ok_response t c ms) = t"
  "resp_json (ok_response t c ms) = JObj ([(''ok'', JBool True), (''command'', JStr c)] @ ms)"
  by (simp_all add: ok_response_def)

end
