(* ===== verification/Daemon_Process.thy ===== *)
theory Daemon_Process
  imports Daemon_Loop Responses
begin

text \<open>
  The daemon as a process, \<^verbatim>\<open>src/daemon.rs\<close> and the start of \<^verbatim>\<open>src/main.rs\<close>: the command line it is started with and
  how it is read back, the socket, lock and error files, starting a daemon and waiting for it, \<^verbatim>\<open>run_daemon\<close>
  around the event loop, and sending a command to a running daemon.
\<close>

section \<open>The command line of the daemon\<close>

record daemon_args =
  da_peer_id :: string
  da_password :: "string option"
  da_server :: "string option"
  da_id_server :: "string option"
  da_relay_server :: "string option"
  da_key :: "string option"
  da_connect_timeout :: "u64 option"
  da_timeout :: "u64 option"

definition opt_arg :: "string \<Rightarrow> string option \<Rightarrow> string list" where
  "opt_arg flag v = (case v of Some s \<Rightarrow> [flag, s] | None \<Rightarrow> [])"

text \<open>What \<^verbatim>\<open>spawn_daemon\<close> passes after the name of the program.\<close>

definition spawn_args ::
  "string \<Rightarrow> string option \<Rightarrow> string option \<Rightarrow> string option \<Rightarrow> string option \<Rightarrow> string option \<Rightarrow> u64 option \<Rightarrow> string list" where
  "spawn_args peer pw srv id_srv relay_srv key tmo =
     [''--daemon'', ''--peer-id'', peer] @ opt_arg ''--password'' pw @ opt_arg ''--server'' srv @
     opt_arg ''--id-server'' id_srv @ opt_arg ''--relay-server'' relay_srv @ opt_arg ''--key'' key @
     opt_arg ''--connect-timeout'' (map_option show_u64 tmo)"

text \<open>\<^verbatim>\<open>args.windows(2).find(|w| w[0] == flag)\<close>.\<close>

fun daemon_arg_value :: "string list \<Rightarrow> string \<Rightarrow> string option" where
  "daemon_arg_value (a # b # rest) flag = (if a = flag then Some b else daemon_arg_value (b # rest) flag)"
| "daemon_arg_value _ flag = None"

definition parse_u64_ok :: "string \<Rightarrow> u64 option" where
  "parse_u64_ok s = map_option of_nat (parse_unsigned 64 s)"

text \<open>\<open>None\<close> is the panic \<^verbatim>\<open>--daemon requires --peer-id\<close>.\<close>

definition daemon_mode_args :: "string list \<Rightarrow> daemon_args option" where
  "daemon_mode_args args =
     (case daemon_arg_value args ''--peer-id'' of
        None \<Rightarrow> None
      | Some peer \<Rightarrow> Some
          \<lparr>da_peer_id = peer, da_password = daemon_arg_value args ''--password'',
           da_server = daemon_arg_value args ''--server'', da_id_server = daemon_arg_value args ''--id-server'',
           da_relay_server = daemon_arg_value args ''--relay-server'', da_key = daemon_arg_value args ''--key'',
           da_connect_timeout = Option.bind (daemon_arg_value args ''--connect-timeout'') parse_u64_ok,
           da_timeout = Option.bind (daemon_arg_value args ''--timeout'') parse_u64_ok\<rparr>)"

section \<open>The files of the daemon\<close>

text \<open>The socket with whether somebody listens on it, the contents of the lock file and of the error file.\<close>

record daemon_files =
  f_socket :: "bool option"
  f_lock :: "string option"
  f_error :: "string option"

record LockFile =
  lf_pid :: u32
  lf_socket :: string

datatype daemon_path = SocketPath | LockPath | ErrorPath

definition SOCKET_PATH :: string where "SOCKET_PATH = ''/tmp/rustdesk-cli.sock''"
definition EPERM :: int where "EPERM = 1"

text \<open>
  The machine: \<^verbatim>\<open>kill(pid, 0)\<close> (\<open>None\<close> for success, else the error number), whether removing a file works, how
  writing a file, setting its permissions, finding the path of the executable, binding the socket and installing the
  signal handlers end, reading the lock file, JSON for it, and the id of this process.
\<close>

record proc_env =
  pe_kill :: "i32 \<Rightarrow> int option"
  pe_remove :: "daemon_path \<Rightarrow> bool"
  pe_write :: "daemon_path \<Rightarrow> unit result"
  pe_chmod :: "daemon_path \<Rightarrow> unit result"
  pe_exe :: "unit result"
  pe_bind :: "unit result"
  pe_signals :: "unit result"
  pe_readable :: "daemon_path \<Rightarrow> unit result"
  pe_parse_lock :: "string \<Rightarrow> LockFile result"
  pe_show_lock :: "LockFile \<Rightarrow> string"
  pe_pid :: u32

definition remove_path :: "proc_env \<Rightarrow> daemon_path \<Rightarrow> daemon_files \<Rightarrow> daemon_files" where
  "remove_path pe p f =
     (if pe_remove pe p then
        (case p of SocketPath \<Rightarrow> f\<lparr>f_socket := None\<rparr> | LockPath \<Rightarrow> f\<lparr>f_lock := None\<rparr> | ErrorPath \<Rightarrow> f\<lparr>f_error := None\<rparr>)
      else f)"

text \<open>\<^verbatim>\<open>fs::read_to_string\<close> of a file whose contents are given.\<close>

definition read_to_string :: "proc_env \<Rightarrow> daemon_path \<Rightarrow> string option \<Rightarrow> string result" where
  "read_to_string pe p contents =
     (case contents of
        None \<Rightarrow> Err [''No such file or directory (os error 2)'']
      | Some s \<Rightarrow> bind_result (pe_readable pe p) (\<lambda>_. Ok s))"

definition lock_read :: "proc_env \<Rightarrow> daemon_files \<Rightarrow> LockFile result" where
  "lock_read pe f =
     bind_result (with_ctx ''No active session (lock file not found). Run `rustdesk-cli connect` first.''
       (read_to_string pe LockPath (f_lock f))) (pe_parse_lock pe)"

definition lock_write :: "proc_env \<Rightarrow> string \<Rightarrow> daemon_files \<Rightarrow> unit result \<times> daemon_files" where
  "lock_write pe socket f =
     (case pe_write pe LockPath of
        Inl e \<Rightarrow> (Err e, f)
      | Inr _ \<Rightarrow>
          (pe_chmod pe LockPath, f\<lparr>f_lock := Some (pe_show_lock pe \<lparr>lf_pid = pe_pid pe, lf_socket = socket\<rparr>)\<rparr>))"

definition write_startup_error :: "proc_env \<Rightarrow> string \<Rightarrow> daemon_files \<Rightarrow> daemon_files" where
  "write_startup_error pe msg f = (case pe_write pe ErrorPath of Inl e \<Rightarrow> f | Inr _ \<Rightarrow> f\<lparr>f_error := Some msg\<rparr>)"

definition cleanup :: "proc_env \<Rightarrow> daemon_files \<Rightarrow> daemon_files" where
  "cleanup pe f = remove_path pe LockPath (remove_path pe ErrorPath (remove_path pe SocketPath f))"

definition pid_is_alive :: "proc_env \<Rightarrow> u32 \<Rightarrow> bool" where
  "pid_is_alive pe p =
     (if unat p < 2 ^ 31 then
        let pid_i32 = (ucast p :: i32) in
        if sint pid_i32 \<le> 0 then False
        else (case pe_kill pe pid_i32 of None \<Rightarrow> True | Some errno \<Rightarrow> errno = EPERM)
      else False)"

definition is_socket_alive :: "daemon_files \<Rightarrow> bool" where
  "is_socket_alive f \<longleftrightarrow> f_socket f = Some True"

definition cleanup_stale_daemon_artifacts :: "proc_env \<Rightarrow> daemon_files \<Rightarrow> unit result \<times> daemon_files" where
  "cleanup_stale_daemon_artifacts pe f =
     (let socket_exists = (f_socket f \<noteq> None); lock_exists = (f_lock f \<noteq> None) in
      if \<not> socket_exists \<and> \<not> lock_exists then (Ok (), remove_path pe ErrorPath f)
      else
        let socket_alive = (socket_exists \<and> is_socket_alive f);
            lock_alive =
              (if lock_exists then
                 (case bind_result (read_to_string pe LockPath (f_lock f)) (pe_parse_lock pe) of
                    Inr lock \<Rightarrow> pid_is_alive pe (lf_pid lock) | Inl _ \<Rightarrow> False)
               else False) in
        if socket_alive \<or> lock_alive
        then (bail ''Daemon already running. Disconnect first, or use other commands.'', f)
        else (Ok (), remove_path pe ErrorPath (remove_path pe LockPath (remove_path pe SocketPath f))))"

definition is_daemon_running :: "proc_env \<Rightarrow> daemon_files \<Rightarrow> bool" where
  "is_daemon_running pe f \<longleftrightarrow> is_socket_alive f \<or>
     (case lock_read pe f of Inr lock \<Rightarrow> pid_is_alive pe (lf_pid lock) | Inl _ \<Rightarrow> False)"

section \<open>Starting a daemon\<close>

text \<open>
  \<^verbatim>\<open>spawn_daemon\<close> in the process that starts it: \<open>spawned\<close> is how starting the process ends, \<open>obs i\<close> are the files
  after \<open>i\<close> tenths of a second. The additions and multiplications wrap as in a release build.
\<close>

definition wait_secs :: "u64 option \<Rightarrow> u64" where
  "wait_secs tmo = (case tmo of Some t \<Rightarrow> t | None \<Rightarrow> 30) + 5"

definition wait_iters :: "u64 option \<Rightarrow> nat" where
  "wait_iters tmo = unat (wait_secs tmo * 10)"

definition spawn_daemon ::
  "proc_env \<Rightarrow> daemon_files \<Rightarrow> unit result \<Rightarrow> (nat \<Rightarrow> daemon_files) \<Rightarrow> u64 option \<Rightarrow> unit result \<times> daemon_files" where
  "spawn_daemon pe f spawned obs tmo =
     (case cleanup_stale_daemon_artifacts pe f of
        (Inl e, f') \<Rightarrow> (Err e, f')
      | (Inr _, f') \<Rightarrow>
          (case bind_result (pe_exe pe) (\<lambda>_. with_ctx ''Failed to spawn daemon process'' spawned) of
             Inl e \<Rightarrow> (Err e, f')
           | Inr _ \<Rightarrow>
               (case List.find (\<lambda>i. f_lock (obs i) \<noteq> None) [0..<wait_iters tmo] of
                  Some i \<Rightarrow> (Ok (), obs i)
                | None \<Rightarrow>
                    let g = obs (wait_iters tmo) in
                    if f_error g \<noteq> None then
                      (let msg = (case read_to_string pe ErrorPath (f_error g) of
                                    Inr s \<Rightarrow> s | Inl _ \<Rightarrow> ''daemon startup failed'') in
                       (bail (''Daemon failed to start: '' @ trim msg), remove_path pe ErrorPath g))
                    else
                      (bail (''Daemon started but lock file not created within '' @ show_u64 (wait_secs tmo) @ '' seconds''), g))))"

section \<open>Running the daemon\<close>

text \<open>The local part of a run, with the files: \<open>fs\<close> changes, then the rest of the run, then the clean-up guard.\<close>

type_synonym daemon_run = "unit result outcome \<times> dstate \<times> daemon_files"

definition daemon_error_text :: "ConnectWithTimeoutError \<Rightarrow> string" where
  "daemon_error_text e =
     (case e of
        ConnectFailed e \<Rightarrow> err_chain e
      | TimedOut secs \<Rightarrow> ''connect timed out after '' @ show_nat secs @ ''s'')"

text \<open>What happens after the socket is bound, without the guard.\<close>

definition daemon_body ::
  "'img daemon_env \<Rightarrow> proc_env \<Rightarrow> daemon_args \<Rightarrow> daemon_event list \<Rightarrow> dstate \<Rightarrow> daemon_files \<Rightarrow> daemon_run" where
  "daemon_body env pe a evs w f =
     (case pe_chmod pe SocketPath of
        Inl e \<Rightarrow> (Done (Err e), w, f)
      | Inr _ \<Rightarrow>
          let cfg = build_connection_config (da_peer_id a) (da_password a) (da_server a) (da_id_server a)
                      (da_relay_server a) (da_key a);
              timeout_secs = unat (case da_connect_timeout a of Some t \<Rightarrow> t | None \<Rightarrow> 30);
              idle_timeout = 1000 * unat (case da_timeout a of Some t \<Rightarrow> t | None \<Rightarrow> 300);
              c = \<lparr>peer_id = da_peer_id a, password = da_password a, server = da_server a\<rparr> in
          (case connect_with_timeout env cfg timeout_secs DefaultConn None w of
             (Done (Inr (Inl e)), w1) \<Rightarrow>
               let msg = daemon_error_text e in
               (Done (Ok ()), w1, write_startup_error pe msg (cleanup pe (write_startup_error pe msg f)))
           | (Done (Inr (Inr info)), w1) \<Rightarrow>
               (case on_stream (initialize_stream_for_mode (de_ext env) DefaultConn) None w1 of
                  (Done (Inl e), w2) \<Rightarrow>
                    let msg = ''daemon init failed: '' @ err_chain e in
                    (Done (Ok ()), snd (ignore_async stream_close None w2), cleanup pe (write_startup_error pe msg f))
                | (Done (Inr _), w2) \<Rightarrow>
                    (case lock_write pe SOCKET_PATH f of
                       (Inl e, f') \<Rightarrow> (Done (Err e), w2, f')
                     | (Inr _, f') \<Rightarrow>
                         (case pe_signals pe of
                            Inl e \<Rightarrow> (Done (Err e), w2, f')
                          | Inr _ \<Rightarrow>
                              (case daemon_loop env cfg idle_timeout evs None (begin_session c info w2) of
                                 (r, w3) \<Rightarrow> (r, w3, f'))))
                | (Elapsed, w2) \<Rightarrow> (Elapsed, w2, f)
                | (Hang, w2) \<Rightarrow> (Hang, w2, f))
           | (Done (Inl e), w1) \<Rightarrow> (Done (Err e), w1, f)
           | (Elapsed, w1) \<Rightarrow> (Elapsed, w1, f)
           | (Hang, w1) \<Rightarrow> (Hang, w1, f)))"

text \<open>The guard removes the files when the function returns, whatever it returns.\<close>

definition run_daemon ::
  "'img daemon_env \<Rightarrow> proc_env \<Rightarrow> daemon_args \<Rightarrow> daemon_event list \<Rightarrow> dstate \<Rightarrow> daemon_files \<Rightarrow> daemon_run" where
  "run_daemon env pe a evs w f =
     (case cleanup_stale_daemon_artifacts pe f of
        (Inl e, f1) \<Rightarrow> (Done (Err e), w, f1)
      | (Inr _, f1) \<Rightarrow>
          (case with_ctx ''Failed to bind Unix socket'' (pe_bind pe) of
             Inl e \<Rightarrow> (Done (Err e), w, f1)
           | Inr _ \<Rightarrow>
               (case daemon_body env pe a evs w (f1\<lparr>f_socket := Some True\<rparr>) of
                  (Done r, w', f2) \<Rightarrow> (Done r, w', cleanup pe f2)
                | (out, w', f2) \<Rightarrow> (out, w', f2))))"

section \<open>Talking to a running daemon\<close>

text \<open>
  The local socket seen from the client. What the client does with its half is the bytes it writes and whether it then
  shuts the half down, so that the server reads the end of the input. Connecting to a path gives what the server answers
  to that, as the results of the successive \<^verbatim>\<open>read_line\<close> calls up to the end of the stream. \<open>uds_ser\<close> and \<open>uds_parse\<close> are
  the JSON forms of a command and of a response.
\<close>

record client_half =
  ch_written :: bytes
  ch_shut :: bool

record uds_env =
  uds_connect :: "string \<Rightarrow> (client_half \<Rightarrow> unit result \<times> string result list) result"
  uds_ser :: "SessionCommand \<Rightarrow> bytes"
  uds_parse :: "string \<Rightarrow> SessionResponse result"

text \<open>What \<^verbatim>\<open>send_command\<close> does with its half: the command as one line of JSON, then \<^verbatim>\<open>writer.shutdown()\<close>.\<close>

definition command_half :: "uds_env \<Rightarrow> SessionCommand \<Rightarrow> client_half" where
  "command_half u cmd = \<lparr>ch_written = uds_ser u cmd @ [10], ch_shut = True\<rparr>"

definition send_command :: "proc_env \<Rightarrow> daemon_files \<Rightarrow> uds_env \<Rightarrow> SessionCommand \<Rightarrow> SessionResponse result" where
  "send_command pe f u cmd =
     bind_result (lock_read pe f) (\<lambda>lock.
     bind_result (with_ctx ''Failed to connect to daemon socket. Is the session still alive?''
       (uds_connect u (lf_socket lock))) (\<lambda>remote.
     case remote (command_half u cmd) of (written, reads) \<Rightarrow>
     bind_result written (\<lambda>_.
     bind_result (case reads of [] \<Rightarrow> Ok [] | r # _ \<Rightarrow> r) (\<lambda>line.
     uds_parse u (trim line)))))"

text \<open>\<^verbatim>\<open>send_to_daemon_streaming\<close> of \<^verbatim>\<open>main.rs\<close>: all responses in order, the last one is the result.\<close>

fun read_responses ::
  "uds_env \<Rightarrow> SessionResponse option \<Rightarrow> SessionResponse list \<Rightarrow> string result list \<Rightarrow>
     SessionResponse list \<times> SessionResponse option result" where
  "read_responses u last_response seen [] = (seen, Ok last_response)"
| "read_responses u last_response seen (Inl e # reads) = (seen, Err e)"
| "read_responses u last_response seen (Inr line # reads) =
     (if line = [] then (seen, Ok last_response)
      else if trim line = [] then read_responses u last_response seen reads
      else (case uds_parse u (trim line) of
              Inl e \<Rightarrow> (seen, Err e)
            | Inr r \<Rightarrow> read_responses u (Some r) (seen @ [r]) reads))"

definition send_to_daemon_streaming ::
  "proc_env \<Rightarrow> daemon_files \<Rightarrow> uds_env \<Rightarrow> SessionCommand \<Rightarrow> SessionResponse list \<times> SessionResponse result" where
  "send_to_daemon_streaming pe f u cmd =
     (case bind_result (lock_read pe f) (\<lambda>lock. uds_connect u (lf_socket lock)) of
        Inl e \<Rightarrow> ([], Err e)
      | Inr remote \<Rightarrow>
          (case remote \<lparr>ch_written = uds_ser u cmd @ [10], ch_shut = True\<rparr> of
             (Inl e, reads) \<Rightarrow> ([], Err e)
           | (Inr _, reads) \<Rightarrow>
               (case read_responses u None [] reads of
                  (seen, Inl e) \<Rightarrow> (seen, Err e)
                | (seen, Inr None) \<Rightarrow> (seen, Err [''daemon closed without sending a response''])
                | (seen, Inr (Some r)) \<Rightarrow> (seen, Ok r))))"

section \<open>Lemmas\<close>

definition daemon_flags :: "string list" where
  "daemon_flags = [''--peer-id'', ''--password'', ''--server'', ''--id-server'', ''--relay-server'', ''--key'',
     ''--connect-timeout'', ''--timeout'']"

lemma daemon_arg_value_skip:
  "flag \<notin> set xs \<Longrightarrow> daemon_arg_value (xs @ ys) flag = daemon_arg_value ys flag"
proof (induction xs)
  case (Cons x xs)
  then show ?case by (cases "xs @ ys") auto
qed simp

lemma daemon_arg_value_opt:
  assumes "case v of Some s \<Rightarrow> s \<noteq> flag | None \<Rightarrow> True"
  shows "daemon_arg_value (opt_arg flag' v @ ys) flag =
     (if flag' = flag then (case v of Some s \<Rightarrow> Some s | None \<Rightarrow> daemon_arg_value ys flag) else daemon_arg_value ys flag)"
proof (cases v)
  case (Some s)
  with assms have "flag \<notin> set (opt_arg flag' v)" if "flag' \<noteq> flag" using that by (simp add: opt_arg_def)
  with Some show ?thesis using daemon_arg_value_skip [of flag "opt_arg flag' v" ys] by (auto simp: opt_arg_def)
qed (simp add: opt_arg_def)

lemma show_u64_no_flag: "show_u64 t \<notin> set daemon_flags"
proof -
  obtain c r where "show_nat (unat t) = c # r" "c \<noteq> CHR ''-''" by (rule show_nat_Cons)
  then show ?thesis by (auto simp: daemon_flags_def show_u64_def)
qed

lemma parse_show_u64 [simp]: "parse_u64_ok (show_u64 t) = Some t"
proof -
  have "unat t < 2 ^ 64" using unsigned_less [of t, where 'a = nat] by simp
  then show ?thesis by (simp add: parse_u64_ok_def show_u64_def parse_unsigned_show_nat)
qed

lemma daemon_arg_value_pairs:
  assumes "flag \<in> F" and "\<And>fl v. (fl, Some v) \<in> set ps \<Longrightarrow> v \<notin> F" and "distinct (map fst ps)"
  shows "daemon_arg_value (concat (map (\<lambda>(fl, v). opt_arg fl v) ps)) flag = Option.bind (map_of ps flag) (\<lambda>v. v)"
  using assms(2,3)
proof (induction ps)
  case (Cons p ps)
  obtain fl v where p: "p = (fl, v)" by force
  have "case v of Some s \<Rightarrow> s \<noteq> flag | None \<Rightarrow> True" using Cons.prems(1) [of fl] assms(1) p by (auto split: option.splits)
  note o = daemon_arg_value_opt [OF this]
  have rest: "map_of ps fl = None" using Cons.prems(2) p by (simp add: map_of_eq_None_iff)
  have ih: "daemon_arg_value (concat (map (\<lambda>(fl, v). opt_arg fl v) ps)) flag = Option.bind (map_of ps flag) (\<lambda>v. v)"
    using Cons by auto
  show ?case using rest ih by (auto simp: p o split: option.splits)
qed simp

lemma remove_path_simps [simp]:
  "f_socket f = None \<Longrightarrow> remove_path pe SocketPath f = f" "f_lock f = None \<Longrightarrow> remove_path pe LockPath f = f"
  "f_lock (remove_path pe SocketPath f) = f_lock f"
  by (cases f; simp add: remove_path_def)+

lemma lock_read_Ok: "(case lock_read pe f of Inr l \<Rightarrow> P l | Inl _ \<Rightarrow> False) =
   (case bind_result (read_to_string pe LockPath (f_lock f)) (pe_parse_lock pe) of Inr l \<Rightarrow> P l | Inl _ \<Rightarrow> False)"
  by (auto simp: lock_read_def with_ctx_def bind_result_def split: sum.splits)

lemma stale_cleanup_running:
  "cleanup_stale_daemon_artifacts pe f =
     (if is_daemon_running pe f
      then (bail ''Daemon already running. Disconnect first, or use other commands.'', f)
      else (Ok (), remove_path pe ErrorPath (remove_path pe LockPath (remove_path pe SocketPath f))))"
proof (cases "f_lock f")
  case None
  then show ?thesis
    by (auto simp: cleanup_stale_daemon_artifacts_def is_daemon_running_def is_socket_alive_def lock_read_Ok
        read_to_string_def bind_result_def)
next
  case (Some s)
  then show ?thesis
    by (auto simp: cleanup_stale_daemon_artifacts_def is_daemon_running_def is_socket_alive_def lock_read_Ok Let_def)
qed

section \<open>Properties\<close>

text \<open>
  C17. The daemon's command line. What \<^verbatim>\<open>spawn_daemon\<close> passes to the new process is what \<^verbatim>\<open>run_daemon_mode\<close> reads back,
  for all combinations of options, as long as no value is itself the name of one of the flags. The idle timeout of
  the daemon is never passed.
\<close>

theorem daemon_args_roundtrip:
  assumes "\<forall>v \<in> {prog, peer} \<union> set_option pw \<union> set_option srv \<union> set_option id_srv \<union> set_option relay_srv \<union> set_option key.
     v \<notin> set daemon_flags"
  shows "daemon_mode_args (prog # spawn_args peer pw srv id_srv relay_srv key tmo) =
    Some \<lparr>da_peer_id = peer, da_password = pw, da_server = srv, da_id_server = id_srv, da_relay_server = relay_srv,
      da_key = key, da_connect_timeout = tmo, da_timeout = None\<rparr>"
proof -
  let ?ps = "[(''--peer-id'', Some peer), (''--password'', pw), (''--server'', srv), (''--id-server'', id_srv),
     (''--relay-server'', relay_srv), (''--key'', key), (''--connect-timeout'', map_option show_u64 tmo)]"
  have args: "prog # spawn_args peer pw srv id_srv relay_srv key tmo =
      [prog, ''--daemon''] @ concat (map (\<lambda>(fl, v). opt_arg fl v) ?ps)"
    by (simp add: spawn_args_def opt_arg_def)
  have vals: "v \<notin> set daemon_flags" if "(fl, Some v) \<in> set ?ps" for fl v
    using that assms show_u64_no_flag by (cases tmo) auto
  have dist: "distinct (map fst ?ps)" by simp
  have look: "daemon_arg_value (prog # spawn_args peer pw srv id_srv relay_srv key tmo) flag =
      Option.bind (map_of ?ps flag) (\<lambda>v. v)" if "flag \<in> set daemon_flags" for flag
  proof -
    have "flag \<notin> set [prog, ''--daemon'']" using that assms by (auto simp: daemon_flags_def)
    then show ?thesis
      unfolding args daemon_arg_value_skip [OF \<open>flag \<notin> set [prog, ''--daemon'']\<close>]
      by (intro daemon_arg_value_pairs [OF that vals dist])
  qed
  note looks = look [of "''--peer-id''"] look [of "''--password''"] look [of "''--server''"] look [of "''--id-server''"]
    look [of "''--relay-server''"] look [of "''--key''"] look [of "''--connect-timeout''"] look [of "''--timeout''"]
  have "set daemon_flags = {''--peer-id'', ''--password'', ''--server'', ''--id-server'', ''--relay-server'', ''--key'',
     ''--connect-timeout'', ''--timeout''}" by (auto simp: daemon_flags_def)
  note looks = looks [unfolded this, simplified]
  show ?thesis
    unfolding daemon_mode_args_def looks by (cases tmo) simp_all
qed

theorem daemon_args_roundtrip_witness:
  "daemon_mode_args (''rustdesk-cli'' # spawn_args ''123'' (Some ''pw'') None None (Some ''hbbr'') None (Some 30)) =
     Some \<lparr>da_peer_id = ''123'', da_password = Some ''pw'', da_server = None, da_id_server = None,
       da_relay_server = Some ''hbbr'', da_key = None, da_connect_timeout = Some 30, da_timeout = None\<rparr>"
  by (rule daemon_args_roundtrip) (simp add: daemon_flags_def)

text \<open>
  C15. One daemon at a time. Starting is refused exactly when \<^verbatim>\<open>is_daemon_running\<close> says that a daemon runs, and then no
  file is touched; otherwise whatever is left of an earlier daemon is removed.
\<close>

theorem stale_cleanup_iff_running:
  "cleanup_stale_daemon_artifacts pe f =
     (if is_daemon_running pe f
      then (bail ''Daemon already running. Disconnect first, or use other commands.'', f)
      else (Ok (), remove_path pe ErrorPath (remove_path pe LockPath (remove_path pe SocketPath f))))"
  by (rule stale_cleanup_running)

text \<open>
  C18. A daemon that ends leaves nothing behind. When \<^verbatim>\<open>run_daemon\<close> returns, having got as far as its socket, the
  socket, the lock file and the error file are gone, also when the connection failed and the reason was written to
  the error file for the process that waits for the daemon.
\<close>

theorem daemon_leaves_no_files:
  "case run_daemon env (pe\<lparr>pe_remove := \<lambda>_. True\<rparr>) a evs w f of
     (Done r, w', f') \<Rightarrow>
       if is_daemon_running pe f then \<not> is_ok r
       else if is_ok (pe_bind pe) then f' = \<lparr>f_socket = None, f_lock = None, f_error = None\<rparr>
       else \<not> is_ok r
   | _ \<Rightarrow> True"
proof -
  let ?pe = "pe\<lparr>pe_remove := \<lambda>_. True\<rparr>"
  have "pid_is_alive ?pe p = pid_is_alive pe p" "lock_read ?pe f = lock_read pe f" for p
    by (simp_all add: lock_read_def read_to_string_def pid_is_alive_def split: option.split)
  then have run: "is_daemon_running ?pe f = is_daemon_running pe f" by (simp add: is_daemon_running_def split: sum.split)
  have "cleanup ?pe g = \<lparr>f_socket = None, f_lock = None, f_error = None\<rparr>" for g
    by (cases g) (simp add: cleanup_def remove_path_def)
  then show ?thesis
    unfolding run_daemon_def stale_cleanup_running run
    by (auto simp: with_ctx_def bail_def split: prod.splits outcome.splits sum.splits)
qed

end
