(* ===== verification/Permissions.thy ===== *)
theory Permissions
  imports Rust_Strings
begin

text \<open>
  \<^verbatim>\<open>src/permissions.rs\<close>: the sandbox rules and the prompt in front of every operation that reaches the
  peer. The user at the terminal (\<^verbatim>\<open>stdin\<close>, \<^verbatim>\<open>stderr\<close>) and the machine (working directory, home, files,
  \<^verbatim>\<open>toml\<close>) are parameters. The four checks share one contract, the locale \<open>permission_gate\<close>: what is
  allowed is exactly what the sandbox policy of the check allows and the user, unless prompts are
  skipped, confirms.
\<close>

section \<open>Rules\<close>

record SandboxRules =
  allowed_peers :: "string list"
  allowed_commands :: "string list"
  blocked_paths :: "string list"

record PermissionManager =
  skip_prompts :: bool
  sandbox_rules :: "SandboxRules option"

text \<open>The user: whether \<^verbatim>\<open>stdin\<close> is a terminal, how flushing the prompt ends, and the line that is read.\<close>

record user =
  stdin_is_terminal :: bool
  stderr_flush :: "unit result"
  stdin_line :: "string result"

definition confirm :: "PermissionManager \<Rightarrow> user \<Rightarrow> string \<Rightarrow> unit result" where
  "confirm pm u prompt =
     (if skip_prompts pm then Ok ()
      else if \<not> stdin_is_terminal u then
        bail (prompt @ '' Permission prompt requires an interactive terminal; rerun with --dangerously-skip-permissions for automation'')
      else
        bind_result (stderr_flush u) (\<lambda>_.
        bind_result (stdin_line u) (\<lambda>line.
        let answer = to_ascii_lowercase (trim line) in
        if answer = ''y'' \<or> answer = ''yes'' then Ok () else bail ''operation denied by user'')))"

definition ensure_connect_allowed :: "PermissionManager \<Rightarrow> user \<Rightarrow> string \<Rightarrow> unit result" where
  "ensure_connect_allowed pm u peer_id =
     bind_result
       (case sandbox_rules pm of
          None \<Rightarrow> Ok ()
        | Some rules \<Rightarrow>
            if allowed_peers rules = [] then bail ''sandbox denied connect: no peers are allowed by config''
            else if \<not> list_ex (\<lambda>allowed. allowed = peer_id) (allowed_peers rules)
            then bail (''sandbox denied connect to peer `'' @ peer_id @ ''`'')
            else Ok ())
       (\<lambda>_. confirm pm u (''Allow connecting to remote peer `'' @ peer_id @ ''`?''))"

definition find_blocked :: "SandboxRules \<Rightarrow> string \<Rightarrow> string option" where
  "find_blocked rules s = List.find (\<lambda>blocked. blocked \<noteq> [] \<and> str_contains s blocked) (blocked_paths rules)"

definition ensure_exec_allowed :: "PermissionManager \<Rightarrow> user \<Rightarrow> string \<Rightarrow> unit result" where
  "ensure_exec_allowed pm u cmd =
     bind_result
       (case sandbox_rules pm of
          None \<Rightarrow> Ok ()
        | Some rules \<Rightarrow>
            if allowed_commands rules = [] then bail ''sandbox denied exec: no commands are allowed by config''
            else
              let trimmed = trim cmd in
              if \<not> list_ex (\<lambda>allowed. starts_with trimmed allowed) (allowed_commands rules)
              then bail (''sandbox denied exec command `'' @ trimmed @ ''`'')
              else case find_blocked rules trimmed of
                Some blocked_path \<Rightarrow> bail (''sandbox denied exec touching blocked path `'' @ blocked_path @ ''`'')
              | None \<Rightarrow> Ok ())
       (\<lambda>_. confirm pm u (''Allow remote exec command `'' @ cmd @ ''`?''))"

definition ensure_shell_allowed :: "PermissionManager \<Rightarrow> user \<Rightarrow> unit result" where
  "ensure_shell_allowed pm u =
     (if sandbox_rules pm \<noteq> None then bail ''sandbox denied interactive shell access''
      else confirm pm u ''Allow opening an interactive remote shell?'')"

definition ensure_path_allowed :: "PermissionManager \<Rightarrow> string \<Rightarrow> unit result" where
  "ensure_path_allowed pm path =
     (case sandbox_rules pm of
        None \<Rightarrow> Ok ()
      | Some rules \<Rightarrow>
          (case find_blocked rules path of
             Some blocked_path \<Rightarrow>
               bail (''sandbox denied path `'' @ path @ ''` because it matches blocked path `'' @ blocked_path @ ''`'')
           | None \<Rightarrow> Ok ()))"

definition ensure_push_allowed :: "PermissionManager \<Rightarrow> user \<Rightarrow> string \<Rightarrow> string \<Rightarrow> unit result" where
  "ensure_push_allowed pm u local_path remote_path =
     bind_result (ensure_path_allowed pm local_path) (\<lambda>_.
     bind_result (ensure_path_allowed pm remote_path) (\<lambda>_.
     confirm pm u (''Allow pushing local file `'' @ local_path @ ''` to remote path `'' @ remote_path @ ''`?'')))"

section \<open>Loading the rules\<close>

text \<open>
  The machine: the working directory and home (when they are known), the file at a path (\<open>None\<close>: there
  is none, an error: it cannot be read) and \<^verbatim>\<open>toml::from_str\<close> of the configuration.
\<close>

record machine =
  current_dir :: "string option"
  home_dir :: "string option"
  file_at :: "string \<Rightarrow> string result option"
  toml_sandbox :: "string \<Rightarrow> SandboxRules result"

definition SANDBOX_CONFIG_FILE :: string where "SANDBOX_CONFIG_FILE = ''rustdesk-cli.toml''"

text \<open>\<^verbatim>\<open>PathBuf::join\<close> with a relative path.\<close>

definition path_join :: "string \<Rightarrow> string \<Rightarrow> string" where
  "path_join a b = (if a = [] \<or> ends_with a ''/'' then a @ b else a @ ''/'' @ b)"

definition sandbox_config_candidates :: "machine \<Rightarrow> string list" where
  "sandbox_config_candidates mc =
     (case current_dir mc of Some cwd \<Rightarrow> [path_join cwd SANDBOX_CONFIG_FILE] | None \<Rightarrow> []) @
     (case home_dir mc of
        Some home \<Rightarrow> [path_join (path_join home ''.config/rustdesk-cli'') SANDBOX_CONFIG_FILE,
                       path_join home (''.'' @ SANDBOX_CONFIG_FILE)]
      | None \<Rightarrow> [])"

fun load_first :: "machine \<Rightarrow> string list \<Rightarrow> string list \<Rightarrow> SandboxRules result" where
  "load_first mc searched [] =
     bail (''sandbox enabled but no `'' @ SANDBOX_CONFIG_FILE @ ''` was found. Searched: '' @ join '', '' searched)"
| "load_first mc searched (path # paths) =
     (case file_at mc path of
        None \<Rightarrow> load_first mc (searched @ [path]) paths
      | Some raw \<Rightarrow> bind_result raw (toml_sandbox mc))"

definition load_sandbox_rules :: "machine \<Rightarrow> SandboxRules result" where
  "load_sandbox_rules mc = load_first mc [] (sandbox_config_candidates mc)"

definition from_flags :: "machine \<Rightarrow> bool \<Rightarrow> bool \<Rightarrow> PermissionManager result" where
  "from_flags mc skip sandbox_enabled =
     bind_result (if sandbox_enabled then bind_result (load_sandbox_rules mc) (\<lambda>r. Ok (Some r)) else Ok None)
       (\<lambda>rules. Ok \<lparr>skip_prompts = skip, sandbox_rules = rules\<rparr>)"

section \<open>The contract of the checks\<close>

definition confirmed :: "PermissionManager \<Rightarrow> user \<Rightarrow> bool" where
  "confirmed pm u \<longleftrightarrow> skip_prompts pm \<or>
     stdin_is_terminal u \<and> is_ok (stderr_flush u) \<and>
     (case stdin_line u of Inl _ \<Rightarrow> False
      | Inr line \<Rightarrow> to_ascii_lowercase (trim line) \<in> {''y'', ''yes''})"

lemma confirm_iff: "is_ok (confirm pm u prompt) \<longleftrightarrow> confirmed pm u"
  by (auto simp: confirm_def confirmed_def bail_def bind_result_def Let_def split: sum.splits)

definition in_sandbox :: "('r \<Rightarrow> 'a \<Rightarrow> bool) \<Rightarrow> 'r option \<Rightarrow> 'a \<Rightarrow> bool" where
  "in_sandbox policy rules a = (case rules of None \<Rightarrow> True | Some r \<Rightarrow> policy r a)"

locale permission_gate =
  fixes policy :: "SandboxRules \<Rightarrow> 'a \<Rightarrow> bool"
    and ensure :: "PermissionManager \<Rightarrow> user \<Rightarrow> 'a \<Rightarrow> unit result"
  assumes ensure_iff:
    "is_ok (ensure pm u a) \<longleftrightarrow> in_sandbox policy (sandbox_rules pm) a \<and> confirmed pm u"
begin

lemma ensure_cases:
  "(\<exists>e. ensure pm u a = Err e) \<and> \<not> (in_sandbox policy (sandbox_rules pm) a \<and> confirmed pm u) \<or>
   ensure pm u a = Ok () \<and> in_sandbox policy (sandbox_rules pm) a \<and> confirmed pm u"
  using ensure_iff [of pm u a] by (cases "ensure pm u a") auto

lemma unattended_denied:
  "\<not> skip_prompts pm \<Longrightarrow> \<not> stdin_is_terminal u \<Longrightarrow> \<not> is_ok (ensure pm u a)"
  by (simp add: ensure_iff confirmed_def)

lemma skipping_keeps_sandbox:
  "is_ok (ensure (pm\<lparr>skip_prompts := True\<rparr>) u a) \<longleftrightarrow> in_sandbox policy (sandbox_rules pm) a"
  by (simp add: ensure_iff confirmed_def)

lemma sandbox_only_restricts:
  "is_ok (ensure pm u a) \<Longrightarrow> is_ok (ensure (pm\<lparr>sandbox_rules := None\<rparr>) u a)"
  by (simp add: ensure_iff in_sandbox_def confirmed_def)

end

lemma find_blocked_None: "find_blocked rules s = None \<longleftrightarrow> (\<forall>b \<in> set (blocked_paths rules). b = [] \<or> \<not> str_contains s b)"
  by (auto simp: find_blocked_def find_None_iff)

lemma is_ok_bind: "is_ok (bind_result r f) \<longleftrightarrow> (\<exists>x. r = Ok x \<and> is_ok (f x))"
  by (cases r) (auto simp: bind_result_def)

lemma is_ok_unit: "is_ok r \<longleftrightarrow> r = Ok ()" for r :: "unit result"
  by (cases r) auto

definition connect_policy :: "SandboxRules \<Rightarrow> string \<Rightarrow> bool" where
  "connect_policy rules peer_id \<longleftrightarrow> peer_id \<in> set (allowed_peers rules)"

definition exec_policy :: "SandboxRules \<Rightarrow> string \<Rightarrow> bool" where
  "exec_policy rules cmd \<longleftrightarrow>
     (\<exists>allowed \<in> set (allowed_commands rules). starts_with (trim cmd) allowed) \<and> find_blocked rules (trim cmd) = None"

definition push_policy :: "SandboxRules \<Rightarrow> string \<times> string \<Rightarrow> bool" where
  "push_policy rules p \<longleftrightarrow> find_blocked rules (fst p) = None \<and> find_blocked rules (snd p) = None"

interpretation gate_connect: permission_gate connect_policy ensure_connect_allowed
proof
  fix pm u a
  show "is_ok (ensure_connect_allowed pm u a) \<longleftrightarrow> in_sandbox connect_policy (sandbox_rules pm) a \<and> confirmed pm u"
    by (cases "sandbox_rules pm")
      (auto simp: ensure_connect_allowed_def in_sandbox_def is_ok_bind confirm_iff connect_policy_def bail_def
        list_ex_iff split: if_splits)
qed

interpretation gate_exec: permission_gate exec_policy ensure_exec_allowed
proof
  fix pm u a
  show "is_ok (ensure_exec_allowed pm u a) \<longleftrightarrow> in_sandbox exec_policy (sandbox_rules pm) a \<and> confirmed pm u"
    by (cases "sandbox_rules pm")
      (auto simp: ensure_exec_allowed_def in_sandbox_def is_ok_bind confirm_iff exec_policy_def bail_def
        list_ex_iff Let_def split: if_splits option.splits)
qed

interpretation gate_shell: permission_gate "\<lambda>_ _. False" "\<lambda>pm u (_ :: unit). ensure_shell_allowed pm u"
  by unfold_locales (auto simp: ensure_shell_allowed_def in_sandbox_def confirm_iff bail_def split: option.splits)

interpretation gate_push: permission_gate push_policy "\<lambda>pm u (l, r). ensure_push_allowed pm u l r"
proof
  fix pm u and a :: "string \<times> string"
  show "is_ok ((\<lambda>(l, r). ensure_push_allowed pm u l r) a) \<longleftrightarrow>
      in_sandbox push_policy (sandbox_rules pm) a \<and> confirmed pm u"
    by (cases a; cases "sandbox_rules pm")
      (auto simp: ensure_push_allowed_def ensure_path_allowed_def in_sandbox_def is_ok_bind confirm_iff
        push_policy_def bail_def split: option.splits)
qed

section \<open>Properties\<close>

text \<open>
  C12. Who may do what. With a sandbox, connecting needs the peer's id on the list, exec a command that
  starts with a listed command and touches no blocked path, pushing two paths that touch none, and a
  shell is never allowed; without one everything is. In every case the user must say yes at a terminal
  unless prompts are skipped: skipping them lifts nothing of the sandbox, and without a terminal and
  without the flag everything is denied.
\<close>

theorem sandbox_gates:
  "(is_ok (ensure_connect_allowed pm u peer) \<longleftrightarrow> confirmed pm u \<and>
      (case sandbox_rules pm of None \<Rightarrow> True | Some r \<Rightarrow> list_ex (\<lambda>p. p = peer) (allowed_peers r))) \<and>
   (is_ok (ensure_exec_allowed pm u cmd) \<longleftrightarrow> confirmed pm u \<and>
      (case sandbox_rules pm of None \<Rightarrow> True
       | Some r \<Rightarrow> list_ex (starts_with (trim cmd)) (allowed_commands r) \<and>
           \<not> list_ex (\<lambda>b. b \<noteq> [] \<and> str_contains (trim cmd) b) (blocked_paths r))) \<and>
   (is_ok (ensure_push_allowed pm u l rp) \<longleftrightarrow> confirmed pm u \<and>
      (case sandbox_rules pm of None \<Rightarrow> True
       | Some r \<Rightarrow> \<not> list_ex (\<lambda>b. b \<noteq> [] \<and> (str_contains l b \<or> str_contains rp b)) (blocked_paths r))) \<and>
   (is_ok (ensure_shell_allowed pm u) \<longleftrightarrow> confirmed pm u \<and> sandbox_rules pm = None) \<and>
   (confirmed pm u \<longleftrightarrow> (if skip_prompts pm then True else stdin_is_terminal u \<and> is_ok (stderr_flush u) \<and>
      (case stdin_line u of Inl _ \<Rightarrow> False
       | Inr line \<Rightarrow> to_ascii_lowercase (trim line) = ''y'' \<or> to_ascii_lowercase (trim line) = ''yes'')))"
proof (intro conjI)
  show "is_ok (ensure_connect_allowed pm u peer) \<longleftrightarrow> confirmed pm u \<and>
     (case sandbox_rules pm of None \<Rightarrow> True | Some r \<Rightarrow> list_ex (\<lambda>p. p = peer) (allowed_peers r))"
    by (auto simp: gate_connect.ensure_iff in_sandbox_def connect_policy_def list_ex_iff split: option.splits)
  show "is_ok (ensure_exec_allowed pm u cmd) \<longleftrightarrow> confirmed pm u \<and>
     (case sandbox_rules pm of None \<Rightarrow> True
      | Some r \<Rightarrow> list_ex (starts_with (trim cmd)) (allowed_commands r) \<and>
          \<not> list_ex (\<lambda>b. b \<noteq> [] \<and> str_contains (trim cmd) b) (blocked_paths r))"
    by (auto simp: gate_exec.ensure_iff in_sandbox_def exec_policy_def list_ex_iff find_blocked_None
        split: option.splits)
  show "is_ok (ensure_push_allowed pm u l rp) \<longleftrightarrow> confirmed pm u \<and>
     (case sandbox_rules pm of None \<Rightarrow> True
      | Some r \<Rightarrow> \<not> list_ex (\<lambda>b. b \<noteq> [] \<and> (str_contains l b \<or> str_contains rp b)) (blocked_paths r))"
    using gate_push.ensure_iff [of pm u "(l, rp)"]
    by (auto simp: in_sandbox_def push_policy_def list_ex_iff find_blocked_None split: option.splits)
  show "is_ok (ensure_shell_allowed pm u) \<longleftrightarrow> confirmed pm u \<and> sandbox_rules pm = None"
    using gate_shell.ensure_iff [of pm u] by (cases "sandbox_rules pm") (auto simp: in_sandbox_def)
qed (simp add: confirmed_def split: sum.splits)

text \<open>
  A listed command is a prefix of text, not a command. When \<open>allowed\<close> is on the list (and has
  no white space at its ends), a sandbox that blocks no paths lets every command line that
  continues \<open>allowed\<close> pass: the rule \<^verbatim>\<open>ls\<close> admits \<^verbatim>\<open>lsof\<close> and \<^verbatim>\<open>ls; reboot\<close>.
\<close>

theorem exec_rule_is_prefix:
  assumes "allowed \<in> set (allowed_commands r)" and "blocked_paths r = []" and "sandbox_rules pm = Some r"
    and "trim (allowed @ cont) = allowed @ trim_end cont" and "skip_prompts pm"
  shows "ensure_exec_allowed pm u (allowed @ cont) = Ok ()"
proof -
  have "is_ok (ensure_exec_allowed pm u (allowed @ cont))"
    using assms by (auto simp: gate_exec.ensure_iff in_sandbox_def exec_policy_def confirmed_def find_blocked_None
        intro!: bexI [of _ allowed])
  then show ?thesis by (simp add: is_ok_unit)
qed

theorem exec_rule_is_prefix_witness:
  "ensure_exec_allowed \<lparr>skip_prompts = True, sandbox_rules = Some \<lparr>allowed_peers = [], allowed_commands = [''ls''],
     blocked_paths = []\<rparr>\<rparr> \<lparr>stdin_is_terminal = False, stderr_flush = Ok (), stdin_line = Ok []\<rparr> ''ls; reboot'' = Ok ()"
proof -
  have t: "trim (''ls'' @ ''; reboot'') = ''ls'' @ trim_end ''; reboot''" by code_simp
  show ?thesis
    using exec_rule_is_prefix [OF _ _ _ t, of "\<lparr>allowed_peers = [], allowed_commands = [''ls''], blocked_paths = []\<rparr>"
      "\<lparr>skip_prompts = True, sandbox_rules = Some \<lparr>allowed_peers = [], allowed_commands = [''ls''], blocked_paths = []\<rparr>\<rparr>"]
    by simp
qed

end
