(* ===== verification/Batch.thy ===== *)
theory Batch
  imports Responses
begin

text \<open>
  The \<^verbatim>\<open>do\<close> command of \<^verbatim>\<open>src/main.rs\<close>: splitting the tokens of the command line into
  steps, and the answer made of them. The code walks an index through the token slice; here
  the tokens that are left play the role of \<^verbatim>\<open>tokens[index..]\<close>, so an index test against
  \<^verbatim>\<open>tokens.len()\<close> is a pattern match. The errors of this parser are plain strings, here
  chains of one message.
\<close>

section \<open>Definitions\<close>

record BatchStep =
  command :: string
  args :: "string list"

definition step_commands :: "string list" where
  "step_commands =
     [''connect'', ''disconnect'', ''shell'', ''exec'', ''clipboard'', ''status'', ''displays'',
      ''capture'', ''type'', ''key'', ''click'', ''scroll'', ''move'', ''drag'']"

definition is_step_command :: "string \<Rightarrow> bool" where
  "is_step_command token \<longleftrightarrow> token \<in> set step_commands"

fun flag_value :: "string list \<Rightarrow> string \<Rightarrow> string option" where
  "flag_value (a # b # as) flag = (if a = flag then Some b else flag_value (b # as) flag)"
| "flag_value _ flag = None"

definition flag_present :: "string list \<Rightarrow> string \<Rightarrow> bool" where
  "flag_present as flag \<longleftrightarrow> flag \<in> set as"

fun positional_args_from :: "bool \<Rightarrow> string list \<Rightarrow> string list" where
  "positional_args_from skip_next [] = []"
| "positional_args_from skip_next (arg # as) =
     (if skip_next then positional_args_from False as
      else if starts_with arg ''--'' then positional_args_from True as
      else arg # positional_args_from False as)"

definition positional_args :: "string list \<Rightarrow> string list" where
  "positional_args as = positional_args_from False as"

fun first_non_flag_from :: "bool \<Rightarrow> string list \<Rightarrow> string option" where
  "first_non_flag_from skip_next [] = None"
| "first_non_flag_from skip_next (arg # as) =
     (if skip_next then first_non_flag_from False as
      else if starts_with arg ''--'' then first_non_flag_from True as
      else Some arg)"

definition first_non_flag_arg :: "string list \<Rightarrow> string option" where
  "first_non_flag_arg as = first_non_flag_from False as"

text \<open>The loop of \<^verbatim>\<open>parse_flagged_step\<close>: the tokens left, the arguments so far, the count.\<close>

fun flagged_loop ::
  "string list \<Rightarrow> nat \<Rightarrow> string list \<Rightarrow> string list \<Rightarrow> nat \<Rightarrow> (string list \<times> string list \<times> nat) result"
where
  "flagged_loop value_flags required [] as positional = Ok (as, [], positional)"
| "flagged_loop value_flags required (token # ts) as positional =
     (if required \<le> positional \<and> is_step_command token then Ok (as, token # ts, positional)
      else if token \<in> set value_flags then
        (case ts of
           [] \<Rightarrow> bail (''flag '' @ [CHR 0x27] @ token @ [CHR 0x27] @ '' requires a value'')
         | v # ts' \<Rightarrow> flagged_loop value_flags required ts' (as @ [token, v]) positional)
      else if starts_with token ''--'' then
        bail (''unsupported flag '' @ [CHR 0x27] @ token @ [CHR 0x27])
      else flagged_loop value_flags required ts (as @ [token]) (positional + 1))"

definition parse_flagged_step ::
  "string list \<Rightarrow> string list \<Rightarrow> nat \<Rightarrow> (string list \<times> string list) result" where
  "parse_flagged_step tokens value_flags required =
     bind_result (flagged_loop value_flags required tokens [] 0) (\<lambda>(as, rest, positional).
     if positional < required then bail ''missing required positional argument''
     else Ok (as, rest))"

text \<open>
  The loop of \<^verbatim>\<open>parse_click_step\<close>. The test at its end, before the next round, is the one
  the next round starts with.
\<close>

fun click_loop ::
  "string list \<Rightarrow> string list \<Rightarrow> nat \<Rightarrow> (string list \<times> string list \<times> nat) result" where
  "click_loop [] as positional = Ok (as, [], positional)"
| "click_loop (token # ts) as positional =
     (if 2 \<le> positional \<and> is_step_command token then Ok (as, token # ts, positional)
      else if token = ''--button'' then
        (case ts of
           [] \<Rightarrow> bail ''click flag --button requires a value''
         | v # ts' \<Rightarrow> click_loop ts' (as @ [token, v]) positional)
      else if token = ''--double'' then click_loop ts (as @ [token]) positional
      else if starts_with token ''--'' then
        bail (''unsupported click flag '' @ [CHR 0x27] @ token @ [CHR 0x27])
      else click_loop ts (as @ [token]) (positional + 1))"

definition parse_click_step :: "string list \<Rightarrow> (string list \<times> string list) result" where
  "parse_click_step tokens =
     bind_result (click_loop tokens [] 0) (\<lambda>(as, rest, positional).
     if positional < 2 then bail ''click requires x and y'' else Ok (as, rest))"

definition parse_clipboard_step :: "string list \<Rightarrow> (string list \<times> string list) result" where
  "parse_clipboard_step tokens =
     (case tokens of
        [] \<Rightarrow> bail ''clipboard requires an action''
      | action # ts \<Rightarrow>
          if action = ''get'' then Ok ([action], ts)
          else if action = ''set'' then
            bind_result (parse_flagged_step ts [''--text''] 0) (\<lambda>(as, rest).
            if flag_value as ''--text'' = None then bail ''clipboard set requires --text <TEXT>''
            else Ok (action # as, rest))
          else bail (''unknown clipboard action '' @ [CHR 0x27] @ action @ [CHR 0x27]))"

text \<open>One round of \<^verbatim>\<open>parse_batch_steps\<close>: the arguments of a command and the tokens after them.\<close>

definition unknown_batch_command :: "string \<Rightarrow> 'a result" where
  "unknown_batch_command c = bail (''unknown batch command '' @ [CHR 0x27] @ c @ [CHR 0x27])"

definition take_args :: "nat \<Rightarrow> string \<Rightarrow> string list \<Rightarrow> (string list \<times> string list) result" where
  "take_args n msg ts = (if length ts < n then bail msg else Ok (take n ts, drop n ts))"

definition parse_step :: "string \<Rightarrow> string list \<Rightarrow> (string list \<times> string list) result" where
  "parse_step cmd ts =
     (if \<not> is_step_command cmd then unknown_batch_command cmd
      else if cmd \<in> {''disconnect'', ''status'', ''displays'', ''shell''} then Ok ([], ts)
      else if cmd = ''type'' then take_args 1 ''type requires one text argument'' ts
      else if cmd = ''scroll'' then take_args 3 ''scroll requires x y delta'' ts
      else if cmd = ''move'' then take_args 2 ''move requires x and y'' ts
      else if cmd = ''drag'' then take_args 4 ''drag requires x1 y1 x2 y2'' ts
      else if cmd = ''click'' then parse_click_step ts
      else if cmd = ''clipboard'' then parse_clipboard_step ts
      else if cmd = ''connect'' then
        parse_flagged_step ts [''--password'', ''--server'', ''--timeout''] 1
      else if cmd = ''exec'' then
        bind_result (parse_flagged_step ts [''--command''] 0) (\<lambda>(as, rest).
        if flag_value as ''--command'' = None then bail ''exec requires --command <CMD>''
        else Ok (as, rest))
      else if cmd = ''key'' then parse_flagged_step ts [''--modifiers''] 1
      else if cmd = ''capture'' then
        parse_flagged_step ts
          [''--display'', ''--format'', ''--quality'', ''--region'', ''--timeout''] 0
      else unknown_batch_command cmd)"

lemma flagged_loop_splits:
  "flagged_loop vf req ts as pos = Ok (as', rest, pos') \<Longrightarrow> as' @ rest = as @ ts"
proof (induction vf req ts as pos rule: flagged_loop.induct)
  case (2 vf req token ts as pos)
  then show ?case by (cases ts) (auto split: if_splits)
qed simp

lemma click_loop_splits:
  "click_loop ts as pos = Ok (as', rest, pos') \<Longrightarrow> as' @ rest = as @ ts"
proof (induction ts as pos rule: click_loop.induct)
  case (2 token ts as pos)
  then show ?case by (cases ts) (auto split: if_splits)
qed simp

lemma parse_flagged_step_splits: "parse_flagged_step ts vf req = Ok (as, rest) \<Longrightarrow> as @ rest = ts"
  by (auto simp: parse_flagged_step_def bind_result_Ok_iff split: if_splits dest: flagged_loop_splits)

lemma parse_click_step_splits: "parse_click_step ts = Ok (as, rest) \<Longrightarrow> as @ rest = ts"
  by (auto simp: parse_click_step_def bind_result_Ok_iff split: if_splits dest: click_loop_splits)

lemma parse_clipboard_step_splits: "parse_clipboard_step ts = Ok (as, rest) \<Longrightarrow> as @ rest = ts"
  by (auto simp: parse_clipboard_step_def bind_result_Ok_iff split: if_splits list.splits
      dest: parse_flagged_step_splits)

lemma take_args_splits: "take_args n msg ts = Ok (as, rest) \<Longrightarrow> as @ rest = ts"
  by (auto simp: take_args_def split: if_splits)

lemma parse_step_splits: "parse_step cmd ts = Ok (as, rest) \<Longrightarrow> as @ rest = ts"
  unfolding parse_step_def unknown_batch_command_def
  by (auto simp: bind_result_Ok_iff split: if_splits
      dest!: parse_click_step_splits parse_clipboard_step_splits parse_flagged_step_splits take_args_splits)

function parse_batch_steps :: "string list \<Rightarrow> BatchStep list result" where
  "parse_batch_steps [] = Ok []"
| "parse_batch_steps (cmd # ts) =
     (case parse_step cmd ts of
        Inl e \<Rightarrow> Err e
      | Inr (as, rest) \<Rightarrow>
          bind_result (parse_batch_steps rest) (\<lambda>steps. Ok (\<lparr>command = cmd, args = as\<rparr> # steps)))"
  by pat_completeness auto
termination
proof (relation "measure length", simp)
  fix cmd ts x as rest
  assume "parse_step cmd ts = Inr x" and "(as, rest) = x"
  then have "as @ rest = ts" by (auto dest: parse_step_splits)
  then show "(rest, cmd # ts) \<in> measure length" by auto
qed

section \<open>Answers\<close>

definition parse_capture_format :: "string \<Rightarrow> CaptureFormat option" where
  "parse_capture_format v =
     (if v = ''png'' then Some Png else if v = ''jpg'' \<or> v = ''jpeg'' then Some Jpg else None)"

definition parse_mouse_button :: "string \<Rightarrow> MouseButton option" where
  "parse_mouse_button v =
     (if v = ''left'' then Some Left else if v = ''right'' then Some Right
      else if v = ''middle'' then Some Middle else None)"

definition parse_modifier :: "string \<Rightarrow> Modifier option" where
  "parse_modifier item =
     (if item = ''ctrl'' then Some Ctrl else if item = ''shift'' then Some Shift
      else if item = ''alt'' then Some Alt else None)"

definition parse_modifier_list :: "string \<Rightarrow> Modifier list" where
  "parse_modifier_list v = List.map_filter parse_modifier (split_char CHR '','' v)"

definition infer_format :: "string \<Rightarrow> CaptureFormat" where
  "infer_format file =
     (let ext = last (split_char CHR ''.'' file) in
      if eq_ignore_ascii_case ext ''jpg'' \<or> eq_ignore_ascii_case ext ''jpeg'' then Jpg else Png)"

definition nth_i32 :: "string list \<Rightarrow> nat \<Rightarrow> i32" where
  "nth_i32 as i = (if i < length as then unwrap_or 0 (parse_i32 (as ! i)) else 0)"

definition first_arg :: "string list \<Rightarrow> string" where
  "first_arg as = (case as of [] \<Rightarrow> [] | a # _ \<Rightarrow> a)"

definition ok_of :: "'a result \<Rightarrow> 'a option" where
  "ok_of r = (case r of Inl _ \<Rightarrow> None | Inr x \<Rightarrow> Some x)"

definition step_clipboard :: "string list \<Rightarrow> Response" where
  "step_clipboard as =
     (let action = unwrap_or ''get'' (first_non_flag_arg as) in
      if action = ''get'' then clipboard_get_response ''stub clipboard text''
      else if action = ''set'' then clipboard_set_response (unwrap_or [] (flag_value as ''--text''))
      else \<lparr>resp_text = ''unknown clipboard action'',
             resp_json = JObj [(''ok'', JBool False), (''command'', JStr ''clipboard''),
               (''error'', JObj [(''code'', JStr ''connection_error''),
                  (''message'', JStr ''unknown clipboard action'')])],
             resp_exit = EXIT_CONNECTION\<rparr>)"

definition step_capture :: "string list \<Rightarrow> Response" where
  "step_capture as =
     (let file = unwrap_or ''screenshot.png'' (first_non_flag_arg as);
          fmt = unwrap_or (infer_format file)
            (Option.bind (flag_value as ''--format'') parse_capture_format);
          region = Option.bind (flag_value as ''--region'') (\<lambda>raw. ok_of (region_from_str raw));
          display = Option.bind (flag_value as ''--display'') parse_i32;
          timeout = unwrap_or 10
            (Option.bind (flag_value as ''--timeout'') (\<lambda>raw. map_option of_nat (parse_unsigned 64 raw))) in
      capture_response file fmt region display timeout)"

definition step_key :: "string list \<Rightarrow> Response" where
  "step_key as =
     (let key = unwrap_or ''enter'' (first_non_flag_arg as);
          mods = unwrap_or [] (map_option parse_modifier_list (flag_value as ''--modifiers'')) in
      key_response key mods)"

definition step_click :: "string list \<Rightarrow> Response" where
  "step_click as =
     (let button = unwrap_or Left (Option.bind (flag_value as ''--button'') parse_mouse_button);
          dbl = flag_present as ''--double'';
          coords = positional_args as in
      click_response button (nth_i32 coords 0) (nth_i32 coords 1) dbl)"

definition step_unknown :: "string \<Rightarrow> Response" where
  "step_unknown cmd =
     \<lparr>resp_text = ''unknown command '' @ cmd,
      resp_json = JObj [(''ok'', JBool False), (''command'', JStr cmd),
        (''error'', JObj [(''code'', JStr ''connection_error''),
           (''message'', JStr ''unknown batch command'')])],
      resp_exit = EXIT_CONNECTION\<rparr>"

definition step_to_response :: "(json \<Rightarrow> string) \<Rightarrow> BatchStep \<Rightarrow> Response" where
  "step_to_response render step =
     (let cmd = command step; as = args step in
      if cmd = ''connect'' then
        connect_response (unwrap_or ''unknown'' (first_non_flag_arg as)) (flag_value as ''--server'')
      else if cmd = ''disconnect'' then disconnect_response False
      else if cmd = ''shell'' then shell_response
      else if cmd = ''exec'' then
        exec_response (unwrap_or [] (flag_value as ''--command'')) ''stub exec output'' [] 0
      else if cmd = ''clipboard'' then step_clipboard as
      else if cmd = ''status'' then status_response
      else if cmd = ''displays'' then displays_response render []
      else if cmd = ''capture'' then step_capture as
      else if cmd = ''type'' then type_response (first_arg as)
      else if cmd = ''key'' then step_key as
      else if cmd = ''click'' then step_click as
      else if cmd = ''scroll'' then scroll_response (nth_i32 as 0) (nth_i32 as 1) (nth_i32 as 2)
      else if cmd = ''move'' then move_response (nth_i32 as 0) (nth_i32 as 1)
      else if cmd = ''drag'' then
        drag_response (nth_i32 as 0) (nth_i32 as 1) (nth_i32 as 2) (nth_i32 as 3)
      else step_unknown cmd)"

definition do_response :: "(json \<Rightarrow> string) \<Rightarrow> BatchStep list \<Rightarrow> BatchResponse" where
  "do_response render steps =
     (let results = List.enumerate 1 (map (step_to_response render) steps);
          step_lines = map (\<lambda>(i, r). show_nat i @ '' '' @ resp_text r) results;
          json_steps = map (\<lambda>(i, r). json_insert ''index'' (json_nat i) (resp_json r)) results in
      \<lparr>lines = step_lines @ [''ok steps='' @ show_nat (length steps)],
       batch_json = JObj [(''ok'', JBool True), (''command'', JStr ''do''), (''steps'', JArr json_steps)],
       batch_exit_code = EXIT_SUCCESS\<rparr>)"

definition batch_error_response :: "string \<Rightarrow> BatchResponse" where
  "batch_error_response msg =
     \<lparr>lines = [''connection error: '' @ msg],
      batch_json = JObj [(''ok'', JBool False), (''command'', JStr ''do''),
        (''error'', JObj [(''code'', JStr ''connection_error''), (''message'', JStr msg)])],
      batch_exit_code = EXIT_CONNECTION\<rparr>"

text \<open>The arm \<^verbatim>\<open>Commands::Do\<close> of \<^verbatim>\<open>run\<close>; \<open>daemon_running\<close> is \<^verbatim>\<open>daemon::is_daemon_running()\<close>.\<close>

definition run_do :: "(json \<Rightarrow> string) \<Rightarrow> bool \<Rightarrow> bool \<Rightarrow> string list \<Rightarrow> line list \<times> i32" where
  "run_do render json_mode daemon_running steps =
     (if \<not> daemon_running then
        emit_batch_response render json_mode
          \<lparr>lines = [''session_error: No active session''],
           batch_json = JObj [(''ok'', JBool False), (''command'', JStr ''do''),
             (''error'', JObj [(''code'', JStr ''session_error''), (''message'', JStr ''No active session'')])],
           batch_exit_code = EXIT_SESSION\<rparr>
      else
        emit_batch_response render json_mode
          (case parse_batch_steps steps of
             Inr parsed_steps \<Rightarrow> do_response render parsed_steps
           | Inl e \<Rightarrow> batch_error_response (err_display e)))"

section \<open>The grammar of batches\<close>

text \<open>
  The language of the steps, on its own: which argument lists a command takes. The runs count
  the positional arguments; a step command may not appear as a positional argument once the
  required ones are there, since it starts the next step.
\<close>

fun flagged_run :: "string list \<Rightarrow> nat \<Rightarrow> nat \<Rightarrow> string list \<Rightarrow> nat option" where
  "flagged_run vf req pos [] = Some pos"
| "flagged_run vf req pos (t # ts) =
     (if req \<le> pos \<and> is_step_command t then None
      else if t \<in> set vf then (case ts of [] \<Rightarrow> None | v # ts' \<Rightarrow> flagged_run vf req pos ts')
      else if starts_with t ''--'' then None
      else flagged_run vf req (pos + 1) ts)"

fun click_run :: "nat \<Rightarrow> string list \<Rightarrow> nat option" where
  "click_run pos [] = Some pos"
| "click_run pos (t # ts) =
     (if 2 \<le> pos \<and> is_step_command t then None
      else if t = ''--button'' then (case ts of [] \<Rightarrow> None | v # ts' \<Rightarrow> click_run pos ts')
      else if t = ''--double'' then click_run pos ts
      else if starts_with t ''--'' then None
      else click_run (pos + 1) ts)"

definition at_least :: "nat \<Rightarrow> nat option \<Rightarrow> bool" where
  "at_least n x = (case x of Some k \<Rightarrow> n \<le> k | None \<Rightarrow> False)"

definition flagged_ok :: "string list \<Rightarrow> nat \<Rightarrow> string list \<Rightarrow> bool" where
  "flagged_ok vf req as = at_least req (flagged_run vf req 0 as)"

definition args_ok :: "string \<Rightarrow> string list \<Rightarrow> bool" where
  "args_ok cmd as \<longleftrightarrow>
     (cmd \<in> {''disconnect'', ''status'', ''displays'', ''shell''} \<and> as = []) \<or>
     (cmd = ''type'' \<and> length as = 1) \<or> (cmd = ''scroll'' \<and> length as = 3) \<or>
     (cmd = ''move'' \<and> length as = 2) \<or> (cmd = ''drag'' \<and> length as = 4) \<or>
     (cmd = ''click'' \<and> at_least 2 (click_run 0 as)) \<or>
     (cmd = ''clipboard'' \<and> (as = [''get''] \<or>
        (\<exists>bs. as = ''set'' # bs \<and> flagged_ok [''--text''] 0 bs \<and> flag_value bs ''--text'' \<noteq> None))) \<or>
     (cmd = ''connect'' \<and> flagged_ok [''--password'', ''--server'', ''--timeout''] 1 as) \<or>
     (cmd = ''exec'' \<and> flagged_ok [''--command''] 0 as \<and> flag_value as ''--command'' \<noteq> None) \<or>
     (cmd = ''key'' \<and> flagged_ok [''--modifiers''] 1 as) \<or>
     (cmd = ''capture'' \<and>
        flagged_ok [''--display'', ''--format'', ''--quality'', ''--region'', ''--timeout''] 0 as)"

definition step_ok :: "BatchStep \<Rightarrow> bool" where
  "step_ok st = args_ok (command st) (args st)"

definition unparse :: "BatchStep list \<Rightarrow> string list" where
  "unparse steps = concat (map (\<lambda>st. command st # args st) steps)"

definition at_boundary :: "string list \<Rightarrow> bool" where
  "at_boundary rest = (case rest of [] \<Rightarrow> True | t # _ \<Rightarrow> is_step_command t)"

section \<open>The parser accepts exactly the grammar\<close>

lemma flagged_loop_sound:
  "flagged_loop vf req ts acc pos = Ok (acc', rest, pos') \<Longrightarrow>
     \<exists>as. acc' = acc @ as \<and> ts = as @ rest \<and> flagged_run vf req pos as = Some pos' \<and>
       (rest = [] \<or> req \<le> pos') \<and> at_boundary rest"
proof (induction vf req ts acc pos rule: flagged_loop.induct)
  case (2 vf req t ts acc pos)
  consider (stop) "req \<le> pos \<and> is_step_command t" | (flag) "\<not> (req \<le> pos \<and> is_step_command t)" "t \<in> set vf"
    | (pos) "\<not> (req \<le> pos \<and> is_step_command t)" "t \<notin> set vf" "\<not> starts_with t ''--''"
    using "2.prems" by (auto split: if_splits)
  then show ?case
  proof cases
    case stop
    with "2.prems" show ?thesis by (auto simp: at_boundary_def)
  next
    case flag
    with "2.prems" obtain v ts' where ts: "ts = v # ts'" by (cases ts) auto
    with flag "2.prems" "2.IH"(1) [OF flag ts] obtain as where
      "acc' = (acc @ [t, v]) @ as \<and> ts' = as @ rest \<and> flagged_run vf req pos as = Some pos' \<and>
        (rest = [] \<or> req \<le> pos') \<and> at_boundary rest" by auto
    with flag ts show ?thesis by (intro exI [of _ "t # v # as"]) simp
  next
    case pos
    with "2.prems" "2.IH"(2) [OF pos] obtain as where
      "acc' = (acc @ [t]) @ as \<and> ts = as @ rest \<and> flagged_run vf req (pos + 1) as = Some pos' \<and>
        (rest = [] \<or> req \<le> pos') \<and> at_boundary rest" by auto
    with pos show ?thesis by (intro exI [of _ "t # as"]) simp
  qed
qed (simp add: at_boundary_def)

lemma flagged_loop_complete:
  "flagged_run vf req pos as = Some pos' \<Longrightarrow> req \<le> pos' \<Longrightarrow> at_boundary rest \<Longrightarrow>
     flagged_loop vf req (as @ rest) acc pos = Ok (acc @ as, rest, pos')"
proof (induction vf req pos as arbitrary: acc rule: flagged_run.induct)
  case (1 vf req pos)
  then show ?case by (cases rest) (auto simp: at_boundary_def)
next
  case (2 vf req pos t ts)
  show ?case
  proof (cases "t \<in> set vf")
    case True
    with "2.prems" obtain v ts' where ts: "ts = v # ts'" by (cases ts) (auto split: if_splits)
    with True 2 show ?thesis by (simp split: if_splits)
  next
    case False
    with 2 show ?thesis by (simp split: if_splits)
  qed
qed

lemma click_loop_sound:
  "click_loop ts acc pos = Ok (acc', rest, pos') \<Longrightarrow>
     \<exists>as. acc' = acc @ as \<and> ts = as @ rest \<and> click_run pos as = Some pos' \<and> at_boundary rest"
proof (induction ts acc pos rule: click_loop.induct)
  case (2 t ts acc pos)
  consider (stop) "2 \<le> pos \<and> is_step_command t" | (flag) "\<not> (2 \<le> pos \<and> is_step_command t)" "t = ''--button''"
    | (dbl) "\<not> (2 \<le> pos \<and> is_step_command t)" "t \<noteq> ''--button''" "t = ''--double''"
    | (pos) "\<not> (2 \<le> pos \<and> is_step_command t)" "t \<noteq> ''--button''" "t \<noteq> ''--double''" "\<not> starts_with t ''--''"
    using "2.prems" by (auto split: if_splits)
  then show ?case
  proof cases
    case stop
    with "2.prems" show ?thesis by (auto simp: at_boundary_def)
  next
    case flag
    with "2.prems" obtain v ts' where ts: "ts = v # ts'" by (cases ts) auto
    with flag "2.prems" "2.IH"(1) [OF flag ts] obtain as where
      "acc' = (acc @ [t, v]) @ as \<and> ts' = as @ rest \<and> click_run pos as = Some pos' \<and> at_boundary rest"
      by auto
    with flag ts show ?thesis by (intro exI [of _ "t # v # as"]) simp
  next
    case dbl
    with "2.prems" "2.IH"(2) [OF dbl] obtain as where
      "acc' = (acc @ [t]) @ as \<and> ts = as @ rest \<and> click_run pos as = Some pos' \<and> at_boundary rest"
      by auto
    with dbl show ?thesis by (intro exI [of _ "t # as"]) simp
  next
    case pos
    with "2.prems" "2.IH"(3) [OF pos] obtain as where
      "acc' = (acc @ [t]) @ as \<and> ts = as @ rest \<and> click_run (pos + 1) as = Some pos' \<and> at_boundary rest"
      by auto
    with pos show ?thesis by (intro exI [of _ "t # as"]) simp
  qed
qed (simp add: at_boundary_def)

lemma click_loop_complete:
  "click_run pos as = Some pos' \<Longrightarrow> 2 \<le> pos' \<Longrightarrow> at_boundary rest \<Longrightarrow>
     click_loop (as @ rest) acc pos = Ok (acc @ as, rest, pos')"
proof (induction pos as arbitrary: acc rule: click_run.induct)
  case (1 pos)
  then show ?case by (cases rest) (auto simp: at_boundary_def)
next
  case (2 pos t ts)
  show ?case
  proof (cases "t = ''--button''")
    case True
    with "2.prems" obtain v ts' where ts: "ts = v # ts'" by (cases ts) (auto split: if_splits)
    with True 2 show ?thesis by (simp split: if_splits)
  next
    case False
    with 2 show ?thesis by (simp split: if_splits)
  qed
qed

lemma parse_flagged_step_iff:
  assumes "at_boundary rest"
  shows "parse_flagged_step ts vf req = Ok (as, rest) \<longleftrightarrow> ts = as @ rest \<and> flagged_ok vf req as"
proof
  assume "parse_flagged_step ts vf req = Ok (as, rest)"
  then obtain pos where "flagged_loop vf req ts [] 0 = Ok (as, rest, pos)" and "req \<le> pos"
    by (auto simp: parse_flagged_step_def bind_result_Ok_iff split: if_splits)
  with flagged_loop_sound [of vf req ts "[]" 0 as rest pos]
  show "ts = as @ rest \<and> flagged_ok vf req as" by (simp add: flagged_ok_def at_least_def)
next
  assume "ts = as @ rest \<and> flagged_ok vf req as"
  moreover from this obtain pos where "flagged_run vf req 0 as = Some pos" "req \<le> pos"
    by (auto simp: flagged_ok_def at_least_def split: option.splits)
  ultimately show "parse_flagged_step ts vf req = Ok (as, rest)"
    using flagged_loop_complete [of vf req 0 as pos rest "[]"] assms
    by (simp add: parse_flagged_step_def)
qed

lemma parse_click_step_iff:
  assumes "at_boundary rest"
  shows "parse_click_step ts = Ok (as, rest) \<longleftrightarrow> ts = as @ rest \<and> at_least 2 (click_run 0 as)"
proof
  assume "parse_click_step ts = Ok (as, rest)"
  then obtain pos where "click_loop ts [] 0 = Ok (as, rest, pos)" and "2 \<le> pos"
    by (auto simp: parse_click_step_def bind_result_Ok_iff split: if_splits)
  with click_loop_sound [of ts "[]" 0 as rest pos]
  show "ts = as @ rest \<and> at_least 2 (click_run 0 as)" by (simp add: at_least_def)
next
  assume "ts = as @ rest \<and> at_least 2 (click_run 0 as)"
  moreover from this obtain pos where "click_run 0 as = Some pos" "2 \<le> pos"
    by (auto simp: at_least_def split: option.splits)
  ultimately show "parse_click_step ts = Ok (as, rest)"
    using click_loop_complete [of 0 as pos rest "[]"] assms
    by (simp add: parse_click_step_def)
qed

lemma bind_pair_Ok_iff:
  "bind_result r (\<lambda>(a, b). if P a then bail m else Ok (f a, b)) = Ok (x, y) \<longleftrightarrow>
     (\<exists>a. r = Ok (a, y) \<and> \<not> P a \<and> f a = x)"
  by (auto simp: bind_result_Ok_iff split: if_splits prod.splits)

lemma parse_clipboard_step_iff:
  assumes "at_boundary rest"
  shows "parse_clipboard_step ts = Ok (as, rest) \<longleftrightarrow> ts = as @ rest \<and>
       (as = [''get''] \<or>
        (\<exists>bs. as = ''set'' # bs \<and> flagged_ok [''--text''] 0 bs \<and> flag_value bs ''--text'' \<noteq> None))"
proof (cases ts)
  case Nil
  then show ?thesis by (auto simp: parse_clipboard_step_def)
next
  case (Cons action ts')
  have "parse_clipboard_step (''set'' # ts') = Ok (as, rest) \<longleftrightarrow>
      (\<exists>bs. ts' = bs @ rest \<and> as = ''set'' # bs \<and> flagged_ok [''--text''] 0 bs \<and> flag_value bs ''--text'' \<noteq> None)"
    by (auto simp: parse_clipboard_step_def bind_pair_Ok_iff [where f = "(#) ''set''"]
        parse_flagged_step_iff [OF assms])
  moreover have "parse_clipboard_step (''get'' # ts') = Ok (as, rest) \<longleftrightarrow> as = [''get''] \<and> ts' = rest"
    by (auto simp: parse_clipboard_step_def)
  moreover have "parse_clipboard_step (action # ts') \<noteq> Ok (as, rest)"
    if "action \<noteq> ''get''" "action \<noteq> ''set''" using that by (simp add: parse_clipboard_step_def)
  ultimately show ?thesis
    using Cons by (cases "action = ''get''"; cases "action = ''set''") auto
qed

lemma take_args_iff: "take_args n msg ts = Ok (as, rest) \<longleftrightarrow> ts = as @ rest \<and> length as = n"
  by (auto simp: take_args_def split: if_splits)

lemma args_ok_command: "args_ok cmd as \<Longrightarrow> is_step_command cmd"
  by (auto simp: args_ok_def is_step_command_def step_commands_def)

lemma parse_step_unknown: "\<not> is_step_command cmd \<Longrightarrow> parse_step cmd ts = unknown_batch_command cmd"
  by (simp add: parse_step_def)

lemma parse_step_iff:
  assumes "at_boundary rest"
  shows "parse_step cmd ts = Ok (as, rest) \<longleftrightarrow> ts = as @ rest \<and> args_ok cmd as"
proof (cases "is_step_command cmd")
  case True
  note iffs = take_args_iff parse_click_step_iff [OF assms] parse_clipboard_step_iff [OF assms]
    parse_flagged_step_iff [OF assms] bind_pair_Ok_iff [where f = "\<lambda>a. a"]
  from True show ?thesis
    unfolding is_step_command_def step_commands_def set_simps insert_iff empty_iff
    by (elim disjE; simp add: is_step_command_def step_commands_def parse_step_def args_ok_def iffs;
        blast?)
next
  case False
  then show ?thesis
    using args_ok_command [of cmd as]
    by (auto simp: parse_step_unknown unknown_batch_command_def)
qed

lemma parse_batch_steps_boundary: "parse_batch_steps ts = Ok steps \<Longrightarrow> at_boundary ts"
proof (cases ts)
  case (Cons cmd ts')
  assume "parse_batch_steps ts = Ok steps"
  with Cons show ?thesis
    by (cases "is_step_command cmd")
      (simp_all add: at_boundary_def parse_step_unknown unknown_batch_command_def bail_def)
qed (simp add: at_boundary_def)

lemma unparse_boundary: "list_all step_ok steps \<Longrightarrow> at_boundary (unparse steps)"
  by (cases steps) (auto simp: at_boundary_def unparse_def step_ok_def args_ok_command)

lemma parse_batch_steps_sound:
  "parse_batch_steps ts = Ok steps \<Longrightarrow> ts = unparse steps \<and> list_all step_ok steps"
proof (induction ts arbitrary: steps rule: parse_batch_steps.induct)
  case (2 cmd ts)
  then obtain as rest steps' where step: "parse_step cmd ts = Ok (as, rest)"
    and rest: "parse_batch_steps rest = Ok steps'" and steps: "steps = \<lparr>command = cmd, args = as\<rparr> # steps'"
    by (auto simp: bind_result_Ok_iff split: sum.splits prod.splits)
  from parse_step_iff [OF parse_batch_steps_boundary [OF rest]] step
  have "ts = as @ rest" "args_ok cmd as" by auto
  with "2.IH" [OF step refl rest] steps show ?case by (simp add: unparse_def step_ok_def)
qed (simp add: unparse_def)

lemma parse_batch_steps_complete:
  "list_all step_ok steps \<Longrightarrow> parse_batch_steps (unparse steps) = Ok steps"
proof (induction steps)
  case (Cons st steps)
  then have "parse_step (command st) (args st @ unparse steps) = Ok (args st, unparse steps)"
    using unparse_boundary [of steps] by (simp add: step_ok_def [of st] parse_step_iff)
  with Cons show ?case by (simp add: unparse_def)
qed (simp add: unparse_def)

section \<open>Answers of well-formed steps\<close>

lemma unwrap_or_simps [simp]: "unwrap_or d None = d" "unwrap_or d (Some x) = x"
  by (simp_all add: unwrap_or_def)

lemma response_exits [simp]:
  "resp_exit (connect_response a b) = EXIT_SUCCESS" "resp_exit (disconnect_response c) = EXIT_SUCCESS"
  "resp_exit shell_response = EXIT_SUCCESS" "resp_exit (exec_response a d e f) = EXIT_SUCCESS"
  "resp_exit (clipboard_get_response a) = EXIT_SUCCESS" "resp_exit (clipboard_set_response a) = EXIT_SUCCESS"
  "resp_exit status_response = EXIT_SUCCESS" "resp_exit (displays_response r ds) = EXIT_SUCCESS"
  "resp_exit (capture_response a fm rg di t) = EXIT_SUCCESS" "resp_exit (type_response a) = EXIT_SUCCESS"
  "resp_exit (step_key as) = EXIT_SUCCESS" "resp_exit (step_click as) = EXIT_SUCCESS"
  "resp_exit (step_capture as) = EXIT_SUCCESS"
  "resp_exit (scroll_response x y z) = EXIT_SUCCESS" "resp_exit (move_response x y) = EXIT_SUCCESS"
  "resp_exit (drag_response x y x2 y2) = EXIT_SUCCESS"
  by (simp_all add: connect_response_def disconnect_response_def shell_response_def exec_response_def
      clipboard_get_response_def clipboard_set_response_def status_response_def displays_response_def
      capture_response_def type_response_def key_response_def click_response_def scroll_response_def
      move_response_def drag_response_def step_key_def step_click_def step_capture_def Let_def
      split: prod.splits)

lemma step_clipboard_exit: "args_ok ''clipboard'' as \<Longrightarrow> resp_exit (step_clipboard as) = EXIT_SUCCESS"
  by (auto simp: args_ok_def step_clipboard_def first_non_flag_arg_def)

lemma step_ok_exit: "step_ok st \<Longrightarrow> resp_exit (step_to_response render st) = EXIT_SUCCESS"
proof -
  assume ok: "step_ok st"
  then have "command st \<in> set step_commands"
    using args_ok_command [of "command st" "args st"] by (simp add: step_ok_def is_step_command_def)
  moreover have "resp_exit (step_clipboard (args st)) = EXIT_SUCCESS" if "command st = ''clipboard''"
    using ok that by (simp add: step_ok_def step_clipboard_exit)
  ultimately show ?thesis
    unfolding step_commands_def set_simps insert_iff empty_iff
    by (elim disjE) (simp_all add: step_to_response_def Let_def)
qed

text \<open>The answer to a step says that its command succeeded.\<close>

lemma step_clipboard_json:
  "args_ok ''clipboard'' as \<Longrightarrow> \<exists>ms. resp_json (step_clipboard as) = JObj ([(''ok'', JBool True), (''command'', JStr ''clipboard'')] @ ms)"
  by (auto simp: args_ok_def step_clipboard_def first_non_flag_arg_def clipboard_get_response_def
      clipboard_set_response_def Let_def)

lemma step_ok_json:
  assumes "step_ok st"
  shows "json_get (json_insert ''index'' i (resp_json (step_to_response render st))) ''index'' = Some i \<and>
    json_get (json_insert ''index'' i (resp_json (step_to_response render st))) ''ok'' = Some (JBool True) \<and>
    json_get (json_insert ''index'' i (resp_json (step_to_response render st))) ''command'' = Some (JStr (command st))"
proof -
  from assms have "command st \<in> set step_commands"
    using args_ok_command [of "command st" "args st"] by (simp add: step_ok_def is_step_command_def)
  moreover have "\<exists>ms. resp_json (step_clipboard (args st)) = JObj ([(''ok'', JBool True), (''command'', JStr ''clipboard'')] @ ms)"
    if "command st = ''clipboard''"
    using assms that step_clipboard_json [of "args st"] by (simp add: step_ok_def)
  ultimately show ?thesis
    unfolding step_commands_def set_simps insert_iff empty_iff
    by (elim disjE) (auto simp: step_to_response_def Let_def update_conv' connect_response_def disconnect_response_def
        shell_response_def exec_response_def status_response_def displays_response_def step_capture_def
        capture_response_def type_response_def step_key_def key_response_def step_click_def click_response_def
        scroll_response_def move_response_def drag_response_def split: option.splits prod.splits)
qed

lemma step_lines:
  "map (\<lambda>(i, r). f i r) (List.enumerate k (map g xs)) = map (\<lambda>i. f (k + i) (g (xs ! i))) [0..<length xs]"
  by (rule nth_equalityI) (simp_all add: nth_enumerate_eq)

lemma run_do_steps:
  assumes "parse_batch_steps ts = Ok steps"
  shows "run_do render jm True ts =
    (if jm then [Stdout (render (JObj [(''ok'', JBool True), (''command'', JStr ''do''),
       (''steps'', JArr (map (\<lambda>i. json_insert ''index'' (json_nat (1 + i)) (resp_json (step_to_response render (steps ! i))))
          [0..<length steps]))]))]
     else map (\<lambda>i. Stdout (show_nat (1 + i) @ '' '' @ resp_text (step_to_response render (steps ! i)))) [0..<length steps] @
       [Stdout (''ok steps='' @ show_nat (length steps))], EXIT_SUCCESS)"
  using assms by (simp add: run_do_def emit_batch_response_def do_response_def Let_def step_lines comp_def)

lemma not_flag_show_i32 [simp]: "\<not> starts_with (show_i32 w) ''--''"
proof
  assume *: "starts_with (show_i32 w) ''--''"
  obtain c r where cr: "show_nat (nat (- sint w)) = c # r" "c \<noteq> CHR ''-''"
    by (rule show_nat_Cons [of "nat (- sint w)"])
  obtain d q where dq: "show_nat (nat (sint w)) = d # q" "d \<noteq> CHR ''-''"
    by (rule show_nat_Cons [of "nat (sint w)"])
  from * cr dq show False by (simp add: show_i32_def show_int_def split: if_splits)
qed

lemma show_i32_neq_flag [simp]: "show_i32 w \<noteq> CHR ''-'' # CHR ''-'' # r"
  using not_flag_show_i32 [of w] by (auto simp del: not_flag_show_i32)

section \<open>Properties\<close>

text \<open>
  C32. The batch parser accepts exactly the step grammar. \<^verbatim>\<open>parse_batch_steps\<close> succeeds with a
  list of steps if and only if the tokens are those steps written one after the other, each a
  known command with arguments it takes; hence no token is lost, invented or moved between
  steps, parsing terminates on every input, and the reading of a batch is unique.
\<close>

theorem batch_parse_exact:
  "parse_batch_steps ts = Ok steps \<longleftrightarrow> ts = unparse steps \<and> list_all step_ok steps"
  using parse_batch_steps_sound parse_batch_steps_complete by blast

text \<open>
  Flags without a value hide a coordinate. In a batch, \<^verbatim>\<open>click x y --double\<close> is answered as
  a double click at \<open>(x, y)\<close>, but \<^verbatim>\<open>click --double x y\<close>, which the parser accepts too, as a
  double click at \<open>(y, 0)\<close>: \<^verbatim>\<open>positional_args\<close> takes the token after any flag for its value.
\<close>

theorem batch_click_double:
  "parse_batch_steps [''click'', ''--double'', show_i32 x, show_i32 y] =
     Ok [\<lparr>command = ''click'', args = [''--double'', show_i32 x, show_i32 y]\<rparr>] \<and>
   step_click [show_i32 x, show_i32 y, ''--double''] = click_response Left x y True \<and>
   step_click [''--double'', show_i32 x, show_i32 y] = click_response Left y 0 True"
  by (simp add: parse_step_def is_step_command_def step_commands_def parse_click_step_def step_click_def
      flag_present_def positional_args_def nth_i32_def)

text \<open>
  Regions. The text of a region with positive width and height parses back to it, and
  any text that parses gives a region with positive width and height.
\<close>

theorem region_roundtrip:
  "(0 < sint (reg_w r) \<and> 0 < sint (reg_h r) \<longrightarrow> region_from_str (region_as_text r) = Ok r) \<and>
   (region_from_str t = Ok q \<longrightarrow> 0 < sint (reg_w q) \<and> 0 < sint (reg_h q))"
proof
  have "split_char CHR '','' (region_as_text r) =
      [show_i32 (reg_x r), show_i32 (reg_y r), show_i32 (reg_w r), show_i32 (reg_h r)]"
    by (simp add: region_as_text_def split_char_append split_char_notin)
  then show "0 < sint (reg_w r) \<and> 0 < sint (reg_h r) \<longrightarrow> region_from_str (region_as_text r) = Ok r"
    by (simp add: region_from_str_def)
  show "region_from_str t = Ok q \<longrightarrow> 0 < sint (reg_w q) \<and> 0 < sint (reg_h q)"
    by (auto simp: region_from_str_def bind_result_Ok_iff split: list.splits if_splits)
qed

theorem region_roundtrip_witness:
  "region_from_str (region_as_text \<lparr>reg_x = - 5, reg_y = 0, reg_w = 640, reg_h = 480\<rparr>) =
     Ok \<lparr>reg_x = - 5, reg_y = 0, reg_w = 640, reg_h = 480\<rparr>"
  using region_roundtrip [of "\<lparr>reg_x = - 5, reg_y = 0, reg_w = 640, reg_h = 480\<rparr>"] by simp

end
