(* ===== verification/Direct.thy ===== *)
theory Direct
  imports Connection Exec File_Transfer Permissions Batch
begin

text \<open>
  The one-shot commands of \<^verbatim>\<open>src/main.rs\<close> that connect to a peer themselves instead of asking the daemon:
  \<^verbatim>\<open>direct_push\<close>, \<^verbatim>\<open>direct_exec\<close>, and the configuration they build.
\<close>

section \<open>Configuration\<close>

text \<open>\<^verbatim>\<open>s.rsplit_once(':')\<close>: what comes after the last colon, when there is one.\<close>

definition after_last_colon :: "string \<Rightarrow> string option" where
  "after_last_colon s =
     (if CHR '':'' \<in> set s then Some (rev (takeWhile (\<lambda>c. c \<noteq> CHR '':'') (rev s))) else None)"

definition infer_id_server_from_relay :: "string \<Rightarrow> string" where
  "infer_id_server_from_relay relay_srv =
     (let host = split_first CHR '':'' relay_srv;
          port = (case Option.bind (after_last_colon relay_srv) (parse_unsigned 16) of
                    Some p \<Rightarrow> if 0 < p - 1 then p - 1 else 21116
                  | None \<Rightarrow> 21116) in
      host @ '':'' @ show_nat port)"

definition build_direct_connection_config ::
  "string \<Rightarrow> string option \<Rightarrow> string option \<Rightarrow> string option \<Rightarrow> string option \<Rightarrow> string option \<Rightarrow> PeerConfig" where
  "build_direct_connection_config peer pw srv id_srv relay_srv key =
     \<lparr>id_server = (case id_srv of Some s \<Rightarrow> s
        | None \<Rightarrow> (case srv of Some s \<Rightarrow> split_first CHR '':'' s @ '':21116''
            | None \<Rightarrow> (case relay_srv of Some s \<Rightarrow> infer_id_server_from_relay s | None \<Rightarrow> ''localhost:21116''))),
      relay_server = (case relay_srv of Some s \<Rightarrow> s
        | None \<Rightarrow> (case srv of Some s \<Rightarrow> split_first CHR '':'' s @ '':21117'' | None \<Rightarrow> ''localhost:21117'')),
      server_key = (case key of Some k \<Rightarrow> k | None \<Rightarrow> []),
      cfg_peer_id = peer,
      cfg_password = (case pw of Some p \<Rightarrow> p | None \<Rightarrow> []),
      warmup_secs = 2\<rparr>"

section \<open>Push\<close>

text \<open>
  The machine: the connection's environment and randomness, how binding its UDP socket ends, the local files, the
  time of day.
\<close>

record direct_env =
  dr_conn :: conn_env
  dr_entropy :: entropy
  dr_bound :: "unit result"
  dr_fs :: local_fs
  dr_reads :: "nat result list"
  dr_nanos :: "nat \<Rightarrow> nat"

definition direct_connect :: "direct_env \<Rightarrow> string \<Rightarrow> nat \<Rightarrow> PeerConfig \<Rightarrow> ConnType \<Rightarrow> login_union option \<Rightarrow> HbbPeerInfo wio" where
  "direct_connect env what timeout_ms cfg ct lu =
     bind_async (timeout timeout_ms (connect_with_mode (dr_conn env) (dr_entropy env) (dr_bound env) cfg ct lu)) (\<lambda>r.
     lift_async (case r of None \<Rightarrow> bail what | Some q \<Rightarrow> q))"

definition push_all :: "ext \<Rightarrow> PushTransfer \<Rightarrow> PushTransfer async" where
  "push_all x t dl w =
     (case push_blocks x t w of
        (Done (Inr _), t', w') \<Rightarrow> (Done (Ok t'), w')
      | (Done (Inl e), t', w') \<Rightarrow> (Done (Err e), w')
      | (Elapsed, t', w') \<Rightarrow> (Elapsed, w')
      | (Hang, t', w') \<Rightarrow> (Hang, w'))"

definition direct_push :: "direct_env \<Rightarrow> PeerConfig \<Rightarrow> u64 \<Rightarrow> string \<Rightarrow> string \<Rightarrow> (u64 \<times> u64 \<times> u64) wio" where
  "direct_push env cfg timeout_secs local_path remote_path =
     (let x = ce_ext (dr_conn env) in
      bind_async (lift_async (remote_target_dir remote_path local_path)) (\<lambda>remote_dir.
      bind_async (direct_connect env (''direct push timed out after '' @ show_u64 timeout_secs @ ''s'')
        (1000 * unat timeout_secs) cfg FileTransfer (Some (LoginFileTransfer remote_dir False))) (\<lambda>_.
      bind_async now (\<lambda>t.
      bind_async (on_stream (push_begin x (dr_fs env) (dr_nanos env t) (dr_reads env) local_path remote_path)) (\<lambda>transfer.
      bind_async (on_stream (push_all x transfer)) (\<lambda>transfer.
      bind_async (on_stream (wait_for_done x transfer)) (\<lambda>_.
      bind_async (ignore_async stream_close) (\<lambda>_.
      return_async (pt_sent_bytes transfer, pt_total_bytes transfer, pt_resumed_bytes transfer)))))))))"

section \<open>Exec\<close>

definition MAX_EXEC_TIMEOUT_SECS :: u64 where "MAX_EXEC_TIMEOUT_SECS = 3600"

text \<open>In milliseconds.\<close>

definition exec_timeout_duration :: "u64 \<Rightarrow> nat" where
  "exec_timeout_duration timeout_secs = 1000 * unat (min timeout_secs MAX_EXEC_TIMEOUT_SECS)"

text \<open>\<^verbatim>\<open>let _ = close_terminal(...).await; bail!(...)\<close>, with no service id to reset.\<close>

abbreviation direct_bail :: "ext \<Rightarrow> i32 \<Rightarrow> string \<Rightarrow> 'a async" where
  "direct_bail x tid msg \<equiv> close_and_bail x tid False msg"

text \<open>Draining the prompt: the exit code when the terminal was closed.\<close>

function direct_drain :: "ext \<Rightarrow> i32 \<Rightarrow> i32 option async" where
  "direct_drain x tid dl w =
     (case recv_terminal_data_with_timeout x 500 dl w of
        (Done (Inr ev), w') \<Rightarrow>
          (case ev of
             EvData _ \<Rightarrow> direct_drain x tid dl w'
           | EvClosed ec \<Rightarrow> (Done (Ok (Some ec)), w')
           | EvError msg \<Rightarrow> direct_bail x tid (''terminal error during prompt drain: '' @ msg) dl w')
      | (Done (Inl e), w') \<Rightarrow>
          if is_terminal_response_timeout e then (Done (Ok None), w')
          else direct_bail x tid (''recv error during prompt drain: '' @ err_chain e) dl w'
      | (Elapsed, w') \<Rightarrow> (Elapsed, w')
      | (Hang, w') \<Rightarrow> (Hang, w'))"
  by pat_completeness auto
termination
  by (relation "measure (\<lambda>(x, tid, dl, w). length (inbox w))") (auto dest: recv_terminal_data_shorter)

declare direct_drain.simps [simp del]

text \<open>Collecting: the bytes and whether the time was up, or the output and exit code of a closed terminal.\<close>

datatype direct_collected = DCollected bytes bool | DClosed string i32

function direct_collect :: "ext \<Rightarrow> i32 \<Rightarrow> string \<Rightarrow> nat \<Rightarrow> bytes \<Rightarrow> direct_collected async" where
  "direct_collect x tid sentinel deadline acc dl w =
     (let remaining = deadline - clock w in
      if remaining = 0 then (Done (Ok (DCollected acc True)), w)
      else case recv_terminal_data_with_timeout x remaining dl w of
        (Done (Inr ev), w') \<Rightarrow>
          (case ev of
             EvData d \<Rightarrow>
               let acc' = acc @ d in
               if find_sentinel_output (from_utf8_lossy acc') sentinel \<noteq> None
               then (Done (Ok (DCollected acc' False)), w')
               else direct_collect x tid sentinel deadline acc' dl w'
           | EvClosed ec \<Rightarrow>
               bind_async (ignore_async (close_terminal x tid)) (\<lambda>_.
               return_async (DClosed (trim (from_utf8_lossy acc)) ec)) dl w'
           | EvError msg \<Rightarrow> direct_bail x tid (''terminal error during exec: '' @ msg) dl w')
      | (Done (Inl e), w') \<Rightarrow>
          if is_terminal_response_timeout e then (Done (Ok (DCollected acc True)), w')
          else direct_bail x tid (''recv error during exec: '' @ err_chain e) dl w'
      | (Elapsed, w') \<Rightarrow> (Elapsed, w')
      | (Hang, w') \<Rightarrow> (Hang, w'))"
  by pat_completeness auto
termination
  by (relation "measure (\<lambda>(x, tid, s, d, acc, dl, w). length (inbox w))") (auto dest!: recv_terminal_data_shorter)

declare direct_collect.simps [simp del]

text \<open>After the connection is made; \<open>nanos\<close> gives the time of day the sentinel is made of.\<close>

definition direct_terminal :: "ext \<Rightarrow> (nat \<Rightarrow> nat) \<Rightarrow> nat \<Rightarrow> string \<Rightarrow> (string \<times> i32 \<times> bool) async" where
  "direct_terminal x nanos completion_timeout cmd =
     bind_async (timeout 15000 (open_terminal x 24 80)) (\<lambda>r.
     bind_async (lift_async (case r of None \<Rightarrow> bail ''terminal open timed out'' | Some q \<Rightarrow> q)) (\<lambda>info.
     let tid = terminal_id info in
     bind_async (direct_drain x tid) (\<lambda>early.
     case early of
       Some ec \<Rightarrow> return_async ([], ec, False)
     | None \<Rightarrow>
         bind_async now (\<lambda>t0.
         let sentinel = sentinel_of (nanos t0) in
         bind_async (send_terminal_data x tid
           (str_bytes (cmd @ [CHR 0x0A] @ echo_command sentinel @ ''$?'' @ [CHR 0x0A]))) (\<lambda>_.
         bind_async now (\<lambda>t.
         bind_async (direct_collect x tid sentinel (t + completion_timeout) []) (\<lambda>c.
         case c of
           DClosed stdout ec \<Rightarrow> return_async (stdout, ec, False)
         | DCollected acc timed_out \<Rightarrow>
             bind_async (ignore_async (close_terminal x tid)) (\<lambda>_.
             bind_async (ignore_async stream_close) (\<lambda>_.
             case parse_direct_exec_output (from_utf8_lossy acc) sentinel of (stdout, ec) \<Rightarrow>
               return_async (stdout, ec, timed_out))))))))))"

definition direct_exec :: "direct_env \<Rightarrow> PeerConfig \<Rightarrow> u64 \<Rightarrow> string \<Rightarrow> (string \<times> i32 \<times> bool) wio" where
  "direct_exec env cfg timeout_secs cmd =
     (let timeout_duration = exec_timeout_duration timeout_secs in
      bind_async (direct_connect env (''direct exec timed out after '' @ show_u64 timeout_secs @ ''s'')
        timeout_duration cfg TerminalConn (Some (LoginTerminal []))) (\<lambda>_.
      on_stream (direct_terminal (ce_ext (dr_conn env)) (dr_nanos env) timeout_duration cmd)))"

section \<open>Lemmas\<close>

lemma direct_collect_iff:
  "direct_collect x tid s deadline acc dl w = (Done (Ok (DCollected b t)), w') \<longleftrightarrow>
   collect_loop x ser False tid cmd s deadline acc dl w = (Done (Ok (Collected b t)), w')"
proof (induction "length (inbox w)" arbitrary: w acc rule: less_induct)
  case (less w)
  note steps = direct_collect.simps [of x tid s deadline acc dl w]
    collect_loop.simps [of x ser False tid cmd s deadline acc dl w]
  show ?case
  proof (cases "deadline - clock w = 0")
    case True
    then show ?thesis by (auto simp: steps)
  next
    case False
    obtain r w1 where r: "recv_terminal_data_with_timeout x (deadline - clock w) dl w = (r, w1)" by force
    show ?thesis
    proof (cases "\<exists>d. r = Done (Ok (EvData d))")
      case True
      then obtain d where d: "r = Done (Ok (EvData d))" by blast
      then have "length (inbox w1) < length (inbox w)" using r by (metis recv_terminal_data_shorter)
      from less [OF this] r d False show ?thesis by (simp add: steps Let_def)
    next
      case no: False
      show ?thesis
      proof (cases r)
        case (Done q)
        with no r False show ?thesis by (cases q; cases "projr q") (auto simp: steps Let_def)
      qed (use r False in \<open>auto simp: steps\<close>)
    qed
  qed
qed

lemma direct_drain_ends:
  assumes "inbox w = pre @ post" and "quiet_until (arrival (clock w) pre + 500) post"
  shows "\<exists>r w'. direct_drain x tid None w = (Done r, w') \<and> clock w \<le> clock w' \<and> clock w' \<le> arrival (clock w) pre + 500"
  using assms
proof (induction "length (inbox w)" arbitrary: w pre rule: less_induct)
  case (less w)
  note step = direct_drain.simps [of x tid None w]
  obtain r w1 where r: "recv_terminal_data_with_timeout x 500 None w = (Done r, w1)"
    by (rule recv_terminal_data_bounded)
  note b = recv_before_silence [OF r less.prems]
  show ?case
  proof (cases "\<exists>d. r = Ok (EvData d)")
    case True
    then obtain d where d: "r = Ok (EvData d)" ..
    then have "length (inbox w1) < length (inbox w)" using r by (metis recv_terminal_data_shorter)
    moreover obtain j where "inbox w1 = drop j pre @ post" "arrival (clock w1) (drop j pre) = arrival (clock w) pre"
      using b(3) [OF d] by blast
    ultimately show ?thesis using less.hyps [of w1 "drop j pre"] less.prems(2) r d b(1) by (fastforce simp: step)
  next
    case no: False
    with r b show ?thesis by (cases r; cases "projr r") (auto simp: step)
  qed
qed

lemma direct_drain_run:
  assumes "list_all2 (is_chunk x) prompts ds" and "inbox w = prompts @ rest"
    and "paced (clock w) 500 prompts" and "quiet_until (arrival (clock w) prompts + 500) rest"
  shows "direct_drain x tid None w =
    (Done (Ok None), w\<lparr>clock := arrival (clock w) prompts + 500, inbox := rest\<rparr>)"
  using assms
proof (induction prompts ds arbitrary: w rule: list_all2_induct)
  case Nil
  then obtain e where "recv_terminal_data_with_timeout x 500 None w = (Done (Err e), w\<lparr>clock := clock w + 500\<rparr>)"
    "is_terminal_response_timeout e"
    using recv_terminal_data_quiet [of w 500 x] by auto
  with Nil show ?case by (cases w) (simp add: direct_drain.simps [of x tid None])
next
  case (Cons m ms d ds)
  obtain t r where m: "m = (t, r)" by force
  with Cons.prems Cons.hyps recv_terminal_data_chunk [of w m "ms @ rest" x d 500]
  have "direct_drain x tid None w = direct_drain x tid None (w\<lparr>clock := max t (clock w), inbox := ms @ rest\<rparr>)"
    by (simp add: direct_drain.simps [of x tid None w])
  with Cons.prems m show ?case by (simp add: Cons.IH)
qed

lemma direct_collect_bounded:
  "\<exists>r w'. direct_collect x tid s deadline acc None w = (Done r, w') \<and>
     clock w \<le> clock w' \<and> clock w' \<le> max (clock w) deadline"
proof (induction "length (inbox w)" arbitrary: w acc rule: less_induct)
  case (less w)
  note step = direct_collect.simps [of x tid s deadline acc None w]
  show ?case
  proof (cases "deadline - clock w = 0")
    case True
    then show ?thesis by (simp add: step)
  next
    case False
    obtain r w1 where r: "recv_terminal_data_with_timeout x (deadline - clock w) None w = (Done r, w1)"
      "clock w \<le> clock w1" "clock w1 \<le> clock w + (deadline - clock w)"
      by (rule recv_terminal_data_bounded)
    show ?thesis
    proof (cases "\<exists>d. r = Ok (EvData d)")
      case True
      then obtain d where d: "r = Ok (EvData d)" by blast
      then have "length (inbox w1) < length (inbox w)" using r(1) by (metis recv_terminal_data_shorter)
      from less [OF this, of "acc @ d"] r d False show ?thesis
        by (cases "find_sentinel_output (from_utf8_lossy (acc @ d)) s = None") (auto simp: step Let_def)
    next
      case no: False
      with r False show ?thesis by (cases r; cases "projr r") (auto simp: step Let_def)
    qed
  qed
qed

lemma stream_close_clock:
  obtains w' where "ignore_async stream_close None w = (Done (Ok ()), w')" and "clock w' = clock w"
proof -
  have "\<exists>w'. ignore_async stream_close None w = (Done (Ok ()), w') \<and> clock w' = clock w"
    by (auto simp: ignore_async_def try_async_def bind_async_def stream_close_def split: list.splits option.splits)
  then show ?thesis using that by blast
qed

text \<open>What comes after the prompt is drained takes no longer than the completion timeout.\<close>

definition direct_rest :: "ext \<Rightarrow> (nat \<Rightarrow> nat) \<Rightarrow> nat \<Rightarrow> string \<Rightarrow> i32 \<Rightarrow> i32 option \<Rightarrow> (string \<times> i32 \<times> bool) async" where
  "direct_rest x nanos completion_timeout cmd tid early =
     (case early of
       Some ec \<Rightarrow> return_async ([], ec, False)
     | None \<Rightarrow>
         bind_async now (\<lambda>t0.
         let sentinel = sentinel_of (nanos t0) in
         bind_async (send_terminal_data x tid
           (str_bytes (cmd @ [CHR 0x0A] @ echo_command sentinel @ ''$?'' @ [CHR 0x0A]))) (\<lambda>_.
         bind_async now (\<lambda>t.
         bind_async (direct_collect x tid sentinel (t + completion_timeout) []) (\<lambda>c.
         case c of
           DClosed stdout ec \<Rightarrow> return_async (stdout, ec, False)
         | DCollected acc timed_out \<Rightarrow>
             bind_async (ignore_async (close_terminal x tid)) (\<lambda>_.
             bind_async (ignore_async stream_close) (\<lambda>_.
             case parse_direct_exec_output (from_utf8_lossy acc) sentinel of (stdout, ec) \<Rightarrow>
               return_async (stdout, ec, timed_out))))))))"

lemma direct_terminal_split:
  "direct_terminal x nanos completion_timeout cmd =
     bind_async (timeout 15000 (open_terminal x 24 80)) (\<lambda>r.
     bind_async (lift_async (case r of None \<Rightarrow> bail ''terminal open timed out'' | Some q \<Rightarrow> q)) (\<lambda>info.
     bind_async (direct_drain x (terminal_id info)) (direct_rest x nanos completion_timeout cmd (terminal_id info))))"
  unfolding direct_terminal_def direct_rest_def Let_def ..

lemma direct_rest_ends:
  "\<exists>r w'. direct_rest x nanos d cmd tid early None w = (Done r, w') \<and> clock w \<le> clock w' \<and> clock w' \<le> clock w + d"
proof (cases early)
  case None
  let ?s = "sentinel_of (nanos (clock w))"
  obtain r w1 where r: "send_terminal_data x tid (str_bytes (cmd @ [CHR 0x0A] @ echo_command ?s @ ''$?'' @ [CHR 0x0A])) None w =
      (Done r, w1)" "clock w1 = clock w" by (rule send_terminal_data_clock)
  obtain q w2 where q: "direct_collect x tid ?s (clock w1 + d) [] None w1 = (Done q, w2)" "clock w1 \<le> clock w2" "clock w2 \<le> clock w1 + d"
    using direct_collect_bounded [of x tid ?s "clock w1 + d" "[]" w1] by auto
  obtain w3 where w3: "ignore_async stream_close None (after_close x tid w2) = (Done (Ok ()), w3)" "clock w3 = clock w2"
    using stream_close_clock [of "after_close x tid w2"] by auto
  show ?thesis
  proof (cases r)
    case (Inr u)
    with r q w3 None show ?thesis
      by (cases q; cases "projr q")
        (auto simp: direct_rest_def Let_def bind_async_def [of "send_terminal_data x tid d" for d] bind_async_def [of now]
          bind_async_def [of "direct_collect x tid s d []" for s d] bind_async_def [of "ignore_async stream_close"]
          now_def split: prod.splits)
  qed (use r None in \<open>simp add: direct_rest_def bind_async_def now_def Let_def\<close>)
qed (simp add: direct_rest_def)

lemma direct_terminal_ends:
  assumes "inbox w = pre @ post" and "quiet_until (arrival (clock w + 15000) pre + 500) post"
  shows "\<exists>r w'. direct_terminal x nanos d cmd None w = (Done r, w') \<and>
    clock w' \<le> arrival (clock w + 15000) pre + 500 + d"
proof -
  let ?c = "clock w + 15000"
  obtain r w1 j where r: "timeout 15000 (open_terminal x 24 80) None w = (Done (Ok r), w1)" "clock w1 \<le> ?c"
    and j: "inbox w1 = drop j pre @ post" and le: "arrival (clock w1) (drop j pre) \<le> arrival ?c pre"
    by (rule open_before_silence [OF assms])
  show ?thesis
  proof (cases "\<exists>info. r = Some (Ok info)")
    case True
    then obtain info where info: "r = Some (Ok info)" ..
    from direct_drain_ends [of w1 "drop j pre" post x "terminal_id info"] j quiet_until_mono [OF assms(2)] le
    obtain q w2 where q: "direct_drain x (terminal_id info) None w1 = (Done q, w2)" "clock w2 \<le> arrival ?c pre + 500"
      by fastforce
    with r info direct_rest_ends [of x nanos d cmd "terminal_id info" "projr q" w2]
    show ?thesis by (cases q) (fastforce simp: direct_terminal_split bind_async_def)+
  next
    case False
    with r arrival_ge [of ?c pre] show ?thesis
      by (cases r; cases "the r") (auto simp: direct_terminal_split bind_async_def bail_def)
  qed
qed

lemma direct_waits:
  assumes "inbox w = (ot, Ok rawo) # prompts @ post" and "faults w = []"
    and "dec_msg x rawo = Ok (MTerminalResponse (Some (ROpened op)))" and "op_success op" and "ot \<le> clock w + 15000"
    and "list_all2 (is_chunk x) prompts ps" and "paced (max ot (clock w)) 500 prompts"
    and "quiet_until (arrival (max ot (clock w)) prompts + 500) post"
    and "direct_terminal x nanos d cmd None w = (Done r, w')"
  shows "arrival (max ot (clock w)) prompts + 500 \<le> clock w'"
proof -
  let ?w = "w\<lparr>clock := max ot (clock w), inbox := prompts @ post,
    outbox := outbox w @ [enc_msg x (MTerminalAction (Some (TOpen 0 24 80)))]\<rparr>"
  let ?w2 = "?w\<lparr>clock := arrival (max ot (clock w)) prompts + 500, inbox := post\<rparr>"
  have "direct_drain x (op_terminal_id op) None ?w = (Done (Ok None), ?w2)"
    using direct_drain_run [OF assms(6), of ?w post "op_terminal_id op"] assms(7,8) by simp
  then have "direct_terminal x nanos d cmd None w = direct_rest x nanos d cmd (op_terminal_id op) None None ?w2"
    using open_run [OF assms(1,3,4,2,5)] by (simp add: direct_terminal_split bind_async_def EXEC_TERMINAL_OPEN_TIMEOUT_def)
  with assms(9) direct_rest_ends [of x nanos d cmd "op_terminal_id op" None ?w2] show ?thesis by auto
qed

lemma direct_terminal_waits:
  assumes "inbox w = pre @ post" and "quiet_until (arrival (clock w + 15000) pre + 500) post"
    and "direct_terminal x nanos d cmd None w = (Done r, w')" and "keeps_printing x w 500 pre t"
  shows "t + 500 \<le> clock w'"
proof -
  from assms(4) obtain ot rawo op prompts ps where run: "pre = (ot, Ok rawo) # prompts" "faults w = []"
    "dec_msg x rawo = Ok (MTerminalResponse (Some (ROpened op)))" "op_success op" "ot \<le> clock w + 15000"
    "list_all2 (is_chunk x) prompts ps" "paced (max ot (clock w)) 500 prompts" "t = arrival (max ot (clock w)) prompts"
    by (auto simp: keeps_printing_def)
  have "t \<le> arrival (clock w + 15000) pre" using run(1,5,8) by (auto intro: arrival_mono)
  then have "quiet_until (t + 500) post" by (intro quiet_until_mono [OF assms(2)]) simp
  with run assms(1,3) show ?thesis using direct_waits [of w ot rawo prompts post x op ps] by simp
qed

section \<open>Properties\<close>


definition demo_direct :: direct_env where
  "demo_direct = \<lparr>dr_conn = peer_env, dr_entropy = demo_entropy, dr_bound = Ok (),
     dr_fs = \<lparr>fs_metadata = (\<lambda>_. Err []), fs_open = (\<lambda>_. Err []), fs_seek = (\<lambda>_ _. Err [])\<rparr>, dr_reads = [],
     dr_nanos = (\<lambda>_. 0)\<rparr>"


end
