(* ===== verification/Cli.thy ===== *)
theory Cli
  imports Daemon_Process Direct Capture Base64
begin

text \<open>
  \<^verbatim>\<open>main\<close> and \<^verbatim>\<open>run\<close> of \<^verbatim>\<open>src/main.rs\<close>: one command line from its parsed arguments to its exit code. The parsing
  itself is \<^verbatim>\<open>clap\<close>'s. What a command does to the outside is a list of effects in the order in which they happen; how
  the outside answers is the record \<open>cli_env\<close>.
\<close>

section \<open>The command line\<close>

record server_opts =
  so_password :: "string option"
  so_server :: "string option"
  so_id_server :: "string option"
  so_relay_server :: "string option"
  so_key :: "string option"

datatype ClipboardCommands = ClipGet | ClipSet string

text \<open>
  The arguments in the order of the source, those of the servers together: \<open>CmdConnect\<close> has the id, \<^verbatim>\<open>--terminal\<close>,
  \<^verbatim>\<open>--password-stdin\<close>, the servers and the timeout.
\<close>

datatype Commands =
    CmdConnect string bool bool server_opts u64
  | CmdDisconnect
  | CmdShell
  | CmdExec string u64 "string option" server_opts
  | CmdPush string string "string option" server_opts u64
  | CmdClipboard ClipboardCommands
  | CmdStatus
  | CmdDisplays
  | CmdCapture "string option" "i32 option" "CaptureFormat option" u8 u64 "Region option"
  | CmdType string
  | CmdKey string "Modifier list"
  | CmdClick MouseButton bool i32 i32
  | CmdScroll i32 i32 i32
  | CmdMove i32 i32
  | CmdDrag i32 i32 i32 i32
  | CmdDo "string list"

record Cli =
  cli_json :: bool
  cli_skip_permissions :: bool
  cli_sandbox :: bool
  cli_command :: Commands

text \<open>What \<^verbatim>\<open>Cli::try_parse\<close> fails with: a request for help or the version, or an error.\<close>

datatype clap_error = HelpOrVersion | UsageError

text \<open>\<^verbatim>\<open>src/version.rs\<close>; the version is what \<^verbatim>\<open>clap\<close> prints for \<^verbatim>\<open>--version\<close>.\<close>

definition VERSION :: string where "VERSION = CARGO_PKG_VERSION"

definition version_info :: string where "version_info = ''rustdesk-cli '' @ VERSION"

section \<open>Effects and environment\<close>

text \<open>
  \<open>AskDaemon\<close> is a command handed to the running daemon, \<open>StartDaemon\<close> the start of a daemon process, \<open>Dial\<close> a
  connection to a peer. \<open>Chunk\<close> is text printed as it is, \<open>Progress\<close> the line of a push with its numbers, \<open>Wrote\<close>
  image bytes for a file or for \<^verbatim>\<open>stdout\<close>, \<open>TermOut\<close> what a terminal session showed.
\<close>

datatype effect =
    AskDaemon SessionCommand
  | StartDaemon "string list"
  | Dial PeerConfig ConnType
  | Printed line
  | Chunk string
  | Progress nat nat nat
  | Wrote "string option" bytes
  | TermOut bytes

datatype finish = Exit i32 | Waits | Panics

text \<open>
  The outside of one run: the sandbox configuration, the user at each prompt, the line read for
  \<^verbatim>\<open>--password-stdin\<close>, JSON, how creating the runtime ends, the daemon's files when they are first looked at and
  when a command is sent, the daemon's socket, how starting a daemon goes on, the network for direct connections, what
  happens in a terminal session, and how writing an image ends.
\<close>

record cli_env =
  cl_machine :: machine
  cl_user :: "nat \<Rightarrow> user"
  cl_stdin :: "string result"
  cl_render :: "json \<Rightarrow> string"
  cl_runtime :: "unit result"
  cl_proc :: proc_env
  cl_files :: daemon_files
  cl_files_later :: daemon_files
  cl_uds :: uds_env
  cl_spawned :: "unit result"
  cl_obs :: "nat \<Rightarrow> daemon_files"
  cl_direct :: direct_env
  cl_world :: world
  cl_vars :: "string \<Rightarrow> string option"
  cl_term :: "term_input list"
  cl_write :: "string option \<Rightarrow> bytes \<Rightarrow> unit result"

type_synonym ran = "effect list \<times> finish"

definition after :: "effect list \<Rightarrow> ran \<Rightarrow> ran" where
  "after es r = (es @ fst r, snd r)"

definition emit :: "cli_env \<Rightarrow> bool \<Rightarrow> Response \<Rightarrow> ran" where
  "emit env jm resp = (case emit_response (cl_render env) jm resp of (ls, ec) \<Rightarrow> (map Printed ls, Exit ec))"

definition emit_error :: "cli_env \<Rightarrow> bool \<Rightarrow> string \<Rightarrow> string \<Rightarrow> string \<Rightarrow> i32 \<Rightarrow> ran" where
  "emit_error env jm name ecode msg ec = emit env jm (error_response name ecode msg ec)"

abbreviation connection_error :: "cli_env \<Rightarrow> bool \<Rightarrow> string \<Rightarrow> string \<Rightarrow> ran" where
  "connection_error env jm name msg \<equiv> emit_error env jm name ''connection_error'' msg EXIT_CONNECTION"

section \<open>Asking the daemon\<close>

definition send_to_daemon :: "cli_env \<Rightarrow> SessionCommand \<Rightarrow> SessionResponse result" where
  "send_to_daemon env cmd =
     bind_result (cl_runtime env) (\<lambda>_. send_command (cl_proc env) (cl_files_later env) (cl_uds env) cmd)"

text \<open>
  The shape of most commands: ask, answer with \<open>ok\<close> on success and with an error otherwise, whose text is that of the
  daemon or else \<open>failed\<close>.
\<close>

definition ask_daemon ::
  "cli_env \<Rightarrow> bool \<Rightarrow> string \<Rightarrow> SessionCommand \<Rightarrow> string \<Rightarrow> (SessionResponse \<Rightarrow> ran) \<Rightarrow> ran" where
  "ask_daemon env jm name cmd failed ok =
     after [AskDaemon cmd]
       (case send_to_daemon env cmd of
          Inr resp \<Rightarrow> if success resp then ok resp
            else connection_error env jm name (unwrap_or failed (message resp))
        | Inl e \<Rightarrow> connection_error env jm name (err_display e))"

text \<open>A member of the data of a response, \<^verbatim>\<open>data.get(k).and_then(f).unwrap_or(d)\<close> where no data is the empty object.\<close>

definition data_member :: "SessionResponse \<Rightarrow> string \<Rightarrow> (json \<Rightarrow> 'a option) \<Rightarrow> 'a \<Rightarrow> 'a" where
  "data_member resp k f d = unwrap_or d (Option.bind (json_get (unwrap_or (JObj []) (data resp)) k) f)"

section \<open>Connect\<close>

text \<open>\<^verbatim>\<open>run_terminal_session\<close> of \<^verbatim>\<open>terminal.rs\<close> with its connection.\<close>

definition run_terminal_session ::
  "direct_env \<Rightarrow> (string \<Rightarrow> string option) \<Rightarrow> term_input list \<Rightarrow> PeerConfig \<Rightarrow> world \<Rightarrow> unit result outcome \<times> bytes \<times> world" where
  "run_terminal_session env vars evs cfg w =
     (let x = ce_ext (dr_conn env) in
      case bind_async (connect_with_mode (dr_conn env) (dr_entropy env) (dr_bound env) cfg TerminalConn
             (Some (LoginTerminal []))) (\<lambda>info. on_stream (connect_terminal x vars (return_async info))) None w of
        (Done (Inr (info, ti)), w') \<Rightarrow>
          (case terminal_loop x (terminal_id ti) evs [] (net.truncate w') of
             (Some r, out, n) \<Rightarrow> (Done r, out, net.extend n (net.more w'))
           | (None, out, n) \<Rightarrow> (Hang, out, net.extend n (net.more w')))
      | (Done (Inl e), w') \<Rightarrow> (Done (Err e), [], w')
      | (Elapsed, w') \<Rightarrow> (Elapsed, [], w')
      | (Hang, w') \<Rightarrow> (Hang, [], w'))"

definition opts_config :: "string \<Rightarrow> server_opts \<Rightarrow> PeerConfig" where
  "opts_config peer so = build_direct_connection_config peer (so_password so) (so_server so) (so_id_server so)
     (so_relay_server so) (so_key so)"

definition connect_in_terminal :: "cli_env \<Rightarrow> bool \<Rightarrow> string \<Rightarrow> server_opts \<Rightarrow> ran" where
  "connect_in_terminal env jm peer so =
     (if jm then
        emit_error env jm ''connect'' ''input_error'' ''--json is not supported with interactive --terminal mode'' EXIT_INPUT
      else if \<not> is_ok (cl_runtime env) then ([], Panics)
      else
        let cfg = opts_config peer so in
        case run_terminal_session (cl_direct env) (cl_vars env) (cl_term env) cfg (cl_world env) of
          (r, out, _) \<Rightarrow>
            after [Dial cfg TerminalConn, TermOut out]
              (case r of
                 Done (Inr _) \<Rightarrow> ([], Exit EXIT_SUCCESS)
               | Done (Inl e) \<Rightarrow> if is_panic e then ([], Panics) else connection_error env jm ''connect'' (err_display e)
               | _ \<Rightarrow> ([], Waits)))"

definition connect_daemon :: "cli_env \<Rightarrow> bool \<Rightarrow> string \<Rightarrow> server_opts \<Rightarrow> u64 \<Rightarrow> ran" where
  "connect_daemon env jm peer so timeout_secs =
     after (if is_ok (fst (cleanup_stale_daemon_artifacts (cl_proc env) (cl_files env))) \<and> is_ok (pe_exe (cl_proc env))
            then [StartDaemon (spawn_args peer (so_password so) (so_server so) (so_id_server so) (so_relay_server so)
                    (so_key so) (Some timeout_secs))] else [])
       (case fst (spawn_daemon (cl_proc env) (cl_files env) (cl_spawned env) (cl_obs env) (Some timeout_secs)) of
          Inr _ \<Rightarrow> emit env jm (connect_response peer (so_server so))
        | Inl e \<Rightarrow> connection_error env jm ''connect'' (err_display e))"

definition connect_command ::
  "cli_env \<Rightarrow> bool \<Rightarrow> PermissionManager \<Rightarrow> string \<Rightarrow> bool \<Rightarrow> bool \<Rightarrow> server_opts \<Rightarrow> u64 \<Rightarrow> ran" where
  "connect_command env jm pm peer terminal_mode password_stdin so timeout_secs =
     (if so_password so \<noteq> None \<and> password_stdin then
        ([Printed (Stderr ''error: --password and --password-stdin are mutually exclusive'')], Exit EXIT_INPUT)
      else
        case (if password_stdin then
                (case cl_stdin env of
                   Inl e \<Rightarrow> None
                 | Inr line \<Rightarrow> if line = [] then None else Some (Some (trim_end_matches [CHR 0x0A] line)))
              else Some (so_password so)) of
          None \<Rightarrow> ([Printed (Stderr ''error: failed to read password from stdin'')], Exit EXIT_INPUT)
        | Some pw \<Rightarrow>
            let so = so\<lparr>so_password := pw\<rparr> in
            (case ensure_connect_allowed pm (cl_user env 0) peer of
               Inl e \<Rightarrow> emit_error env jm ''connect'' ''permission_error'' (err_display e) EXIT_PERMISSION
             | Inr _ \<Rightarrow>
                 if terminal_mode then connect_in_terminal env jm peer so
                 else connect_daemon env jm peer so timeout_secs))"

section \<open>Exec\<close>

definition exec_direct_response :: "string \<Rightarrow> string \<Rightarrow> i32 \<Rightarrow> bool \<Rightarrow> Response" where
  "exec_direct_response cmd stdout ec timed_out =
     \<lparr>resp_text = ''exec exit_code='' @ show_i32 ec @ '' stdout='' @ stdout,
      resp_json = JObj [(''ok'', JBool True), (''command'', JStr ''exec''),
        (''data'', JObj [(''command'', JStr cmd), (''stdout'', JStr stdout), (''stderr'', JStr []),
          (''exit_code'', json_i32 ec), (''timed_out'', JBool timed_out)])],
      resp_exit = EXIT_SUCCESS\<rparr>"

text \<open>How a direct operation ends: the runtime must be there, and the operation may wait for ever or panic.\<close>

definition run_direct ::
  "cli_env \<Rightarrow> bool \<Rightarrow> string \<Rightarrow> PeerConfig \<Rightarrow> ConnType \<Rightarrow> 'a wio \<Rightarrow> ('a \<Rightarrow> Response) \<Rightarrow> ran" where
  "run_direct env jm name cfg ct m answer =
     (case cl_runtime env of
        Inl e \<Rightarrow> connection_error env jm name (err_display e)
      | Inr _ \<Rightarrow>
          after [Dial cfg ct]
            (case fst (m None (cl_world env)) of
               Done (Inr v) \<Rightarrow> emit env jm (answer v)
             | Done (Inl e) \<Rightarrow> if is_panic e then ([], Panics) else connection_error env jm name (err_display e)
             | _ \<Rightarrow> ([], Waits)))"

definition exec_direct :: "cli_env \<Rightarrow> bool \<Rightarrow> string \<Rightarrow> u64 \<Rightarrow> string \<Rightarrow> server_opts \<Rightarrow> ran" where
  "exec_direct env jm cmd timeout_secs peer so =
     (let cfg = opts_config peer so in
      run_direct env jm ''exec'' cfg TerminalConn (direct_exec (cl_direct env) cfg timeout_secs cmd)
        (\<lambda>(stdout, ec, timed_out). exec_direct_response cmd stdout ec timed_out))"

definition build_exec_session_command :: "string \<Rightarrow> u64 \<Rightarrow> SessionCommand" where
  "build_exec_session_command cmd timeout_secs = Exec cmd (Some timeout_secs)"

text \<open>The closure that prints the chunks of the output.\<close>

definition exec_chunk :: "bool \<Rightarrow> SessionResponse \<Rightarrow> string option" where
  "exec_chunk jm resp =
     (case data resp of
        None \<Rightarrow> None
      | Some d \<Rightarrow>
          if Option.bind (json_get d ''kind'') as_str \<noteq> Some ''chunk'' then None
          else if jm then None
          else Option.bind (json_get d ''chunk'') as_str)"

definition exec_daemon :: "cli_env \<Rightarrow> bool \<Rightarrow> string \<Rightarrow> u64 \<Rightarrow> ran" where
  "exec_daemon env jm cmd timeout_secs =
     (case send_to_daemon_streaming (cl_proc env) (cl_files_later env) (cl_uds env)
             (build_exec_session_command cmd timeout_secs) of
        (seen, r) \<Rightarrow>
          let chunks = List.map_filter (exec_chunk jm) seen in
          after (AskDaemon (build_exec_session_command cmd timeout_secs) # map Chunk chunks)
            (case r of
               Inr resp \<Rightarrow>
                 if success resp then
                   let stdout = data_member resp ''stdout'' as_str [];
                       stderr = data_member resp ''stderr'' as_str [];
                       ec = (word_of_int (data_member resp ''exit_code'' as_i64 0) :: i32) in
                   emit env jm
                     (if jm then exec_response cmd stdout stderr ec
                      else if chunks \<noteq> [] then
                        exec_streaming_response ec (data_member resp ''timed_out'' as_bool False)
                      else exec_response cmd stdout stderr ec)
                 else connection_error env jm ''exec'' (unwrap_or ''exec failed'' (message resp))
             | Inl e \<Rightarrow> connection_error env jm ''exec'' (err_display e)))"

definition exec_cli ::
  "cli_env \<Rightarrow> bool \<Rightarrow> PermissionManager \<Rightarrow> string \<Rightarrow> u64 \<Rightarrow> string option \<Rightarrow> server_opts \<Rightarrow> ran" where
  "exec_cli env jm pm cmd timeout_secs peer so =
     (case ensure_exec_allowed pm (cl_user env 0) cmd of
        Inl e \<Rightarrow> emit_error env jm ''exec'' ''permission_error'' (err_display e) EXIT_PERMISSION
      | Inr _ \<Rightarrow>
          (case peer of
             Some target \<Rightarrow>
               (case ensure_connect_allowed pm (cl_user env 1) target of
                  Inl e \<Rightarrow> emit_error env jm ''exec'' ''permission_error'' (err_display e) EXIT_PERMISSION
                | Inr _ \<Rightarrow> exec_direct env jm cmd timeout_secs target so)
           | None \<Rightarrow> exec_daemon env jm cmd timeout_secs))"

section \<open>Push\<close>

text \<open>
  The lines \<^verbatim>\<open>render_push_progress\<close> and the empty line at the end of a direct push are not among the effects: they
  are what the transfer itself prints.
\<close>

definition push_direct :: "cli_env \<Rightarrow> bool \<Rightarrow> string \<Rightarrow> string \<Rightarrow> string \<Rightarrow> server_opts \<Rightarrow> u64 \<Rightarrow> ran" where
  "push_direct env jm local_path remote_path peer so timeout_secs =
     (let cfg = opts_config peer so in
      run_direct env jm ''push'' cfg FileTransfer (direct_push (cl_direct env) cfg timeout_secs local_path remote_path)
        (\<lambda>(sent_bytes, total_bytes, resumed_bytes).
           push_response local_path remote_path sent_bytes total_bytes resumed_bytes))"

text \<open>The closure that prints the progress of a push: its numbers; the percentage is computed from them.\<close>

definition push_progress_shown :: "bool \<Rightarrow> SessionResponse \<Rightarrow> effect option" where
  "push_progress_shown jm resp =
     (if jm then None
      else case data resp of
        None \<Rightarrow> None
      | Some d \<Rightarrow>
          if Option.bind (json_get d ''kind'') as_str \<noteq> Some ''progress'' then None
          else Some (Progress (data_member resp ''sent_bytes'' as_u64 0) (data_member resp ''total_bytes'' as_u64 0)
                 (data_member resp ''resumed_bytes'' as_u64 0)))"

definition push_daemon :: "cli_env \<Rightarrow> bool \<Rightarrow> string \<Rightarrow> string \<Rightarrow> ran" where
  "push_daemon env jm local_path remote_path =
     (case send_to_daemon_streaming (cl_proc env) (cl_files_later env) (cl_uds env) (Push local_path remote_path) of
        (seen, r) \<Rightarrow>
          after (AskDaemon (Push local_path remote_path) # List.map_filter (push_progress_shown jm) seen @
                 (if jm then [] else [Printed (Stderr [])]))
            (case r of
               Inr resp \<Rightarrow>
                 if success resp then
                   emit env jm (push_response local_path remote_path
                     (of_nat (data_member resp ''sent_bytes'' as_u64 0))
                     (of_nat (data_member resp ''total_bytes'' as_u64 0))
                     (of_nat (data_member resp ''resumed_bytes'' as_u64 0)))
                 else connection_error env jm ''push'' (unwrap_or ''push failed'' (message resp))
             | Inl e \<Rightarrow> connection_error env jm ''push'' (err_display e)))"

definition push_cli ::
  "cli_env \<Rightarrow> bool \<Rightarrow> PermissionManager \<Rightarrow> string \<Rightarrow> string \<Rightarrow> string option \<Rightarrow> server_opts \<Rightarrow> u64 \<Rightarrow> ran" where
  "push_cli env jm pm local_path remote_path peer so timeout_secs =
     (case ensure_push_allowed pm (cl_user env 0) local_path remote_path of
        Inl e \<Rightarrow> emit_error env jm ''push'' ''permission_error'' (err_display e) EXIT_PERMISSION
      | Inr _ \<Rightarrow>
          (case peer of
             Some target \<Rightarrow>
               (case ensure_connect_allowed pm (cl_user env 1) target of
                  Inl e \<Rightarrow> emit_error env jm ''push'' ''permission_error'' (err_display e) EXIT_PERMISSION
                | Inr _ \<Rightarrow> push_direct env jm local_path remote_path target so timeout_secs)
           | None \<Rightarrow> push_daemon env jm local_path remote_path))"

section \<open>Clipboard, status, displays\<close>

definition clipboard_cli :: "cli_env \<Rightarrow> bool \<Rightarrow> ClipboardCommands \<Rightarrow> ran" where
  "clipboard_cli env jm c =
     (case c of
        ClipGet \<Rightarrow> ask_daemon env jm ''clipboard'' ClipboardGet ''clipboard get failed''
          (\<lambda>resp. emit env jm (clipboard_get_response (data_member resp ''text'' as_str ''stub clipboard text'')))
      | ClipSet t \<Rightarrow> ask_daemon env jm ''clipboard'' (ClipboardSet t) ''clipboard set failed''
          (\<lambda>_. emit env jm (clipboard_set_response t)))"

definition status_cli :: "cli_env \<Rightarrow> bool \<Rightarrow> ran" where
  "status_cli env jm =
     (if is_daemon_running (cl_proc env) (cl_files env) then
        after [AskDaemon Status]
          (case send_to_daemon env Status of
             Inr resp \<Rightarrow>
               if success resp then emit env jm (status_connected_response (data_member resp ''peer_id'' as_str ''unknown''))
               else emit env jm status_response
           | Inl _ \<Rightarrow> emit env jm status_response)
      else emit env jm status_response)"

text \<open>The \<^verbatim>\<open>displays\<close> command formats the displays itself, without the two last fields of \<^verbatim>\<open>displays_response\<close>.\<close>

definition display_text :: "(json \<Rightarrow> string) \<Rightarrow> json \<Rightarrow> string" where
  "display_text render d =
     ''display '' @ render (json_index d ''idx'') @ '' '' @ render (json_index d ''width'') @ ''x'' @
     render (json_index d ''height'') @ '' at ('' @ render (json_index d ''x'') @ '','' @
     render (json_index d ''y'') @ '') name='' @ unwrap_or [] (as_str (json_index d ''name''))"

definition displays_cli :: "cli_env \<Rightarrow> bool \<Rightarrow> ran" where
  "displays_cli env jm =
     ask_daemon env jm ''displays'' Displays ''displays failed'' (\<lambda>resp.
       let displays = data_member resp ''displays'' as_array [];
           text_lines = map (display_text (cl_render env)) displays in
       emit env jm
         \<lparr>resp_text = (if text_lines = [] then ''no displays'' else join [CHR 0x0A] text_lines),
          resp_json = JObj [(''ok'', JBool True), (''command'', JStr ''displays''), (''displays'', JArr displays)],
          resp_exit = EXIT_SUCCESS\<rparr>)"

section \<open>Capture\<close>

definition fake_capture_payload :: "CaptureFormat \<Rightarrow> bytes" where
  "fake_capture_payload fmt =
     (case fmt of
        Png \<Rightarrow> [0x89, 0x50, 0x4E, 0x47, 0x0D, 0x0A, 0x1A, 0x0A, 0x00, 0x00, 0x00, 0x0D, 0x49,
                0x48, 0x44, 0x52, 0x00, 0x00, 0x00, 0x01, 0x00, 0x00, 0x00, 0x01, 0x08, 0x06,
                0x00, 0x00, 0x00, 0x1F, 0x15, 0xC4, 0x89, 0x00, 0x00, 0x00, 0x0D, 0x49, 0x44,
                0x41, 0x54, 0x78, 0x9C, 0x63, 0xF8, 0xCF, 0xC0, 0xF0, 0x1F, 0x00, 0x05, 0x00,
                0x01, 0xFF, 0x89, 0x99, 0x3D, 0x1D, 0x00, 0x00, 0x00, 0x00, 0x49, 0x45, 0x4E,
                0x44, 0xAE, 0x42, 0x60, 0x82]
      | Jpg \<Rightarrow> [0xFF, 0xD8, 0xFF, 0xE0, 0x00, 0x10, 0x4A, 0x46, 0x49, 0x46, 0x00, 0x01, 0x01,
                0x01, 0x00, 0x48, 0x00, 0x48, 0x00, 0x00, 0xFF, 0xD9])"

text \<open>\<^verbatim>\<open>write_capture_output\<close> of \<^verbatim>\<open>capture.rs\<close>: how it ends, and what was written when it succeeds.\<close>

definition write_capture_output :: "cli_env \<Rightarrow> bytes \<Rightarrow> string option \<Rightarrow> unit result" where
  "write_capture_output env bs dest =
     with_ctx (case dest of Some path \<Rightarrow> ''writing screenshot to '' @ path | None \<Rightarrow> ''writing screenshot to stdout'')
       (cl_write env dest bs)"

definition capture_undaemoned ::
  "cli_env \<Rightarrow> bool \<Rightarrow> string option \<Rightarrow> i32 option \<Rightarrow> CaptureFormat option \<Rightarrow> u64 \<Rightarrow> Region option \<Rightarrow> ran" where
  "capture_undaemoned env jm dest display fmt timeout_secs region =
     (case dest of
        Some path \<Rightarrow>
          emit env jm (capture_response path (unwrap_or (infer_format path) fmt) region display timeout_secs)
      | None \<Rightarrow>
          (case write_capture_output env (fake_capture_payload Png) None of
             Inr _ \<Rightarrow> ([Wrote None (fake_capture_payload Png)], Exit EXIT_SUCCESS)
           | Inl e \<Rightarrow> connection_error env jm ''capture'' (err_display e)))"

definition capture_cli ::
  "cli_env \<Rightarrow> bool \<Rightarrow> string option \<Rightarrow> i32 option \<Rightarrow> CaptureFormat option \<Rightarrow> u8 \<Rightarrow> u64 \<Rightarrow> Region option \<Rightarrow> ran" where
  "capture_cli env jm dest display fmt quality timeout_secs region =
     (if \<not> is_daemon_running (cl_proc env) (cl_files env)
      then capture_undaemoned env jm dest display fmt timeout_secs region
      else
        let response_format = unwrap_or (case dest of Some path \<Rightarrow> infer_format path | None \<Rightarrow> Png) fmt in
        ask_daemon env jm ''capture''
          (Capture (unwrap_or [] dest) (Some (format_as_str response_format)) (Some quality)
             (map_option to_capture_region region) display (Some timeout_secs)) ''capture failed'' (\<lambda>resp.
          case data resp of
            None \<Rightarrow> connection_error env jm ''capture'' ''capture response missing image bytes''
          | Some _ \<Rightarrow>
              (case base64_decode (data_member resp ''bytes_b64'' as_str []) of
                 Inl e \<Rightarrow> connection_error env jm ''capture'' (''invalid capture payload: '' @ err_display e)
               | Inr bs \<Rightarrow>
                   (case write_capture_output env bs dest of
                      Inl e \<Rightarrow> connection_error env jm ''capture'' (err_display e)
                    | Inr _ \<Rightarrow>
                        after [Wrote dest bs]
                          (if dest = None \<and> \<not> jm then ([], Exit EXIT_SUCCESS)
                           else emit env jm (capture_result_response dest response_format region display timeout_secs
                             (length bs)))))))"

section \<open>The whole command line\<close>

text \<open>\<^verbatim>\<open>let _ = send_to_daemon(...)\<close>: whatever the daemon answers to a disconnect is dropped.\<close>

definition disconnect_cli :: "cli_env \<Rightarrow> bool \<Rightarrow> ran" where
  "disconnect_cli env jm =
     (if \<not> is_daemon_running (cl_proc env) (cl_files env)
      then emit_error env jm ''disconnect'' ''session_error'' ''No active session'' EXIT_SESSION
      else
        after [AskDaemon Disconnect] (emit env jm (disconnect_response True)))"

definition shell_cli :: "cli_env \<Rightarrow> bool \<Rightarrow> PermissionManager \<Rightarrow> ran" where
  "shell_cli env jm pm =
     (case ensure_shell_allowed pm (cl_user env 0) of
        Inl e \<Rightarrow> emit_error env jm ''shell'' ''permission_error'' (err_display e) EXIT_PERMISSION
      | Inr _ \<Rightarrow> ask_daemon env jm ''shell'' Shell ''shell failed'' (\<lambda>_. emit env jm shell_response))"

definition do_cli :: "cli_env \<Rightarrow> bool \<Rightarrow> string list \<Rightarrow> ran" where
  "do_cli env jm steps =
     (case run_do (cl_render env) jm (is_daemon_running (cl_proc env) (cl_files env)) steps of
        (ls, ec) \<Rightarrow> (map Printed ls, Exit ec))"

definition run_command :: "cli_env \<Rightarrow> bool \<Rightarrow> PermissionManager \<Rightarrow> Commands \<Rightarrow> ran" where
  "run_command env jm pm c =
     (case c of
        CmdConnect peer terminal_mode password_stdin so timeout_secs \<Rightarrow>
          connect_command env jm pm peer terminal_mode password_stdin so timeout_secs
      | CmdDisconnect \<Rightarrow> disconnect_cli env jm
      | CmdShell \<Rightarrow> shell_cli env jm pm
      | CmdExec cmd timeout_secs peer so \<Rightarrow> exec_cli env jm pm cmd timeout_secs peer so
      | CmdPush local_path remote_path peer so timeout_secs \<Rightarrow>
          push_cli env jm pm local_path remote_path peer so timeout_secs
      | CmdClipboard c \<Rightarrow> clipboard_cli env jm c
      | CmdStatus \<Rightarrow> status_cli env jm
      | CmdDisplays \<Rightarrow> displays_cli env jm
      | CmdCapture dest display fmt quality timeout_secs region \<Rightarrow>
          capture_cli env jm dest display fmt quality timeout_secs region
      | CmdType t \<Rightarrow> ask_daemon env jm ''type'' (Type t) ''type failed'' (\<lambda>_. emit env jm (type_response t))
      | CmdKey key mods \<Rightarrow> ask_daemon env jm ''key'' (Key key) ''key failed'' (\<lambda>_. emit env jm (key_response key mods))
      | CmdClick button dbl x y \<Rightarrow>
          ask_daemon env jm ''click'' (Click x y (button_as_str button) dbl) ''click failed''
            (\<lambda>_. emit env jm (click_response button x y dbl))
      | CmdScroll x y delta \<Rightarrow>
          ask_daemon env jm ''scroll'' (Scroll x y delta) ''scroll failed'' (\<lambda>_. emit env jm (scroll_response x y delta))
      | CmdMove x y \<Rightarrow> ask_daemon env jm ''move'' (Move x y) ''move failed'' (\<lambda>_. emit env jm (move_response x y))
      | CmdDrag x1 y1 x2 y2 \<Rightarrow>
          ask_daemon env jm ''drag'' (Drag x1 y1 x2 y2 ''left'') ''drag failed''
            (\<lambda>_. emit env jm (drag_response x1 y1 x2 y2))
      | CmdDo steps \<Rightarrow> do_cli env jm steps)"

definition run :: "cli_env \<Rightarrow> clap_error + Cli \<Rightarrow> ran" where
  "run env parsed =
     (case parsed of
        Inl HelpOrVersion \<Rightarrow> ([], Exit EXIT_SUCCESS)
      | Inl UsageError \<Rightarrow> ([], Exit EXIT_INPUT)
      | Inr cli \<Rightarrow>
          (case from_flags (cl_machine env) (cli_skip_permissions cli) (cli_sandbox cli) of
             Inl e \<Rightarrow> emit_error env (cli_json cli) ''permissions'' ''permission_error'' (err_display e) EXIT_PERMISSION
           | Inr pm \<Rightarrow> run_command env (cli_json cli) pm (cli_command cli)))"

text \<open>
  \<^verbatim>\<open>main\<close>: any argument \<^verbatim>\<open>--daemon\<close> starts the daemon, whose events are \<open>evs\<close>; otherwise the arguments go to
  \<^verbatim>\<open>clap\<close>, the parameter \<open>parse\<close>.
\<close>

definition run_daemon_mode ::
  "'img daemon_env \<Rightarrow> cli_env \<Rightarrow> daemon_event list \<Rightarrow> dstate \<Rightarrow> string list \<Rightarrow> ran" where
  "run_daemon_mode denv env evs w argv =
     (case daemon_mode_args argv of
        None \<Rightarrow> ([], Panics)
      | Some a \<Rightarrow>
          if \<not> is_ok (cl_runtime env) then ([], Panics)
          else
            (case run_daemon denv (cl_proc env) a evs w (cl_files env) of
               (Done (Inr _), _) \<Rightarrow> ([], Exit EXIT_SUCCESS)
             | (Done (Inl e), _) \<Rightarrow>
                 if is_panic e then ([], Panics)
                 else ([Printed (Stderr (''daemon error: '' @ err_display e))], Exit 1)
             | _ \<Rightarrow> ([], Waits)))"

definition main ::
  "'img daemon_env \<Rightarrow> cli_env \<Rightarrow> daemon_event list \<Rightarrow> dstate \<Rightarrow> (string list \<Rightarrow> clap_error + Cli) \<Rightarrow> string list \<Rightarrow> ran" where
  "main denv env evs w parse argv =
     (if list_ex (\<lambda>a. a = ''--daemon'') argv then run_daemon_mode denv env evs w argv else run env (parse argv))"

section \<open>A contract for every command\<close>

text \<open>
  What holds of every run of a command. In JSON mode a command prints one line with an object whose member \<open>ok\<close> says
  whether the exit code is success. The locale collects what a property of runs needs so that it holds of all commands;
  it is interpreted for the exit codes and for the JSON output.
\<close>

definition exit_codes :: "i32 set" where
  "exit_codes = {EXIT_SUCCESS, EXIT_CONNECTION, EXIT_SESSION, EXIT_INPUT}"

definition ok_member :: "json \<Rightarrow> i32 \<Rightarrow> bool" where
  "ok_member j ec \<longleftrightarrow> json_get j ''ok'' = Some (JBool (ec = EXIT_SUCCESS))"

text \<open>What appears on \<^verbatim>\<open>stdout\<close> or \<^verbatim>\<open>stderr\<close>: an image written to a file does not, one without a file does.\<close>

fun visible :: "effect \<Rightarrow> bool" where
  "visible (AskDaemon _) = False"
| "visible (StartDaemon _) = False"
| "visible (Dial _ _) = False"
| "visible (Wrote dest _) = (dest = None)"
| "visible _ = True"

definition shown :: "effect list \<Rightarrow> effect list" where
  "shown es = filter visible es"

text \<open>What the sandbox and the user must allow for a command: connecting, shells, exec and push are checked, in that order
  of prompts; all other commands are free.\<close>

definition permitted_command :: "cli_env \<Rightarrow> PermissionManager \<Rightarrow> Commands \<Rightarrow> bool" where
  "permitted_command env pm c \<longleftrightarrow>
     (let rules = sandbox_rules pm;
          peer_ok = (\<lambda>i p. in_sandbox connect_policy rules p \<and> confirmed pm (cl_user env i)) in
      case c of
        CmdConnect peer _ _ _ _ \<Rightarrow> peer_ok 0 peer
      | CmdShell \<Rightarrow> rules = None \<and> confirmed pm (cl_user env 0)
      | CmdExec cmd _ peer _ \<Rightarrow> in_sandbox exec_policy rules cmd \<and> confirmed pm (cl_user env 0) \<and>
          (case peer of None \<Rightarrow> True | Some p \<Rightarrow> peer_ok 1 p)
      | CmdPush l r peer _ _ \<Rightarrow> in_sandbox push_policy rules (l, r) \<and> confirmed pm (cl_user env 0) \<and>
          (case peer of None \<Rightarrow> True | Some p \<Rightarrow> peer_ok 1 p)
      | _ \<Rightarrow> True)"

definition permitted :: "cli_env \<Rightarrow> Cli \<Rightarrow> bool" where
  "permitted env cli =
     (case from_flags (cl_machine env) (cli_skip_permissions cli) (cli_sandbox cli) of
        Inl _ \<Rightarrow> False
      | Inr pm \<Rightarrow> permitted_command env pm (cli_command cli))"

text \<open>
  The commands whose output is not one JSON object: a connect with the password given twice or not readable, and an
  image without a file to write it to.
\<close>

fun unusable_password :: "cli_env \<Rightarrow> Commands \<Rightarrow> bool" where
  "unusable_password env (CmdConnect _ _ password_stdin so _) =
     (password_stdin \<and> (so_password so \<noteq> None \<or> (case cl_stdin env of Inl _ \<Rightarrow> True | Inr line \<Rightarrow> line = [])))"
| "unusable_password env _ = False"

fun image_to_stdout :: "Commands \<Rightarrow> bool" where
  "image_to_stdout (CmdCapture dest _ _ _ _ _) = (dest = None)"
| "image_to_stdout _ = False"

abbreviation plain_output :: "cli_env \<Rightarrow> Commands \<Rightarrow> bool" where
  "plain_output env c \<equiv> unusable_password env c \<or> image_to_stdout c"

lemma shell_cases:
  "(\<exists>e. ensure_shell_allowed pm u = Err e) \<and> \<not> (sandbox_rules pm = None \<and> confirmed pm u) \<or>
   ensure_shell_allowed pm u = Ok () \<and> sandbox_rules pm = None \<and> confirmed pm u"
  using gate_shell.ensure_cases [of pm u "()"] by (simp add: in_sandbox_def split: option.splits)

lemma push_cases:
  "(\<exists>e. ensure_push_allowed pm u l r = Err e) \<and> \<not> (in_sandbox push_policy (sandbox_rules pm) (l, r) \<and> confirmed pm u) \<or>
   ensure_push_allowed pm u l r = Ok () \<and> in_sandbox push_policy (sandbox_rules pm) (l, r) \<and> confirmed pm u"
  using gate_push.ensure_cases [of pm u "(l, r)"] by simp

lemma no_chunks_in_json: "List.map_filter (exec_chunk True) rs = []"
  by (induction rs) (auto simp: map_filter_def exec_chunk_def split: option.splits)

locale run_contract =
  fixes env :: cli_env and jm :: bool and P :: "ran \<Rightarrow> bool"
  assumes prints_ok: "ec \<in> exit_codes \<Longrightarrow> (jm \<Longrightarrow> \<exists>j. ls = [Stdout (cl_render env j)] \<and> ok_member j ec) \<Longrightarrow>
      P (map Printed ls, Exit ec)"
    and after_ok: "P r \<Longrightarrow> (jm \<Longrightarrow> shown es = []) \<Longrightarrow> P (after es r)"
    and stuck_ok: "P ([], Waits)" "P ([], Panics)"
begin

lemma after_quiet_ok: "P r \<Longrightarrow> jm \<longrightarrow> list_all (\<lambda>e. \<not> visible e) es \<Longrightarrow> P (after es r)"
  by (rule after_ok) (auto simp: shown_def list_all_iff filter_empty_conv)

lemma quiet_ok: "\<not> jm \<Longrightarrow> P ([], Exit EXIT_SUCCESS)"
  using prints_ok [of EXIT_SUCCESS "[]"] by (simp add: exit_codes_def)

lemma emit_ok: "resp_exit resp \<in> exit_codes \<Longrightarrow> ok_member (resp_json resp) (resp_exit resp) \<Longrightarrow> P (emit env jm resp)"
proof -
  assume ok: "resp_exit resp \<in> exit_codes" "ok_member (resp_json resp) (resp_exit resp)"
  have "P (map Printed (fst (emit_response (cl_render env) jm resp)), Exit (resp_exit resp))"
    using ok by (intro prints_ok) (auto simp: emit_response_def Let_def)
  then show ?thesis by (simp add: emit_def emit_response_def Let_def)
qed

lemma emit_ok_response: "m = jm \<Longrightarrow> P (emit env m (ok_response t c ms))"
  using emit_ok [of "ok_response t c ms"] by (simp add: exit_codes_def ok_member_def)

lemma emit_error_ok:
  "m = jm \<Longrightarrow> ec \<in> {EXIT_CONNECTION, EXIT_SESSION, EXIT_INPUT} \<Longrightarrow> P (emit_error env m name ecode msg ec)"
  using emit_ok [of "error_response name ecode msg ec"]
  by (auto simp: emit_error_def error_response_def exit_codes_def ok_member_def exit_defs)

lemma ask_daemon_ok: "(\<And>resp. P (ok resp)) \<Longrightarrow> P (ask_daemon env jm name cmd failed ok)"
  unfolding ask_daemon_def by (rule after_quiet_ok) (auto intro: emit_error_ok split: sum.splits)

lemma run_direct_ok:
  assumes "\<And>v. resp_exit (answer v) \<in> exit_codes" and "\<And>v. ok_member (resp_json (answer v)) (resp_exit (answer v))"
  shows "P (run_direct env jm name cfg ct m answer)"
proof (cases "cl_runtime env")
  case (Inr u)
  have "P (after [Dial cfg ct] (case fst (m None (cl_world env)) of
      Done (Inr v) \<Rightarrow> emit env jm (answer v)
    | Done (Inl e) \<Rightarrow> if is_panic e then ([], Panics) else connection_error env jm name (err_display e)
    | _ \<Rightarrow> ([], Waits)))"
    by (rule after_quiet_ok) (auto intro: emit_ok emit_error_ok stuck_ok assms split: outcome.splits sum.splits)
  with Inr show ?thesis by (simp add: run_direct_def)
qed (auto simp: run_direct_def intro: emit_error_ok)

lemma connect_daemon_ok: "P (connect_daemon env jm peer so t)"
  unfolding connect_daemon_def
  by (rule after_quiet_ok) (auto intro: emit_error_ok emit_ok_response simp: connect_response_def split: sum.splits)

lemma connect_in_terminal_ok: "P (connect_in_terminal env jm peer so)"
proof (cases "jm \<or> \<not> is_ok (cl_runtime env)")
  case False
  obtain r out w where r: "run_terminal_session (cl_direct env) (cl_vars env) (cl_term env) (opts_config peer so)
    (cl_world env) = (r, out, w)" by (metis prod_cases3)
  have "P (after [Dial (opts_config peer so) TerminalConn, TermOut out] (case r of
      Done (Inr _) \<Rightarrow> ([], Exit EXIT_SUCCESS)
    | Done (Inl e) \<Rightarrow> if is_panic e then ([], Panics) else connection_error env jm ''connect'' (err_display e)
    | _ \<Rightarrow> ([], Waits)))"
    using False quiet_ok emit_error_ok [of jm EXIT_CONNECTION]
    by (intro after_quiet_ok) (auto intro: stuck_ok split: outcome.splits sum.splits)
  note body = this
  from False have j: "jm = False" and "is_ok (cl_runtime env)" by auto
  with body [unfolded j] show ?thesis unfolding j by (simp add: connect_in_terminal_def Let_def r)
qed (auto simp: connect_in_terminal_def intro: emit_error_ok stuck_ok)

lemma exec_daemon_ok: "P (exec_daemon env jm cmd t)"
proof -
  obtain seen r where r: "send_to_daemon_streaming (cl_proc env) (cl_files_later env) (cl_uds env)
    (build_exec_session_command cmd t) = (seen, r)" by force
  show ?thesis
    unfolding exec_daemon_def r prod.case Let_def
    by (rule after_quiet_ok)
      (auto intro: emit_error_ok emit_ok_response simp: exec_response_def exec_streaming_response_def no_chunks_in_json
        split: sum.splits)
qed

lemma push_daemon_ok: "P (push_daemon env jm l rp)"
proof -
  obtain seen r where r: "send_to_daemon_streaming (cl_proc env) (cl_files_later env) (cl_uds env) (Push l rp) = (seen, r)"
    by force
  show ?thesis
    unfolding push_daemon_def r prod.case Let_def
    by (rule after_quiet_ok)
      (auto intro: emit_error_ok emit_ok_response simp: push_response_def list_all_iff map_filter_def
        push_progress_shown_def split: sum.splits)
qed

lemma exec_direct_ok: "P (exec_direct env jm cmd t peer so)"
  unfolding exec_direct_def Let_def
  by (rule run_direct_ok) (auto simp: exec_direct_response_def exit_codes_def ok_member_def)

lemma push_direct_ok: "P (push_direct env jm l rp peer so t)"
  unfolding push_direct_def Let_def
  by (rule run_direct_ok) (auto simp: push_response_def exit_codes_def ok_member_def)

lemma clipboard_ok: "P (clipboard_cli env jm c)"
  unfolding clipboard_cli_def
  by (cases c) (auto intro!: ask_daemon_ok emit_ok_response simp: clipboard_get_response_def clipboard_set_response_def
      Let_def)

lemma status_ok: "P (status_cli env jm)"
  unfolding status_cli_def
  by (auto intro!: after_quiet_ok emit_ok_response simp: status_response_def status_connected_response_def split: sum.splits)

lemma displays_ok: "P (displays_cli env jm)"
  unfolding displays_cli_def Let_def
  by (intro ask_daemon_ok emit_ok) (simp_all add: exit_codes_def ok_member_def)

lemma capture_undaemoned_ok:
  "dest \<noteq> None \<Longrightarrow> P (capture_undaemoned env jm dest display fmt t region)"
  unfolding capture_undaemoned_def
  by (auto intro!: emit_ok simp: capture_response_def Let_def exit_codes_def ok_member_def update_conv'
      split: option.splits prod.splits)

lemma capture_ok:
  assumes "dest \<noteq> None"
  shows "P (capture_cli env jm dest display fmt q t region)"
proof (cases "is_daemon_running (cl_proc env) (cl_files env)")
  case True
  have "P (emit env jm (capture_result_response dest fmt' region display t n))" for fmt' n
    by (rule emit_ok) (auto simp: capture_result_response_def Let_def exit_codes_def ok_member_def update_conv'
        split: option.splits)
  with True assms show ?thesis
    by (auto simp: capture_cli_def Let_def intro!: ask_daemon_ok emit_error_ok after_quiet_ok quiet_ok
        split: option.splits sum.splits)
qed (use assms in \<open>simp add: capture_cli_def capture_undaemoned_ok\<close>)

lemma disconnect_ok: "P (disconnect_cli env jm)"
  unfolding disconnect_cli_def
  by (auto intro!: after_quiet_ok emit_ok_response emit_error_ok simp: disconnect_response_def)

lemma do_ok: "P (do_cli env jm steps)"
proof -
  obtain ls ec where r: "run_do (cl_render env) jm (is_daemon_running (cl_proc env) (cl_files env)) steps = (ls, ec)"
    by force
  then have "ec \<in> exit_codes" and "jm \<Longrightarrow> \<exists>j. ls = [Stdout (cl_render env j)] \<and> ok_member j ec"
    by (auto simp: run_do_def emit_batch_response_def do_response_def batch_error_response_def exit_codes_def
        ok_member_def exit_defs Let_def split: if_splits sum.splits)
  with r show ?thesis by (auto simp: do_cli_def intro: prints_ok)
qed

lemma connect_ok:
  assumes "\<not> plain_output env (CmdConnect peer tm ps so t)" and "permitted_command env pm (CmdConnect peer tm ps so t)"
  shows "P (connect_command env jm pm peer tm ps so t)"
proof -
  from assms(2) gate_connect.ensure_cases [of pm "cl_user env 0" peer]
  have "ensure_connect_allowed pm (cl_user env 0) peer = Ok ()" by (auto simp: permitted_command_def)
  with assms(1) show ?thesis
    by (auto simp: connect_command_def Let_def connect_daemon_ok connect_in_terminal_ok split: sum.splits)
qed

lemma exec_ok: "permitted_command env pm (CmdExec cmd t peer so) \<Longrightarrow> P (exec_cli env jm pm cmd t peer so)"
  using gate_exec.ensure_cases [of pm "cl_user env 0" cmd] gate_connect.ensure_cases [of pm "cl_user env 1" "the peer"]
  by (auto simp: permitted_command_def exec_cli_def exec_daemon_ok exec_direct_ok split: option.splits)

lemma push_ok: "permitted_command env pm (CmdPush l r peer so t) \<Longrightarrow> P (push_cli env jm pm l r peer so t)"
  using push_cases [of pm "cl_user env 0" l r] gate_connect.ensure_cases [of pm "cl_user env 1" "the peer"]
  by (auto simp: permitted_command_def push_cli_def push_daemon_ok push_direct_ok split: option.splits)

lemma shell_ok: "permitted_command env pm CmdShell \<Longrightarrow> P (shell_cli env jm pm)"
  using shell_cases [of pm "cl_user env 0"]
  by (auto simp: permitted_command_def shell_cli_def shell_response_def intro!: ask_daemon_ok emit_ok_response)

lemma command_ok:
  assumes "\<not> plain_output env c" and "permitted_command env pm c"
  shows "P (run_command env jm pm c)"
proof (cases c)
  case (CmdCapture dest display fmt q t region)
  with assms show ?thesis by (auto simp: run_command_def intro: capture_ok)
qed (use assms in \<open>auto simp: run_command_def connect_ok exec_ok push_ok shell_ok disconnect_ok clipboard_ok status_ok
    displays_ok do_ok type_response_def key_response_def click_response_def scroll_response_def move_response_def
    drag_response_def Let_def intro!: ask_daemon_ok emit_ok_response\<close>)

end

text \<open>Every command ends with one of the four codes, and answers in JSON when asked to.\<close>

abbreviation exits :: "ran \<Rightarrow> bool" where
  "exits r \<equiv> (case snd r of Exit ec \<Rightarrow> ec \<in> exit_codes | _ \<Rightarrow> True)"

interpretation codes: run_contract env jm exits for env jm
  by unfold_locales (auto simp: after_def)

text \<open>Exactly one line, on \<^verbatim>\<open>stdout\<close>, with an object whose member \<open>ok\<close> says how the run ended.\<close>

definition json_answer :: "cli_env \<Rightarrow> ran \<Rightarrow> bool" where
  "json_answer env r =
     (case snd r of
        Exit ec \<Rightarrow> \<exists>j. shown (fst r) = [Printed (Stdout (cl_render env j))] \<and>
          json_get j ''ok'' = Some (JBool (ec = EXIT_SUCCESS))
      | _ \<Rightarrow> True)"

lemma shown_simps [simp]:
  "shown [] = []" "shown (es @ fs) = shown es @ shown fs" "shown (map Printed ls) = map Printed ls"
  "shown (e # es) = (if visible e then e # shown es else shown es)"
  by (auto simp: shown_def filter_map comp_def)

lemma json_emit:
  "ok_member (resp_json resp) (resp_exit resp) \<Longrightarrow> json_answer env (emit env True resp)"
  unfolding json_answer_def emit_def emit_response_def ok_member_def by auto

lemma json_error: "ec \<noteq> EXIT_SUCCESS \<Longrightarrow> json_answer env (emit_error env True name ecode msg ec)"
  unfolding emit_error_def by (rule json_emit) (simp add: ok_member_def error_response_def)

lemma permission_is_error [simp]: "EXIT_PERMISSION \<noteq> EXIT_SUCCESS"
  by (simp add: exit_defs)

interpretation json: run_contract env jm "\<lambda>r. jm \<longrightarrow> json_answer env r" for env jm
  by (unfold_locales, auto simp: json_answer_def ok_member_def after_def split: finish.splits, blast)

section \<open>Properties\<close>

fun reaches :: "effect \<Rightarrow> bool" where
  "reaches (AskDaemon _) = True"
| "reaches (StartDaemon _) = True"
| "reaches (Dial _ _) = True"
| "reaches _ = False"

text \<open>A run that was refused: it reached nobody.\<close>

definition refused :: "ran \<Rightarrow> i32 \<Rightarrow> bool" where
  "refused r ec \<longleftrightarrow> \<not> list_ex reaches (fst r) \<and> snd r = Exit ec"

lemma refused_error: "refused (emit_error env jm name ecode msg EXIT_PERMISSION) EXIT_PERMISSION"
  by (simp add: refused_def emit_error_def emit_def emit_response_def error_response_def Let_def)

text \<open>A command that is not permitted ends with a permission error, unless its password options are unusable.\<close>

definition permission_error :: "cli_env \<Rightarrow> bool \<Rightarrow> ran \<Rightarrow> bool" where
  "permission_error env jm r \<longleftrightarrow> (\<exists>name msg. r = emit_error env jm name ''permission_error'' msg EXIT_PERMISSION)"

lemma permission_errorI [simp]:
  "permission_error env jm (emit_error env jm name ''permission_error'' msg EXIT_PERMISSION)"
  by (auto simp: permission_error_def)

lemma unpermitted_run:
  assumes "\<not> permitted_command env pm c"
  shows "if unusable_password env c then refused (run_command env jm pm c) EXIT_INPUT
    else permission_error env jm (run_command env jm pm c)"
proof (cases c)
  case (CmdConnect peer tm ps so t)
  with assms gate_connect.ensure_cases [of pm "cl_user env 0" peer]
  obtain e where "ensure_connect_allowed pm (cl_user env 0) peer = Err e" by (auto simp: permitted_command_def)
  then show ?thesis
    by (auto simp: CmdConnect run_command_def connect_command_def Let_def refused_def split: sum.splits)
next
  case (CmdExec cmd t peer so)
  with assms gate_exec.ensure_cases [of pm "cl_user env 0" cmd] gate_connect.ensure_cases [of pm "cl_user env 1" "the peer"]
  show ?thesis by (auto simp: permitted_command_def run_command_def exec_cli_def split: option.splits)
next
  case (CmdPush l r peer so t)
  with assms push_cases [of pm "cl_user env 0" l r] gate_connect.ensure_cases [of pm "cl_user env 1" "the peer"]
  show ?thesis by (auto simp: permitted_command_def run_command_def push_cli_def split: option.splits)
next
  case CmdShell
  with assms shell_cases [of pm "cl_user env 0"] show ?thesis
    by (auto simp: permitted_command_def run_command_def shell_cli_def)
qed (use assms in \<open>simp_all add: permitted_command_def\<close>)

lemma unpermitted_refused:
  "\<not> permitted_command env pm c \<Longrightarrow>
   refused (run_command env jm pm c) (if unusable_password env c then EXIT_INPUT else EXIT_PERMISSION)"
  using unpermitted_run [of env pm c jm] refused_error by (auto simp: permission_error_def split: if_splits)

lemma unusable_run:
  assumes "unusable_password env c"
  shows "\<exists>l. run_command env jm pm c = ([Printed (Stderr l)], Exit EXIT_INPUT)"
proof (cases c)
  case (CmdConnect peer tm ps so t)
  with assms show ?thesis by (auto simp: run_command_def connect_command_def split: sum.splits)
qed (use assms in auto)

text \<open>How a capture without a file ends: with an error as every other command, or after the bytes of the image.\<close>

definition image_answer :: "cli_env \<Rightarrow> bool \<Rightarrow> ran \<Rightarrow> bool" where
  "image_answer env jm r \<longleftrightarrow> snd r \<in> {Exit EXIT_SUCCESS, Exit EXIT_CONNECTION} \<and>
    (jm \<longrightarrow> json_answer env r \<or>
      snd r = Exit EXIT_SUCCESS \<and>
      (\<exists>bs j. shown (fst r) = Wrote None bs #
         (if is_daemon_running (cl_proc env) (cl_files env) then [Printed (Stdout (cl_render env j))] else []) \<and>
         json_get j ''ok'' = Some (JBool True)))"

lemma image_error: "shown es = [] \<Longrightarrow> image_answer env jm (after es (connection_error env jm name m))"
  by (auto simp: image_answer_def json_answer_def after_def emit_error_def emit_def emit_response_def
      error_response_def Let_def exit_defs)

lemma image_error_first: "image_answer env jm (connection_error env jm name m)"
  using image_error [of "[]"] by (simp add: after_def)

lemma image_written:
  "image_answer env False (after [AskDaemon cmd] (after [Wrote None bs] ([], Exit EXIT_SUCCESS)))"
  "is_daemon_running (cl_proc env) (cl_files env) \<Longrightarrow>
   image_answer env True (after [AskDaemon cmd] (after [Wrote None bs]
     (emit env True (capture_result_response None fmt region display t n))))"
  by (auto simp: image_answer_def after_def emit_def emit_response_def capture_result_response_def Let_def update_conv'
      split: option.splits)

lemma image_run:
  assumes "image_to_stdout c"
  shows "image_answer env jm (run_command env jm pm c)"
proof (cases c)
  case (CmdCapture dest display fmt q t region)
  with assms have dest: "dest = None" by simp
  show ?thesis
  proof (cases "is_daemon_running (cl_proc env) (cl_files env)")
    case True
    then show ?thesis
      by (cases jm) (auto simp: image_error image_written CmdCapture dest run_command_def capture_cli_def ask_daemon_def Let_def split: option.splits sum.splits)
  next
    case False
    then show ?thesis
      by (auto simp: CmdCapture dest run_command_def capture_cli_def capture_undaemoned_def image_error_first
          image_answer_def [of _ _ "([Wrote None bs], Exit EXIT_SUCCESS)" for bs] intro: exI [of _ "JObj [(''ok'', JBool True)]"]
          split: sum.splits)
  qed
qed (use assms in auto)

lemma plain_exits: "plain_output env c \<Longrightarrow> exits (run_command env jm pm c)"
  using unusable_run [of env c jm pm] image_run [of c env jm pm] by (auto simp: exit_codes_def image_answer_def)

lemma permitted_exits: "permitted_command env pm c \<Longrightarrow> exits (run_command env jm pm c)"
  by (cases "plain_output env c") (simp_all add: plain_exits codes.command_ok)

text \<open>
  C11. No way around the permissions. Whatever the command line, when the sandbox or the user does not allow the
  command, nothing is sent to the daemon, no daemon is started and no peer is dialled, and the exit code is that of a
  permission error. The one exception is a connect whose password options are unusable, which is found first and ends
  with an input error, and this is not asked when the sandbox itself cannot be set up. When the command is allowed, the
  exit code is never that of a permission error. Only connecting, shells, exec and push are subject to them.
\<close>

theorem permission_gate_holds:
  "if permitted env cli then snd (run env (Inr cli)) \<noteq> Exit EXIT_PERMISSION
   else \<not> list_ex reaches (fst (run env (Inr cli))) \<and>
     snd (run env (Inr cli)) =
       Exit (if is_ok (from_flags (cl_machine env) (cli_skip_permissions cli) (cli_sandbox cli)) \<and>
               unusable_password env (cli_command cli)
             then EXIT_INPUT else EXIT_PERMISSION)"
proof (cases "from_flags (cl_machine env) (cli_skip_permissions cli) (cli_sandbox cli)")
  case (Inl e)
  then show ?thesis using refused_error by (simp add: run_def permitted_def refused_def)
next
  case (Inr pm)
  let ?r = "run_command env (cli_json cli) pm (cli_command cli)"
  have "EXIT_PERMISSION \<notin> exit_codes" by (simp add: exit_codes_def exit_defs)
  then have "snd ?r \<noteq> Exit EXIT_PERMISSION" if "permitted_command env pm (cli_command cli)"
    using permitted_exits [OF that, of "cli_json cli"] by auto
  moreover have "refused ?r (if unusable_password env (cli_command cli) then EXIT_INPUT else EXIT_PERMISSION)"
    if "\<not> permitted_command env pm (cli_command cli)"
    by (rule unpermitted_refused) (rule that)
  ultimately show ?thesis by (auto simp: run_def permitted_def refused_def Inr)
qed


lemma trim_Nil: "trim [] = []"
proof -
  have "ws_len encs [] = 0" for encs using ws_len_le [of encs "[]"] by simp
  then have "trim_with encs [] = []" for encs by (subst trim_with.simps) simp
  then show ?thesis by (simp add: trim_def trim_start_def trim_end_def)
qed

lemma read_responses_all:
  assumes "\<forall>r\<in>set rs. trim (wire r) \<noteq> [] \<and> uds_parse u (trim (wire r)) = Ok r"
  shows "read_responses u lst seen (map (\<lambda>r. Ok (wire r)) rs) =
    (seen @ rs, Ok (if rs = [] then lst else Some (last rs)))"
  using assms
proof (induction rs arbitrary: lst seen)
  case (Cons r rs)
  then have "wire r \<noteq> []" using trim_Nil by fastforce
  with Cons show ?case by (simp add: trim_Nil)
qed simp

lemma chunks_shown:
  "List.map_filter (exec_chunk False) (map exec_output_chunk_response ds @ [executed cmd stdout ec timed_out]) =
     map from_utf8_lossy ds"
  "List.map_filter (exec_chunk True) rs = []"
  by (induction ds) (auto simp: map_filter_def exec_chunk_def exec_output_chunk_response_def executed_def exec_data_def
      resp_ok_with_data_def split: option.splits)

lemma executed_members [simp]:
  "success (executed cmd stdout ec timed_out)"
  "data_member (executed cmd stdout ec timed_out) ''exit_code'' as_i64 0 = sint ec"
  "data_member (executed cmd stdout ec timed_out) ''timed_out'' as_bool False = timed_out"
  by (simp_all add: executed_def exec_data_def resp_ok_with_data_def data_member_def unwrap_or_def)

lemma exec_shown:
  assumes "permitted env cli" and "cli_command cli = CmdExec cmd t None so" and "\<not> cli_json cli"
    and "lock_read (cl_proc env) (cl_files_later env) = Ok lock"
    and "uds_connect (cl_uds env) (lf_socket lock) = Ok remote"
    and "remote \<lparr>ch_written = uds_ser (cl_uds env) (Exec cmd (Some t)) @ [10], ch_shut = True\<rparr> = (Ok (), map (\<lambda>r. Ok (wire r)) rs)"
    and "rs = map exec_output_chunk_response ds @ [executed cmd stdout ec timed_out]" and "ds \<noteq> []"
    and "\<forall>r\<in>set rs. trim (wire r) \<noteq> [] \<and> uds_parse (cl_uds env) (trim (wire r)) = Ok r"
  shows "run env (Inr cli) =
    (AskDaemon (Exec cmd (Some t)) # map (\<lambda>d. Chunk (from_utf8_lossy d)) ds @
       [Printed (Stdout (''exec exit_code='' @ show_i32 ec @ (if timed_out then '' timed_out=true'' else [])))],
     Exit EXIT_SUCCESS)"
proof -
  from assms(1,2) obtain pm where pm: "from_flags (cl_machine env) (cli_skip_permissions cli) (cli_sandbox cli) = Ok pm"
    and allowed: "permitted_command env pm (CmdExec cmd t None so)"
    by (auto simp: permitted_def split: sum.splits)
  then have ok: "ensure_exec_allowed pm (cl_user env 0) cmd = Ok ()"
    using gate_exec.ensure_cases [of pm "cl_user env 0" cmd] by (auto simp: permitted_command_def)
  have "send_to_daemon_streaming (cl_proc env) (cl_files_later env) (cl_uds env) (Exec cmd (Some t)) =
      (rs, Ok (executed cmd stdout ec timed_out))"
    using assms(4-6) read_responses_all [OF assms(9), of None "[]"] assms(7)
    by (simp add: send_to_daemon_streaming_def bind_result_def)
  with assms(2,3,7,8) pm ok show ?thesis
    by (simp add: run_def run_command_def exec_cli_def exec_daemon_def build_exec_session_command_def chunks_shown
        emit_def emit_response_def after_def exec_streaming_response_def Let_def)
qed

text \<open>
  What the daemon streams is what the user sees. When an exec is permitted and the daemon answers with the chunks
  of the output and the final response (each on a line that parses back), the run asks the daemon once, shows every
  chunk in order and nothing else, and ends with the line that has the exit code of the remote command.
\<close>

theorem exec_output_reaches_user:
  assumes "permitted env cli" and "cli_command cli = CmdExec cmd t None so" and "\<not> cli_json cli"
    and "lock_read (cl_proc env) (cl_files_later env) = Ok lock"
    and "uds_connect (cl_uds env) (lf_socket lock) = Ok remote"
    and "remote \<lparr>ch_written = uds_ser (cl_uds env) (Exec cmd (Some t)) @ [10], ch_shut = True\<rparr> = (Ok (), map (\<lambda>r. Ok (wire r)) rs)"
    and "rs = map exec_output_chunk_response ds @ [executed cmd stdout ec timed_out]" and "ds \<noteq> []"
    and "\<forall>r\<in>set rs. trim (wire r) \<noteq> [] \<and> uds_parse (cl_uds env) (trim (wire r)) = Ok r"
  shows "run env (Inr cli) =
    (AskDaemon (Exec cmd (Some t)) # map (\<lambda>d. Chunk (from_utf8_lossy d)) ds @
       [Printed (Stdout (''exec exit_code='' @ show_i32 ec @ (if timed_out then '' timed_out=true'' else [])))],
     Exit EXIT_SUCCESS)"
  by (rule exec_shown) (fact assms)+

text \<open>A machine with a running daemon that answers an exec with one chunk and the final response.\<close>

definition demo_responses :: "SessionResponse list" where
  "demo_responses = map exec_output_chunk_response [[104, 105]] @ [executed ''true'' ''hi'' 7 False]"

definition demo_wire :: "SessionResponse \<Rightarrow> string" where
  "demo_wire r = (if r = executed ''true'' ''hi'' 7 False then ''b'' else ''a'')"

definition demo_uds :: uds_env where
  "demo_uds = \<lparr>uds_connect = (\<lambda>_. Ok (\<lambda>_. (Ok (), map (\<lambda>r. Ok (demo_wire r)) demo_responses))),
     uds_ser = (\<lambda>_. []),
     uds_parse = (\<lambda>s. Ok (if s = ''b'' then executed ''true'' ''hi'' 7 False else exec_output_chunk_response [104, 105]))\<rparr>"

definition demo_proc :: proc_env where
  "demo_proc = \<lparr>pe_kill = (\<lambda>_. None), pe_remove = (\<lambda>_. True), pe_write = (\<lambda>_. Ok ()), pe_chmod = (\<lambda>_. Ok ()),
     pe_exe = Ok (), pe_bind = Ok (), pe_signals = Ok (), pe_readable = (\<lambda>_. Ok ()),
     pe_parse_lock = (\<lambda>_. Ok \<lparr>lf_pid = 1, lf_socket = SOCKET_PATH\<rparr>), pe_show_lock = (\<lambda>_. ''lock''), pe_pid = 2\<rparr>"

definition demo_files :: daemon_files where
  "demo_files = \<lparr>f_socket = Some True, f_lock = Some ''lock'', f_error = None\<rparr>"

definition demo_cli_env :: cli_env where
  "demo_cli_env = \<lparr>cl_machine = \<lparr>current_dir = None, home_dir = None, file_at = (\<lambda>_. None), toml_sandbox = (\<lambda>_. Err [])\<rparr>,
     cl_user = (\<lambda>_. \<lparr>stdin_is_terminal = True, stderr_flush = Ok (), stdin_line = Ok ''yes''\<rparr>),
     cl_stdin = Ok [], cl_render = (\<lambda>_. []), cl_runtime = Ok (), cl_proc = demo_proc, cl_files = demo_files,
     cl_files_later = demo_files, cl_uds = demo_uds, cl_spawned = Ok (), cl_obs = (\<lambda>_. demo_files),
     cl_direct = \<lparr>dr_conn = demo_env, dr_entropy = demo_entropy, dr_bound = Ok (), dr_fs = \<lparr>fs_metadata = (\<lambda>_. Err []), fs_open = (\<lambda>_. Err []), fs_seek = (\<lambda>_ _. Err [])\<rparr>, dr_reads = [],
       dr_nanos = (\<lambda>_. 0)\<rparr>,
     cl_world = world_start [] [], cl_vars = (\<lambda>_. None), cl_term = [], cl_write = (\<lambda>_ _. Ok ())\<rparr>"

definition demo_opts :: server_opts where
  "demo_opts = \<lparr>so_password = None, so_server = None, so_id_server = None, so_relay_server = None, so_key = None\<rparr>"

definition demo_exec :: Cli where
  "demo_exec = \<lparr>cli_json = False, cli_skip_permissions = True, cli_sandbox = False,
     cli_command = CmdExec ''true'' 30 None demo_opts\<rparr>"

lemma trim_letter: "trim ''a'' = ''a''" "trim ''b'' = ''b''"
  by code_simp+

theorem exec_output_reaches_user_witness:
  "run demo_cli_env (Inr demo_exec) =
    (AskDaemon (Exec ''true'' (Some 30)) # map (\<lambda>d. Chunk (from_utf8_lossy d)) [[104, 105]] @
       [Printed (Stdout (''exec exit_code='' @ show_i32 7 @ (if False then '' timed_out=true'' else [])))],
     Exit EXIT_SUCCESS)"
proof (rule exec_output_reaches_user [where lock = "\<lparr>lf_pid = 1, lf_socket = SOCKET_PATH\<rparr>" and so = demo_opts
    and wire = demo_wire and rs = demo_responses and stdout = "''hi''"])
  show "permitted demo_cli_env demo_exec"
    by (simp add: permitted_def demo_exec_def from_flags_def bind_result_def permitted_command_def in_sandbox_def
        confirmed_def)
  have "exec_output_chunk_response [104, 105] \<noteq> executed ''true'' ''hi'' 7 False"
    by (simp add: exec_output_chunk_response_def executed_def resp_ok_with_data_def)
  then show "\<forall>r\<in>set demo_responses. trim (demo_wire r) \<noteq> [] \<and> uds_parse (cl_uds demo_cli_env) (trim (demo_wire r)) = Ok r"
    by (simp add: demo_responses_def demo_wire_def demo_cli_env_def demo_uds_def trim_letter)
qed (simp_all add: demo_cli_env_def demo_exec_def demo_uds_def demo_files_def demo_proc_def demo_responses_def
    lock_read_def read_to_string_def bind_result_def)

text \<open>
  C33. A batch does nothing. The command \<^verbatim>\<open>do\<close> only prints: it asks no daemon and dials no peer. Without a daemon it ends
  with a session error. With one, tokens that are not steps of the grammar end with a connection error, although they
  are an input error, and tokens that are end with success: one numbered line for every step and their number, or with
  \<^verbatim>\<open>--json\<close> one object with an answer for every step, which has its number and its command and says that it succeeded,
  although none of the steps was carried out.
\<close>

theorem do_reports_without_doing:
  assumes "from_flags (cl_machine env) (cli_skip_permissions cli) (cli_sandbox cli) = Ok pm"
    and "cli_command cli = CmdDo ts"
  shows "\<exists>ls ec. run env (Inr cli) = (map Printed ls, Exit ec) \<and>
    (if \<not> is_daemon_running (cl_proc env) (cl_files env) then ec = EXIT_SESSION
     else if \<nexists>steps. ts = unparse steps \<and> list_all step_ok steps then ec = EXIT_CONNECTION
     else ec = EXIT_SUCCESS \<and> (\<exists>steps. ts = unparse steps \<and> list_all step_ok steps \<and>
       (if cli_json cli then
          \<exists>js. ls = [Stdout (cl_render env (JObj [(''ok'', JBool True), (''command'', JStr ''do''), (''steps'', JArr js)]))] \<and>
            length js = length steps \<and>
            (\<forall>i<length steps. json_get (js ! i) ''index'' = Some (json_nat (1 + i)) \<and>
               json_get (js ! i) ''command'' = Some (JStr (command (steps ! i))) \<and>
               json_get (js ! i) ''ok'' = Some (JBool True))
        else
          \<exists>answers. length answers = length steps \<and>
            ls = map (\<lambda>i. Stdout (show_nat (1 + i) @ '' '' @ answers ! i)) [0..<length steps] @
              [Stdout (''ok steps='' @ show_nat (length steps))])))"
proof -
  let ?d = "is_daemon_running (cl_proc env) (cl_files env)"
  obtain ls ec where do: "run_do (cl_render env) (cli_json cli) ?d ts = (ls, ec)" by force
  then have run: "run env (Inr cli) = (map Printed ls, Exit ec)"
    using assms by (simp add: run_def run_command_def do_cli_def)
  show ?thesis
  proof (cases "\<not> ?d \<or> (\<nexists>steps. ts = unparse steps \<and> list_all step_ok steps)")
    case True
    then have "\<not> ?d \<or> (\<exists>e. parse_batch_steps ts = Inl e)"
      using parse_batch_steps_sound [of ts] by (cases "parse_batch_steps ts") auto
    with do have "ec = (if ?d then EXIT_CONNECTION else EXIT_SESSION)"
      by (auto simp: run_do_def emit_batch_response_def batch_error_response_def split: if_splits)
    with True run show ?thesis by auto
  next
    case False
    then obtain steps where steps: "ts = unparse steps" "list_all step_ok steps" and daemon: ?d by blast
    then have "parse_batch_steps ts = Ok steps" by (simp add: parse_batch_steps_complete)
    from run_do_steps [OF this, of "cl_render env" "cli_json cli"] do daemon
    have out: "ls = (if cli_json cli then [Stdout (cl_render env (JObj [(''ok'', JBool True), (''command'', JStr ''do''),
       (''steps'', JArr (map (\<lambda>i. json_insert ''index'' (json_nat (1 + i))
          (resp_json (step_to_response (cl_render env) (steps ! i)))) [0..<length steps]))]))]
     else map (\<lambda>i. Stdout (show_nat (1 + i) @ '' '' @ resp_text (step_to_response (cl_render env) (steps ! i)))) [0..<length steps] @
       [Stdout (''ok steps='' @ show_nat (length steps))])" "ec = EXIT_SUCCESS"
      by simp_all
    have "list_all step_ok steps" by fact
    then have answers: "step_ok (steps ! i)" if "i < length steps" for i using that by (simp add: list_all_length)
    have body: "if cli_json cli then
          \<exists>js. ls = [Stdout (cl_render env (JObj [(''ok'', JBool True), (''command'', JStr ''do''), (''steps'', JArr js)]))] \<and>
            length js = length steps \<and>
            (\<forall>i<length steps. json_get (js ! i) ''index'' = Some (json_nat (1 + i)) \<and>
               json_get (js ! i) ''command'' = Some (JStr (command (steps ! i))) \<and>
               json_get (js ! i) ''ok'' = Some (JBool True))
        else
          \<exists>answers. length answers = length steps \<and>
            ls = map (\<lambda>i. Stdout (show_nat (1 + i) @ '' '' @ answers ! i)) [0..<length steps] @
              [Stdout (''ok steps='' @ show_nat (length steps))]"
    proof (cases "cli_json cli")
      case True
      show ?thesis unfolding if_P [OF True]
        by (rule exI [of _ "map (\<lambda>i. json_insert ''index'' (json_nat (1 + i))
          (resp_json (step_to_response (cl_render env) (steps ! i)))) [0..<length steps]"])
          (use out(1) True step_ok_json answers in simp)
    next
      case no_json: False
      show ?thesis unfolding if_not_P [OF no_json]
        by (rule exI [of _ "map (\<lambda>st. resp_text (step_to_response (cl_render env) st)) steps"])
          (use out(1) no_json in simp)
    qed
    have n: "\<not> \<not> ?d" "\<not> (\<nexists>steps. ts = unparse steps \<and> list_all step_ok steps)" using False by blast+
    show ?thesis unfolding if_not_P [OF n(1)] if_not_P [OF n(2)] using run out(2) steps body by blast
  qed
qed

definition demo_do :: Cli where
  "demo_do = \<lparr>cli_json = False, cli_skip_permissions = True, cli_sandbox = False,
     cli_command = CmdDo [''exec'', ''--command'', ''reboot'']\<rparr>"

theorem do_reports_without_doing_witness:
  "\<exists>ls. run demo_cli_env (Inr demo_do) = (map Printed ls, Exit EXIT_SUCCESS)"
proof -
  have "\<exists>pm. from_flags (cl_machine demo_cli_env) (cli_skip_permissions demo_do) (cli_sandbox demo_do) = Ok pm"
    by (simp add: demo_do_def from_flags_def bind_result_def)
  then obtain pm where
    pm: "from_flags (cl_machine demo_cli_env) (cli_skip_permissions demo_do) (cli_sandbox demo_do) = Ok pm" ..
  have cmd: "cli_command demo_do = CmdDo [''exec'', ''--command'', ''reboot'']" by (simp add: demo_do_def)
  have "is_daemon_running (cl_proc demo_cli_env) (cl_files demo_cli_env)"
    by (simp add: demo_cli_env_def demo_files_def is_daemon_running_def is_socket_alive_def)
  then have on: "\<not> \<not> is_daemon_running (cl_proc demo_cli_env) (cl_files demo_cli_env)" by simp
  have "step_ok \<lparr>command = ''exec'', args = [''--command'', ''reboot'']\<rparr>"
    by (simp add: step_ok_def args_ok_def flagged_ok_def at_least_def is_step_command_def step_commands_def)
  then have "[''exec'', ''--command'', ''reboot''] = unparse [\<lparr>command = ''exec'', args = [''--command'', ''reboot'']\<rparr>] \<and>
      list_all step_ok [\<lparr>command = ''exec'', args = [''--command'', ''reboot'']\<rparr>]"
    by (simp add: unparse_def)
  then have steps: "\<not> (\<nexists>steps. [''exec'', ''--command'', ''reboot''] = unparse steps \<and> list_all step_ok steps)" by blast
  from do_reports_without_doing [OF pm cmd] show ?thesis
    unfolding if_not_P [OF on] if_not_P [OF steps] by blast
qed

lemma show_nat_no_colon: "CHR '':'' \<notin> set (show_nat n)"
  using show_nat_props [of n] by (auto simp: list_all_iff is_ascii_digit_def)

lemma after_last_colon_port: "after_last_colon (h @ '':'' @ show_nat p) = Some (show_nat p)"
proof -
  have "\<forall>c \<in> set (rev (show_nat p)). c \<noteq> CHR '':''" using show_nat_no_colon [of p] by auto
  then have "takeWhile (\<lambda>c. c \<noteq> CHR '':'') (rev (show_nat p) @ CHR '':'' # rev h) = rev (show_nat p)"
    by (subst takeWhile_append2) auto
  then show ?thesis by (simp add: after_last_colon_def)
qed

lemma infer_port:
  assumes "CHR '':'' \<notin> set h" and "1 < p" and "p < 2 ^ 16"
  shows "infer_id_server_from_relay (h @ '':'' @ show_nat p) = h @ '':'' @ show_nat (p - 1)"
proof -
  have "split_first CHR '':'' (h @ '':'' @ show_nat p) = h"
    using assms(1) by (induction h) (auto simp: split_first_def)
  with assms parse_unsigned_show_nat [of p 16] after_last_colon_port [of h p] show ?thesis
    by (simp add: infer_id_server_from_relay_def)
qed

text \<open>
  C26. A direct connection and the daemon use the same servers. For the same options the two configurations are equal,
  except when a relay is the only server that is given: then the direct commands take the port below the relay's on the
  relay's host for the rendezvous server, and the daemon takes the one of the local machine.
\<close>

theorem direct_config_matches_daemon:
  "build_direct_connection_config peer pw srv id_srv relay_srv key =
     (build_connection_config peer pw srv id_srv relay_srv key)
       \<lparr>id_server := (case (id_srv, srv, relay_srv) of
          (None, None, Some r) \<Rightarrow> infer_id_server_from_relay r
        | _ \<Rightarrow> id_server (build_connection_config peer pw srv id_srv relay_srv key))\<rparr> \<and>
   id_server (build_connection_config peer pw None None relay_srv key) = ''localhost:21116'' \<and>
   (CHR '':'' \<notin> set h \<and> 1 < p \<and> p < 2 ^ 16 \<longrightarrow>
      infer_id_server_from_relay (h @ '':'' @ show_nat p) = h @ '':'' @ show_nat (p - 1))"
proof (intro conjI impI)
  assume "CHR '':'' \<notin> set h \<and> 1 < p \<and> p < 2 ^ 16"
  then show "infer_id_server_from_relay (h @ '':'' @ show_nat p) = h @ '':'' @ show_nat (p - 1)"
    by (intro infer_port) auto
qed (simp_all add: build_direct_connection_config_def build_connection_config_def host_of_def split: option.splits)

theorem direct_config_matches_daemon_witness:
  "id_server (build_direct_connection_config ''1'' None None None (Some (''hbb.example'' @ '':'' @ show_nat 21117)) None) =
     ''hbb.example'' @ '':'' @ show_nat 21116 \<and>
   id_server (build_connection_config ''1'' None None None (Some (''hbb.example'' @ '':'' @ show_nat 21117)) None) =
     ''localhost:21116''"
  using direct_config_matches_daemon [of "''1''" None None None "Some (''hbb.example'' @ '':'' @ show_nat 21117)" None
      "''hbb.example''" 21117]
  by (simp add: eval_nat_numeral(1))

text \<open>
  A disconnect reports success whenever a daemon seems to be running, whatever it answers, if it answers at all.
\<close>

lemma disconnect_reports_success:
  "is_daemon_running (cl_proc env) (cl_files env) \<Longrightarrow>
   run_command env False pm CmdDisconnect = ([AskDaemon Disconnect, Printed (Stdout ''disconnected'')], Exit EXIT_SUCCESS)"
  by (simp add: run_command_def disconnect_cli_def after_def emit_def emit_response_def disconnect_response_def)

text \<open>A capture to a file without a daemon reports an image that was never taken or written.\<close>

lemma capture_without_daemon:
  assumes "\<not> is_daemon_running (cl_proc env) (cl_files env)"
  shows "snd (run_command env jm pm (CmdCapture (Some path) display fmt q t region)) = Exit EXIT_SUCCESS \<and>
    \<not> list_ex (\<lambda>e. reaches e \<or> (\<exists>bs. e = Wrote (Some path) bs))
        (fst (run_command env jm pm (CmdCapture (Some path) display fmt q t region)))"
  using assms
  by (auto simp: run_command_def capture_cli_def capture_undaemoned_def emit_def emit_response_def capture_response_def
      Let_def split: prod.splits)

text \<open>A password read from \<^verbatim>\<open>stdin\<close> is passed on in the argument list of the daemon process.\<close>

lemma password_in_arguments:
  assumes "StartDaemon argv \<in> set (fst (run_command env jm pm (CmdConnect peer False True so t)))"
  shows "\<exists>line. cl_stdin env = Ok line \<and> trim_end_matches [CHR 0x0A] line \<in> set argv"
  using assms
  by (auto simp: run_command_def connect_command_def connect_daemon_def after_def emit_error_def emit_def Let_def
      spawn_args_def opt_arg_def split: sum.splits if_splits prod.splits)

text \<open>Without a lock file a command for the daemon ends with the code of a connection error, not of a session error.\<close>

lemma no_session_is_connection_error:
  assumes "f_lock (cl_files_later env) = None" and "cl_runtime env = Ok ()"
  shows "snd (ask_daemon env jm name cmd failed ok) = Exit EXIT_CONNECTION"
  using assms
  by (simp add: ask_daemon_def send_to_daemon_def send_command_def lock_read_def read_to_string_def bind_result_def
      with_ctx_def after_def emit_error_def emit_def emit_response_def error_response_def Let_def)

end
