(* ===== verification/End_To_End.thy ===== *)
theory End_To_End
  imports Cli
begin

text \<open>
  Whole paths through the program: the command line, the local socket, the daemon and the peer. The socket carries what
  the daemon writes while it handles the line of the client; everything else is the model of the other theories.
\<close>

section \<open>The daemon at the other end of the socket\<close>

definition daemon_answers :: "'img daemon_env \<Rightarrow> PeerConfig \<Rightarrow> dstate \<Rightarrow> client_half \<Rightarrow> unit result \<times> string result list" where
  "daemon_answers denv cfg w half =
     (Ok (), map (\<lambda>b. Ok (bytes_str b))
        (drop (length (uds_out w)) (uds_out (snd (handle_line denv cfg [] (bytes_str (ch_written half)) None w)))))"

text \<open>The line a response travels as.\<close>

definition wire :: "'img daemon_env \<Rightarrow> SessionResponse \<Rightarrow> string" where
  "wire denv r = bytes_str (de_ser denv r @ [10])"

lemma on_stream_Done:
  "m dl (net.truncate w) = (Done (Ok v), n) \<Longrightarrow> on_stream m dl w = (Done (Ok v), net.extend n (net.more w))"
  by (simp add: on_stream_def)

lemma reply_run:
  fixes w :: dstate
  assumes "uds_faults w = []"
  shows "answer_and_go denv resp None w = (Done (Ok True), w\<lparr>uds_out := uds_out w @ [de_ser denv resp @ [10]]\<rparr>)"
proof -
  have "on_stream (send_response (de_ser denv) resp) None w = (Done (Ok ()), w\<lparr>uds_out := uds_out w @ [de_ser denv resp @ [10]]\<rparr>)"
    using assms by (cases w) (simp add: on_stream_def send_response_def uds_write_def net.defs)
  then show ?thesis
    by (simp add: answer_and_go_def reply_line_def ignore_async_def bind_async_def try_async_def lift_apply)
qed

section \<open>Exec\<close>

text \<open>
  The daemon's side of an exec on a terminal connection: when the command succeeds, the lines it wrote while running
  are followed by the final response.
\<close>

lemma exec_line_run:
  fixes w :: dstate
  assumes "parse_cmd denv (trim line) = Ok (Exec cmd ts)" and "d_conn_type w = TerminalConn"
    and "exec_command_streaming (de_ext denv) (de_ser denv) (de_nanos denv (clock w)) cmd ts None (net.truncate w) =
      (Done (Ok resp), n)"
    and "uds_faults n = []"
  shows "handle_line denv cfg evs line None w =
    (Done (Ok True), (net.extend n (net.more w))\<lparr>uds_out := uds_out n @ [de_ser denv resp @ [10]]\<rparr>)"
proof -
  let ?w = "net.extend n (net.more w) :: dstate"
  have run: "on_stream (exec_command_streaming (de_ext denv) (de_ser denv) (de_nanos denv (clock w)) cmd ts) None w =
      (Done (Ok resp), ?w)" by (rule on_stream_Done) (rule assms(3))
  have "uds_faults ?w = []" "uds_out ?w = uds_out n" using assms(4) by (simp_all add: net.defs)
  then have "answer_and_go denv resp None ?w = (Done (Ok True), ?w\<lparr>uds_out := uds_out n @ [de_ser denv resp @ [10]]\<rparr>)"
    using reply_run [of ?w denv resp] by simp
  with run assms(1,2) show ?thesis
    by (simp add: handle_line_def match_async_def switch_mode_def conn_type_for_command_def command_arm_def exec_arm_def
        run_with_reconnect_def bind_async_def try_async_def)
qed

text \<open>
  C6. An exec from the command line to the peer and back. When the command is permitted, a daemon on a terminal
  connection is at the other end of the socket, the JSON lines between the two parse back, and the peer opens the
  terminal, goes quiet after its prompt and prints the output with the sentinel before the deadline, then the user sees
  every chunk of that output in order and then the exit code of the remote command, and what the peer got was the open
  request, the command, and the close request.
\<close>

theorem exec_end_to_end:
  fixes w :: dstate
  assumes names: "ot0 = max ot (clock w)" "s = sentinel_of (de_nanos denv (clock w))" "x = de_ext denv"
      "ec = (case parse_i32 ds of Some c \<Rightarrow> c | None \<Rightarrow> - 1)"
    and cli: "permitted env cli" "cli_command cli = CmdExec cmd t None so" "\<not> cli_json cli" "length cmd \<le> 900"
    and socket: "lock_read (cl_proc env) (cl_files_later env) = Ok lock"
      "uds_connect (cl_uds env) (lf_socket lock) = Ok (daemon_answers denv cfg w)"
    and there: "parse_cmd denv (trim (bytes_str (uds_ser (cl_uds env) (Exec cmd (Some t)) @ [10]))) = Ok (Exec cmd (Some t))"
    and returned: "\<forall>r \<in> set (map exec_output_chunk_response cs @ [executed cmd (trim_end_matches [CHR 0x0D, CHR 0x0A] full) ec False]).
      trim (wire denv r) \<noteq> [] \<and> uds_parse (cl_uds env) (trim (wire denv r)) = Ok r"
    and daemon: "d_conn_type w = TerminalConn" "faults w = []" "uds_faults w = []"
      "inbox w = (ot, Ok rawo) # prompts @ pieces @ later"
    and opened: "dec_msg x rawo = Ok (MTerminalResponse (Some (ROpened op)))" "op_success op" "ot \<le> clock w + 15000"
    and prompts: "list_all2 (is_chunk x) prompts ps" "paced ot0 2000 prompts"
      "quiet_until (arrival ot0 prompts + 2000) (pieces @ later)"
    and printed_by: "list_all2 (is_chunk x) pieces cs" "appears_last s [] cs"
      "arrival (arrival ot0 prompts + 2000) pieces < arrival ot0 prompts + 2000 + exec_completion_timeout (Some t)"
    and outp: "from_utf8_lossy (concat cs) = exec_raw s pre eol full part ds tail"
      "sentinel_fresh s pre eol full part ds tail" "output_shape eol full part ds tail"
  shows "run env (Inr cli) =
      (AskDaemon (Exec cmd (Some t)) # map (\<lambda>d. Chunk (from_utf8_lossy d)) cs @
         [Printed (Stdout (''exec exit_code='' @ show_i32 ec))], Exit EXIT_SUCCESS) \<and>
    outbox (snd (handle_line denv cfg [] (bytes_str (uds_ser (cl_uds env) (Exec cmd (Some t)) @ [10])) None w)) =
      outbox w @ map (enc_msg x) [MTerminalAction (Some (TOpen 0 24 80)),
        MTerminalAction (Some (TData (op_terminal_id op)
          (str_bytes (cmd @ [CHR 0x0A] @ echo_command s @ ''$?'' @ [CHR 0x0A])) False)),
        MTerminalAction (Some (TClose (op_terminal_id op)))]"
proof -
  let ?n = "net.truncate w" and ?line = "bytes_str (uds_ser (cl_uds env) (Exec cmd (Some t)) @ [10])"
  let ?resp = "executed cmd (trim_end_matches [CHR 0x0D, CHR 0x0A] full) ec False"
  have trunc: "inbox ?n = inbox w" "faults ?n = faults w" "uds_faults ?n = uds_faults w" "clock ?n = clock w"
    "outbox ?n = outbox w" "uds_out ?n = uds_out w"
    by (simp_all add: net.defs)
  obtain n where n: "exec_command_inner x (de_ser denv) (de_nanos denv (clock w)) cmd (Some t) True None ?n =
        (Done (Ok ?resp), n)" "uds_faults n = []"
      "uds_out n = uds_out w @ map (\<lambda>d. de_ser denv (exec_output_chunk_response d) @ [10]) cs"
      "outbox n = outbox w @ map (enc_msg x) [MTerminalAction (Some (TOpen 0 24 80)),
        MTerminalAction (Some (TData (op_terminal_id op)
          (str_bytes (cmd @ [CHR 0x0A] @ echo_command s @ ''$?'' @ [CHR 0x0A])) False)),
        MTerminalAction (Some (TClose (op_terminal_id op)))]"
    using exec_peer_run [where w = ?n and x = x and nanos = "de_nanos denv (clock w)" and ts = "Some t"
        and ser = "de_ser denv" and streaming = True, unfolded trunc,
        OF daemon(4,2,3) opened prompts [unfolded names(1)] printed_by [unfolded names(1,2)] outp [unfolded names(2)] cli(4)]
    by (auto simp: sends_def chunk_lines_def names trunc)
  from exec_line_run [of denv ?line cmd "Some t" w ?resp n cfg "[]", OF there daemon(1) _ n(2)] n(1)
  have handled: "handle_line denv cfg [] ?line None w =
      (Done (Ok True), (net.extend n (net.more w))\<lparr>uds_out := uds_out n @ [de_ser denv ?resp @ [10]]\<rparr>)"
    by (simp add: exec_command_streaming_def names)
  then have "daemon_answers denv cfg w \<lparr>ch_written = uds_ser (cl_uds env) (Exec cmd (Some t)) @ [10], ch_shut = True\<rparr> =
      (Ok (), map (\<lambda>r. Ok (wire denv r)) (map exec_output_chunk_response cs @ [?resp]))"
    by (simp add: daemon_answers_def n(3) wire_def)
  moreover from printed_by(2) have "cs \<noteq> []" by (simp add: appears_last_def)
  ultimately have "run env (Inr cli) =
      (AskDaemon (Exec cmd (Some t)) # map (\<lambda>d. Chunk (from_utf8_lossy d)) cs @
         [Printed (Stdout (''exec exit_code='' @ show_i32 ec))], Exit EXIT_SUCCESS)"
    using exec_shown [OF cli(1-3) socket _ refl _ returned] by simp
  moreover have "outbox (snd (handle_line denv cfg [] ?line None w)) =
      outbox w @ map (enc_msg x) [MTerminalAction (Some (TOpen 0 24 80)),
        MTerminalAction (Some (TData (op_terminal_id op)
          (str_bytes (cmd @ [CHR 0x0A] @ echo_command s @ ''$?'' @ [CHR 0x0A])) False)),
        MTerminalAction (Some (TClose (op_terminal_id op)))]"
    unfolding handled n(4) [symmetric] by (simp add: net.defs)
  ultimately show ?thesis by blast
qed

text \<open>The peer of the theory Exec, a daemon connected to it, and a user who runs \<^verbatim>\<open>echo hi\<close>.\<close>

definition hi_done :: SessionResponse where
  "hi_done = executed ''echo hi'' (trim_end_matches [CHR 0x0D, CHR 0x0A] (''hi'' @ [CHR 0x0A]))
     (case parse_i32 ''0'' of Some c \<Rightarrow> c | None \<Rightarrow> - 1) False"

definition hi_denv :: "bytes daemon_env" where
  "hi_denv = demo_denv\<lparr>de_conn := peer_env\<lparr>ce_ext := exec_ext\<rparr>, de_nanos := (\<lambda>_. 0),
     de_ser := (\<lambda>r. if r = hi_done then [98] else if r = exec_output_chunk_response demo_chunk1 then [97] else [99]),
     parse_cmd := (\<lambda>_. Ok (Exec ''echo hi'' (Some 30)))\<rparr>"

definition hi_dstate :: dstate where
  "hi_dstate = demo_dstate\<lparr>inbox := [(10, Ok [1]), (3000, Ok [5]), (3100, Ok [6])], d_conn_type := TerminalConn\<rparr>"

definition hi_env :: cli_env where
  "hi_env = demo_cli_env\<lparr>cl_uds := \<lparr>uds_connect = (\<lambda>_. Ok (daemon_answers hi_denv demo_config hi_dstate)),
     uds_ser = (\<lambda>_. []),
     uds_parse = (\<lambda>l. Ok (if l = ''b'' then hi_done else if l = ''a'' then exec_output_chunk_response demo_chunk1
       else exec_output_chunk_response demo_chunk2))\<rparr>\<rparr>"

definition hi_cli :: Cli where
  "hi_cli = demo_exec\<lparr>cli_command := CmdExec ''echo hi'' 30 None demo_opts\<rparr>"

lemma hi_bytes: "bytes_str [97] = ''a''" "bytes_str [98] = ''b''" "bytes_str [99] = ''c''" "bytes_str [10] = [CHR 0x0A]"
  by code_simp+

lemma ws_chars: "ws_encodings =
  [[CHR 0x09], [CHR 0x0A], [CHR 0x0B], [CHR 0x0C], [CHR 0x0D], [CHR 0x20], [CHR 0xC2, CHR 0x85], [CHR 0xC2, CHR 0xA0],
   [CHR 0xE1, CHR 0x9A, CHR 0x80]] @ map (\<lambda>c. [CHR 0xE2, CHR 0x80, c])
   [CHR 0x80, CHR 0x81, CHR 0x82, CHR 0x83, CHR 0x84, CHR 0x85, CHR 0x86, CHR 0x87, CHR 0x88, CHR 0x89, CHR 0x8A,
    CHR 0xA8, CHR 0xA9, CHR 0xAF] @ [[CHR 0xE2, CHR 0x81, CHR 0x9F], [CHR 0xE3, CHR 0x80, CHR 0x80]]"
  by code_simp

lemma trim_char_line:
  assumes "c \<in> set ''abc''"
  shows "trim [c, CHR 0x0A] = [c]"
proof -
  have "ws_len ws_encodings [c, CHR 0x0A] = 0" "ws_len (map rev ws_encodings) [CHR 0x0A, c] = 1"
      "ws_len (map rev ws_encodings) [c] = 0"
    using assms by (auto simp add: ws_len_def ws_chars starts_with_def)
  then show ?thesis
    by (simp add: trim_def trim_start_def trim_end_def trim_with.simps [of _ "[c, CHR 0x0A]"]
        trim_with.simps [of _ "[CHR 0x0A, c]"] trim_with.simps [of _ "[c]"])
qed

lemma hi_wire: "r \<in> {exec_output_chunk_response demo_chunk1, exec_output_chunk_response demo_chunk2, hi_done} \<Longrightarrow>
  trim (wire hi_denv r) \<noteq> [] \<and> uds_parse (cl_uds hi_env) (trim (wire hi_denv r)) = Ok r"
  by (auto simp: wire_def hi_denv_def hi_env_def hi_bytes trim_char_line)

theorem exec_end_to_end_witness:
  "run hi_env (Inr hi_cli) =
      (AskDaemon (Exec ''echo hi'' (Some 30)) # map (\<lambda>d. Chunk (from_utf8_lossy d)) [demo_chunk1, demo_chunk2] @
         [Printed (Stdout (''exec exit_code='' @ show_i32 (case parse_i32 ''0'' of Some c \<Rightarrow> c | None \<Rightarrow> - 1)))],
       Exit EXIT_SUCCESS)"
proof (rule conjunct1 [OF exec_end_to_end [where w = hi_dstate and denv = hi_denv and cfg = demo_config
      and prompts = "[]" and ps = "[]" and pieces = "[(3000, Ok [5]), (3100, Ok [6])]" and later = "[]" and op = opened3
      and rawo = "[1]" and ot = 10 and ot0 = 10 and s = demo_s and x = exec_ext and so = demo_opts
      and lock = "\<lparr>lf_pid = 1, lf_socket = SOCKET_PATH\<rparr>", OF _ _ _ refl _ _ _ _ _ _ _ _ _ _ _ _ _ _ _ _ _ _ _
      demo_appears _ _ demo_fresh demo_shape]])
  show "permitted hi_env hi_cli"
    by (simp add: permitted_def hi_cli_def demo_exec_def hi_env_def from_flags_def bind_result_def permitted_command_def
        in_sandbox_def confirmed_def)
  show "list_all2 (is_chunk exec_ext) [(3000, Ok [5]), (3100, Ok [6])] [demo_chunk1, demo_chunk2]"
    by (simp add: is_chunk_def exec_ext_decodes terminal_event_def)
  show "\<forall>r \<in> set (map exec_output_chunk_response [demo_chunk1, demo_chunk2] @
      [executed ''echo hi'' (trim_end_matches [CHR 0x0D, CHR 0x0A] (''hi'' @ [CHR 0x0A]))
         (case parse_i32 ''0'' of Some c \<Rightarrow> c | None \<Rightarrow> - 1) False]).
      trim (wire hi_denv r) \<noteq> [] \<and> uds_parse (cl_uds hi_env) (trim (wire hi_denv r)) = Ok r"
    using hi_wire unfolding hi_done_def by simp
qed (simp_all add: hi_env_def hi_cli_def hi_denv_def hi_dstate_def demo_exec_def demo_cli_env_def demo_dstate_def
    world_start_def world.defs demo_files_def demo_proc_def lock_read_def read_to_string_def bind_result_def demo_s_def
    exec_ext_decodes opened3_def quiet_until_def exec_completion_timeout_def demo_lossy [unfolded demo_s_def],
    simp_all add: MAX_EXEC_COMPLETION_TIMEOUT_def)


text \<open>
  The daemon and the direct exec read the same exit code unless it does not fit 32 bits: then the daemon says that
  it is unknown and the direct exec that the command succeeded.
\<close>

lemma exec_codes_compared:
  assumes "find_sentinel_output raw s = Some pos"
  shows "snd (parse_direct_exec_output raw s) = snd (parse_exec_output raw s) \<or>
    parse_i32 (takeWhile is_ascii_digit (drop (pos + length s) raw)) = None \<and>
    snd (parse_exec_output raw s) = - 1 \<and> snd (parse_direct_exec_output raw s) = 0"
  using assms by (auto simp: parse_exec_output_def parse_direct_exec_output_def Let_def split: option.splits)

section \<open>Captures\<close>

text \<open>
  A command that is neither a shell nor an exec nor a push nor a disconnect, on a default connection: the daemon answers
  with one line, and that line is what the command line program gets.
\<close>

definition plain_command :: "SessionCommand \<Rightarrow> bool" where
  "plain_command cmd \<longleftrightarrow>
     (case cmd of Shell \<Rightarrow> False | Exec _ _ \<Rightarrow> False | Push _ _ \<Rightarrow> False | Disconnect \<Rightarrow> False | _ \<Rightarrow> True)"

lemma plain_command_arm:
  assumes "plain_command cmd"
  shows "command_arm denv cfg evs cmd = other_arm denv cfg cmd" "conn_type_for_command cmd = DefaultConn" "cmd \<noteq> Disconnect"
  using assms by (cases cmd; simp add: plain_command_def command_arm_def conn_type_for_command_def)+

lemma plain_line_run:
  fixes w :: dstate
  assumes "plain_command cmd" and "parse_cmd denv (trim line) = Ok cmd" and "d_conn_type w = DefaultConn"
    and "execute_daemon_command denv cmd None w = (Done (Ok resp), w1)" and "uds_faults w1 = []"
  shows "handle_line denv cfg evs line None w =
    (Done (Ok True), w1\<lparr>uds_out := uds_out w1 @ [de_ser denv resp @ [10]]\<rparr>)"
proof -
  have "bind_async (reply_line denv resp) (\<lambda>_. return_async True) None w1 =
      (Done (Ok True), w1\<lparr>uds_out := uds_out w1 @ [de_ser denv resp @ [10]]\<rparr>)"
    using reply_run [OF assms(5), of denv resp] by (simp add: answer_and_go_def)
  with assms(2-4) show ?thesis
    by (simp add: handle_line_def match_async_def switch_mode_def plain_command_arm [OF assms(1)] other_arm_def
        run_with_reconnect_def bind_async_def try_async_def)
qed

lemma plain_command_answered:
  fixes w :: dstate
  assumes "plain_command cmd" and "cl_runtime env = Ok ()" and "lock_read (cl_proc env) (cl_files_later env) = Ok lock"
    and "uds_connect (cl_uds env) (lf_socket lock) = Ok (daemon_answers denv cfg w)"
    and "parse_cmd denv (trim (bytes_str (uds_ser (cl_uds env) cmd @ [10]))) = Ok cmd"
    and "d_conn_type w = DefaultConn" and "execute_daemon_command denv cmd None w = (Done (Ok resp), w1)"
    and "uds_faults w1 = []" and "uds_out w1 = uds_out w" and "uds_parse (cl_uds env) (trim (wire denv resp)) = Ok resp"
  shows "send_to_daemon env cmd = Ok resp"
proof -
  have "daemon_answers denv cfg w (command_half (cl_uds env) cmd) =
      (Ok (), [Ok (wire denv resp)])"
    unfolding daemon_answers_def command_half_def client_half.select_convs plain_line_run [OF assms(1,5-8)] by (simp add: assms(9) wire_def)
  then show ?thesis
    using assms(2-4,10) by (simp add: send_to_daemon_def send_command_def bind_result_def with_ctx_def)
qed

lemma recv_until_run:
  assumes "inbox w = pre @ (t, r) # rest" and "list_all (\<lambda>p. f (snd p) = None) pre" and "f r = Some res"
    and "arrival (clock w) (pre @ [(t, r)]) \<le> d"
  shows "recv_until f (Some d) w = (Done res, w\<lparr>clock := arrival (clock w) (pre @ [(t, r)]), inbox := rest\<rparr>)"
  using assms
proof (induction pre arbitrary: w)
  case Nil
  then show ?case by (subst recv_until.simps) (simp add: stream_recv_def)
next
  case (Cons p pre)
  obtain u q where p: "p = (u, q)" by force
  let ?w = "w\<lparr>clock := max u (clock w), inbox := pre @ (t, r) # rest\<rparr>"
  have "max u (clock w) \<le> d"
    using Cons.prems(4) arrival_ge [of "max u (clock w)" "pre @ [(t, r)]"] by (simp add: p)
  then have "recv_until f (Some d) w = recv_until f (Some d) ?w"
    using Cons.prems(1,2) by (subst recv_until.simps) (simp add: stream_recv_def p)
  also have "\<dots> = (Done res, w\<lparr>clock := arrival (clock w) ((p # pre) @ [(t, r)]), inbox := rest\<rparr>)"
    using Cons.IH [of ?w] Cons.prems by (simp add: p)
  finally show ?case .
qed


lemma request_screenshot_run:
  fixes n :: net
  assumes "faults n = []" and "inbox n = pre @ (a, Ok raw) # later"
    and "sid = ''rustdesk-cli-'' @ show_nat proc @ ''-'' @ show_nat nanos"
    and "list_all (\<lambda>p. screenshot_input x lib sid opts (snd p) = None) pre"
    and "dec_msg x raw = Ok (MScreenshotResponse shot)" and "sr_sid shot = sid" and "sr_msg shot = []"
    and "process_screenshot_bytes lib (sr_data shot) opts = Ok bs"
    and "arrival (clock n) (pre @ [(a, Ok raw)]) \<le> clock n + d"
  shows "timeout d (request_screenshot x lib proc nanos opts) None n =
    (Done (Ok (Some (Ok bs))), n\<lparr>clock := arrival (clock n) (pre @ [(a, Ok raw)]), inbox := later,
       outbox := outbox n @ [enc_msg x (MScreenshotRequest
         \<lparr>sq_display = (case co_display opts of Some d \<Rightarrow> d | None \<Rightarrow> 0), sq_sid = sid\<rparr>)]\<rparr>)"
proof -
  let ?n = "n\<lparr>outbox := outbox n @ [enc_msg x (MScreenshotRequest
    \<lparr>sq_display = (case co_display opts of Some d \<Rightarrow> d | None \<Rightarrow> 0), sq_sid = sid\<rparr>)]\<rparr>"
  have "screenshot_input x lib sid opts (Ok raw) = Some (Ok bs)"
    using assms(5-8) by (simp add: screenshot_input_def)
  from recv_until_run [of ?n pre a "Ok raw" later "screenshot_input x lib sid opts", OF _ _ this, of "clock n + d"] assms(2,4,9)
  have "recv_until (screenshot_input x lib sid opts) (Some (clock n + d)) ?n =
      (Done (Ok bs), ?n\<lparr>clock := arrival (clock n) (pre @ [(a, Ok raw)]), inbox := later\<rparr>)" by simp
  moreover have "request_screenshot x lib proc nanos opts =
      request_screenshot_with_sid x lib (case co_display opts of Some d \<Rightarrow> d | None \<Rightarrow> 0) sid opts"
    by (simp add: request_screenshot_def assms(3))
  ultimately show ?thesis using assms(1)
    by (simp add: timeout_def Let_def request_screenshot_with_sid_def bind_async_def ctx_async_def send_message_def
        stream_send_def)
qed

text \<open>
  C7. A screenshot from the peer to a file. When the daemon on a default connection is at the other end of the socket,
  the JSON lines between the two parse back, and the peer answers the request before the timeout, whatever else it
  sends before, then the file gets exactly the bytes that were made of the picture of the peer, through base64 and back,
  the user is told the file, the format and the number of bytes, and what the peer got was the one request. The line
  printed is the same for every region and has no width, height and region, although \<^verbatim>\<open>DESIGN.md\<close> lists them.
\<close>

theorem capture_end_to_end:
  fixes w :: dstate
  assumes names: "fmt' = unwrap_or (infer_format path) fmt" "x = de_ext denv"
      "cmd = Capture path (Some (format_as_str fmt')) (Some q) (map_option to_capture_region region) display (Some t)"
      "opts = \<lparr>co_format = Some (format_as_str fmt'), co_quality = Some q, co_region = map_option to_capture_region region,
         co_display = display\<rparr>"
      "sid = ''rustdesk-cli-'' @ show_nat (process_id (de_conn denv)) @ ''-'' @ show_nat (de_nanos denv (clock w))"
    and cli: "permitted env cli" "cli_command cli = CmdCapture (Some path) display fmt q t region" "\<not> cli_json cli"
      "is_daemon_running (cl_proc env) (cl_files env)" "cl_write env (Some path) bs = Ok ()"
    and socket: "cl_runtime env = Ok ()" "lock_read (cl_proc env) (cl_files_later env) = Ok lock"
      "uds_connect (cl_uds env) (lf_socket lock) = Ok (daemon_answers denv cfg w)"
    and there: "parse_cmd denv (trim (bytes_str (uds_ser (cl_uds env) cmd @ [10]))) = Ok cmd"
    and returned: "uds_parse (cl_uds env) (trim (wire denv (capture_response_data bs))) = Ok (capture_response_data bs)"
    and daemon: "d_conn_type w = DefaultConn" "faults w = []" "uds_faults w = []"
      "inbox w = pre @ (a, Ok raw) # later"
    and peer: "list_all (\<lambda>p. screenshot_input x (de_images denv) sid opts (snd p) = None) pre"
      "dec_msg x raw = Ok (MScreenshotResponse shot)" "sr_sid shot = sid" "sr_msg shot = []"
      "process_screenshot_bytes (de_images denv) (sr_data shot) opts = Ok bs"
      "arrival (clock w) (pre @ [(a, Ok raw)]) \<le> clock w + 1000 * unat t"
  shows "run env (Inr cli) =
      ([AskDaemon cmd, Wrote (Some path) bs, Printed (Stdout (''captured file='' @ path @ '' format='' @
         format_as_str fmt' @ '' bytes='' @ show_nat (length bs)))], Exit EXIT_SUCCESS) \<and>
    outbox (snd (handle_line denv cfg [] (bytes_str (uds_ser (cl_uds env) cmd @ [10])) None w)) =
      outbox w @ [enc_msg x (MScreenshotRequest
        \<lparr>sq_display = (case display of Some d \<Rightarrow> d | None \<Rightarrow> 0), sq_sid = sid\<rparr>)]"
proof -
  have plain: "plain_command cmd" by (simp add: names(3) plain_command_def)
  let ?n = "net.truncate w"
  have trunc: "inbox ?n = inbox w" "faults ?n = faults w" "clock ?n = clock w" "outbox ?n = outbox w" by simp_all
  define n where "n = ?n\<lparr>clock := arrival (clock w) (pre @ [(a, Ok raw)]), inbox := later,
    outbox := outbox w @ [enc_msg x (MScreenshotRequest \<lparr>sq_display = (case display of Some d \<Rightarrow> d | None \<Rightarrow> 0), sq_sid = sid\<rparr>)]\<rparr>"
  have shot: "on_stream (timeout (1000 * unat t) (request_screenshot x (de_images denv) (process_id (de_conn denv))
      (de_nanos denv (clock w)) opts)) None w = (Done (Ok (Some (Ok bs))), net.extend n (net.more w))"
    using request_screenshot_run [of ?n pre a raw later, unfolded trunc, OF daemon(2,4) names(5) peer]
    by (intro on_stream_Done) (simp add: n_def names(4))
  have run: "execute_daemon_command denv cmd None w = (Done (Ok (capture_response_data bs)), net.extend n (net.more w))"
    using shot by (simp add: execute_daemon_command_def names Let_def bind_async_def lift_apply)
  have uds: "uds_faults (net.extend n (net.more w) :: dstate) = []" "uds_out (net.extend n (net.more w) :: dstate) = uds_out w"
    using daemon(3) by (simp_all add: n_def)
  have "send_to_daemon env cmd = Ok (capture_response_data bs)"
    by (rule plain_command_answered [OF plain socket there daemon(1) run uds returned])
  moreover from cli(1) obtain pm where "from_flags (cl_machine env) (cli_skip_permissions cli) (cli_sandbox cli) = Ok pm"
    by (auto simp: permitted_def split: sum.splits)
  ultimately have "run env (Inr cli) =
      ([AskDaemon cmd, Wrote (Some path) bs, Printed (Stdout (''captured file='' @ path @ '' format='' @
         format_as_str fmt' @ '' bytes='' @ show_nat (length bs)))], Exit EXIT_SUCCESS)"
    using cli(2-5)
    by (simp add: run_def run_command_def capture_cli_def Let_def ask_daemon_def names(1,3) after_def
        capture_response_data_def resp_ok_with_data_def data_member_def base64_decode_encode write_capture_output_def
        emit_def emit_response_def capture_result_response_def)
  moreover have "outbox (snd (handle_line denv cfg [] (bytes_str (uds_ser (cl_uds env) cmd @ [10])) None w)) =
      outbox w @ [enc_msg x (MScreenshotRequest \<lparr>sq_display = (case display of Some d \<Rightarrow> d | None \<Rightarrow> 0), sq_sid = sid\<rparr>)]"
    unfolding plain_line_run [OF plain there daemon(1) run uds(1)] by (simp add: n_def)
  ultimately show ?thesis by blast
qed


text \<open>A peer whose first message is a screenshot somebody else asked for.\<close>

definition shot_sid :: string where
  "shot_sid = ''rustdesk-cli-'' @ show_nat 7 @ ''-'' @ show_nat 0"

definition shot_peer :: ext where
  "shot_peer = \<lparr>enc_msg = (\<lambda>_. [9]), dec_msg = (\<lambda>b. Ok (MScreenshotResponse
     \<lparr>sr_sid = (if b = [1] then [] else shot_sid), sr_msg = [], sr_data = [7, 8]\<rparr>)), dbg_response = (\<lambda>_. []),
     zstd_encode = Ok, zstd_decode = Ok\<rparr>"

definition shot_command :: SessionCommand where
  "shot_command = Capture ''a.png'' (Some ''png'') (Some 80) None None (Some 10)"

definition shot_denv :: "bytes daemon_env" where
  "shot_denv = demo_denv\<lparr>de_conn := peer_env\<lparr>ce_ext := shot_peer\<rparr>, de_nanos := (\<lambda>_. 0), parse_cmd := (\<lambda>_. Ok shot_command)\<rparr>"

definition shot_dstate :: dstate where
  "shot_dstate = demo_dstate\<lparr>inbox := [(10, Ok [1]), (3000, Ok [2])]\<rparr>"

definition shot_env :: cli_env where
  "shot_env = demo_cli_env\<lparr>cl_uds := \<lparr>uds_connect = (\<lambda>_. Ok (daemon_answers shot_denv demo_config shot_dstate)),
     uds_ser = (\<lambda>_. []), uds_parse = (\<lambda>_. Ok (capture_response_data [7, 8]))\<rparr>\<rparr>"

definition shot_cli :: Cli where
  "shot_cli = demo_exec\<lparr>cli_command := CmdCapture (Some ''a.png'') None (Some Png) 80 10 None\<rparr>"

theorem capture_end_to_end_witness:
  "run shot_env (Inr shot_cli) =
      ([AskDaemon shot_command, Wrote (Some ''a.png'') [7, 8], Printed (Stdout (''captured file='' @ ''a.png'' @ '' format='' @
         format_as_str Png @ '' bytes='' @ show_nat (length [7 :: u8, 8])))], Exit EXIT_SUCCESS)"
proof (rule conjunct1 [OF capture_end_to_end [where w = shot_dstate and denv = shot_denv and cfg = demo_config and q = 80
      and t = 10 and region = None and display = None and fmt = "Some Png" and x = shot_peer and later = "[]"
      and pre = "[(10, Ok [1])]" and a = 3000 and raw = "[2]" and sid = shot_sid
      and shot = "\<lparr>sr_sid = shot_sid, sr_msg = [], sr_data = [7, 8]\<rparr>"
      and lock = "\<lparr>lf_pid = 1, lf_socket = SOCKET_PATH\<rparr>", OF _ _ _ refl]])
  show "permitted shot_env shot_cli"
    by (simp add: permitted_def shot_cli_def demo_exec_def shot_env_def from_flags_def bind_result_def permitted_command_def)
  show "is_daemon_running (cl_proc shot_env) (cl_files shot_env)"
    by (simp add: shot_env_def demo_cli_env_def is_daemon_running_def is_socket_alive_def demo_files_def)
qed (simp_all add: shot_env_def shot_cli_def shot_denv_def shot_dstate_def demo_exec_def demo_cli_env_def demo_dstate_def
    world_start_def world.defs demo_files_def demo_proc_def lock_read_def read_to_string_def bind_result_def shot_peer_def
    shot_command_def shot_sid_def demo_denv_def peer_env_def screenshot_input_def process_screenshot_bytes_def demo_lib_def
    encode_image_def dstate.defs Let_def)


section \<open>The shell\<close>

text \<open>
  What the reader of a shell session gets from the client's half of the socket: the lines after the first, which was the
  command, and then the end of the input if the client has shut its half down; otherwise it waits. The events of the
  session are these, in this order, mixed in any way with those of the terminal.
\<close>

fun lines_of :: "bytes \<Rightarrow> bytes \<Rightarrow> bytes list" where
  "lines_of line [] = (if line = [] then [] else [line])"
| "lines_of line (b # bs) = (if b = 10 then (line @ [b]) # lines_of [] bs else lines_of (line @ [b]) bs)"

definition client_inputs :: "client_half \<Rightarrow> string option list" where
  "client_inputs half =
     map (\<lambda>l. Some (bytes_str l)) (tl (lines_of [] (ch_written half))) @ (if ch_shut half then [None] else [])"

fun from_client :: "shell_input \<Rightarrow> string option list" where
  "from_client (ShLine t l) = [Some l]"
| "from_client (ShEof t) = [None]"
| "from_client ShTerm = []"

text \<open>The socket of a daemon that runs a shell; \<open>evs\<close> tells its events for every client.\<close>

definition shell_answers ::
  "'img daemon_env \<Rightarrow> PeerConfig \<Rightarrow> dstate \<Rightarrow> (client_half \<Rightarrow> shell_input list) \<Rightarrow> client_half \<Rightarrow>
     unit result \<times> string result list" where
  "shell_answers denv cfg w evs half =
     (Ok (), map (\<lambda>b. Ok (bytes_str b)) (drop (length (uds_out w))
        (uds_out (snd (handle_line denv cfg (evs half) (bytes_str (hd (lines_of [] (ch_written half)))) None w)))))"

lemma lines_of_one: "10 \<notin> set bs \<Longrightarrow> lines_of line (bs @ [10]) = [line @ bs @ [10]]"
  by (induction bs arbitrary: line) auto

lemma recv_response_loop_keeps: "\<exists>r c i. recv_response_loop x dl w = (r, w\<lparr>clock := c, inbox := i\<rparr>)"
proof (induction "length (inbox w)" arbitrary: w rule: less_induct)
  case (less w)
  obtain r v where r: "stream_recv dl w = (r, v)" by force
  then obtain c i where v: "v = w\<lparr>clock := c, inbox := i\<rparr>"
    by (cases w) (auto simp: stream_recv_def Let_def split: list.splits option.splits if_splits)
  have shorter: "length (inbox v) < length (inbox w)" if "r = Done q" for q
    using r that by (auto simp: stream_recv_def Let_def split: list.splits option.splits if_splits)
  have again: "\<exists>r c i. recv_response_loop x dl v = (r, w\<lparr>clock := c, inbox := i\<rparr>)" if "r = Done q" for q
    using less [OF shorter [OF that]] unfolding v by auto
  show ?case
  proof (cases r)
    case (Done q)
    from again [OF Done] show ?thesis
      by (auto simp: recv_response_loop.simps [of x dl w] ctx_async_def r Done v bail_def
          split: sum.splits message.splits option.splits)
  qed (auto simp: recv_response_loop.simps [of x dl w] ctx_async_def r v)
qed

lemma recv_terminal_data_keeps: "\<exists>r c i. recv_terminal_data x None w = (Done r, w\<lparr>clock := c, inbox := i\<rparr>)"
proof -
  let ?d = "clock w + TERMINAL_RESPONSE_TIMEOUT"
  obtain r c i where r: "recv_response_loop x (Some ?d) w = (r, w\<lparr>clock := c, inbox := i\<rparr>)"
    using recv_response_loop_keeps by blast
  moreover have "r \<noteq> Hang" using well_behavedD [OF wb_recv_response_loop r] by blast
  ultimately show ?thesis
    by (cases r) (auto simp: recv_terminal_data_def recv_terminal_data_with_timeout_def recv_terminal_response_def
        timeout_def bind_async_def ctx_async_def lift_async_def with_ctx_def Let_def split: sum.splits)
qed

text \<open>
  A session whose client has nothing more to say and has shut its half down: whatever the terminal does meanwhile,
  the session ends, nothing is typed, and the terminal is closed unless it has closed itself or failed.
\<close>

lemma shell_loop_ends:
  fixes n :: net
  assumes "concat (map from_client evs) = [None]" and "faults n = []" and "uds_faults n = []"
  shows "\<exists>n' outs closing. shell_loop x tid evs None n = (Done (Ok ()), n') \<and> uds_out n' = uds_out n @ outs \<and>
    outbox n' = outbox n @ closing \<and> closing \<in> {[], [enc_msg x (MTerminalAction (Some (TClose tid)))]} \<and>
    (evs = ShEof te # rest \<longrightarrow> closing \<noteq> [] \<and> outs = [])"
  using assms
proof (induction evs arbitrary: n)
  case (Cons ev evs)
  show ?case
  proof (cases ev)
    case (ShEof t)
    with Cons.prems show ?thesis
      by (simp add: bind_async_def advance_def ignore_async_def try_async_def close_terminal_def ctx_async_def
          send_action_def send_message_def stream_send_def set_service_def lift_apply)
  next
    case ShTerm
    obtain r c i where r: "recv_terminal_data x None n = (Done r, n\<lparr>clock := c, inbox := i\<rparr>)"
      using recv_terminal_data_keeps by blast
    let ?n = "n\<lparr>clock := c, inbox := i\<rparr>"
    show ?thesis
    proof (cases "\<exists>d. r = Ok (EvData d)")
      case True
      then obtain d where d: "r = Ok (EvData d)" ..
      let ?m = "?n\<lparr>uds_out := uds_out n @ [d]\<rparr>"
      from Cons.IH [of ?m] Cons.prems ShTerm obtain n' outs closing where
        "shell_loop x tid evs None ?m = (Done (Ok ()), n')" "uds_out n' = uds_out ?m @ outs"
        "outbox n' = outbox ?m @ closing" "closing \<in> {[], [enc_msg x (MTerminalAction (Some (TClose tid)))]}" by auto
      with ShTerm r d Cons.prems show ?thesis
        by (intro exI [of _ n'] exI [of _ "d # outs"] exI [of _ closing])
          (simp add: bind_async_def try_async_def uds_write_def)
    next
      case False
      then have "shell_loop x tid (ShTerm # evs) None n = set_service None None ?n"
        using r by (auto simp: bind_async_def try_async_def split: sum.splits TerminalEvent.splits)
      with ShTerm show ?thesis by (simp add: set_service_def)
    qed
  qed (use Cons.prems in simp)
qed simp

lemma shell_session_ends:
  fixes n :: net
  assumes "concat (map from_client evs) = [None]" and "inbox n = (ot, Ok rawo) # later"
    and "dec_msg x rawo = Ok (MTerminalResponse (Some (ROpened op)))"
    and "op_success op" and "faults n = []" and "uds_faults n = []" and "ot \<le> clock n + 15000"
  shows "\<exists>n' outs closing. shell_session x ser evs None n = (Done (Ok ()), n') \<and>
    uds_out n' = uds_out n @ [ser (shell_started (op_terminal_id op)) @ [10]] @ outs \<and>
    outbox n' = outbox n @ [enc_msg x (MTerminalAction (Some (TOpen 0 24 80)))] @ closing \<and>
    closing \<in> {[], [enc_msg x (MTerminalAction (Some (TClose (op_terminal_id op))))]} \<and>
    (evs = ShEof te # rest \<longrightarrow> closing \<noteq> [] \<and> outs = [])"
proof -
  let ?n = "n\<lparr>clock := max ot (clock n), inbox := later,
    outbox := outbox n @ [enc_msg x (MTerminalAction (Some (TOpen 0 24 80)))], active_service_id := Some (op_service_id op),
    uds_out := uds_out n @ [ser (shell_started (op_terminal_id op)) @ [10]]\<rparr>"
  have "shell_session x ser evs None n = shell_loop x (op_terminal_id op) evs None ?n"
    using assms open_run [of n ot rawo later x op]
    by (simp add: shell_session_def SHELL_TERMINAL_OPEN_TIMEOUT_def EXEC_TERMINAL_OPEN_TIMEOUT_def bind_async_def lift_apply
        set_service_def write_json_line_def uds_write_def)
  with shell_loop_ends [of evs ?n x "op_terminal_id op" te rest] assms(1,5,6) show ?thesis by auto
qed

text \<open>
  C38. The shell command does not give a shell. \<^verbatim>\<open>send_command\<close> shuts its half of the socket down after the one line of
  the command, so the session reads the end of its input. When the daemon on a terminal connection is at the other end
  of the socket and the peer opens the terminal, then in whatever order the terminal's output and the end of the input
  come, the command prints that the shell is interactive and ends with success, while the session in the daemon is over,
  with the terminal opened and at most closed again: nothing was typed into it and nothing it prints reaches the user.
  When the end of the input comes first, the terminal is closed at once.
\<close>

theorem shell_opens_and_closes:
  fixes w :: dstate
  assumes cli: "permitted env cli" "cli_command cli = CmdShell" "\<not> cli_json cli"
    and socket: "cl_runtime env = Ok ()" "lock_read (cl_proc env) (cl_files_later env) = Ok lock"
      "uds_connect (cl_uds env) (lf_socket lock) = Ok (shell_answers denv cfg w evs)"
      "\<And>half. concat (map from_client (evs half)) = client_inputs half"
    and one_line: "10 \<notin> set (uds_ser (cl_uds env) Shell)"
    and there: "parse_cmd denv (trim (bytes_str (uds_ser (cl_uds env) Shell @ [10]))) = Ok Shell"
    and returned: "uds_parse (cl_uds env) (trim (wire denv (shell_started (op_terminal_id op)))) =
      Ok (shell_started (op_terminal_id op))"
    and daemon: "d_conn_type w = TerminalConn" "faults w = []" "uds_faults w = []" "inbox w = (ot, Ok rawo) # later"
    and opened: "dec_msg (de_ext denv) rawo = Ok (MTerminalResponse (Some (ROpened op)))" "op_success op"
      "ot \<le> clock w + 15000"
    and half: "half = command_half (cl_uds env) Shell"
  shows "run env (Inr cli) = ([AskDaemon Shell, Printed (Stdout ''shell mode=interactive'')], Exit EXIT_SUCCESS) \<and>
    fst (handle_line denv cfg (evs half) (bytes_str (ch_written half)) None w) = Done (Ok True) \<and>
    (\<exists>closing. outbox (snd (handle_line denv cfg (evs half) (bytes_str (ch_written half)) None w)) =
       outbox w @ [enc_msg (de_ext denv) (MTerminalAction (Some (TOpen 0 24 80)))] @ closing \<and>
       closing \<in> {[], [enc_msg (de_ext denv) (MTerminalAction (Some (TClose (op_terminal_id op))))]} \<and>
       (evs half = ShEof te # rest \<longrightarrow> closing \<noteq> []))"
proof -
  let ?line = "bytes_str (uds_ser (cl_uds env) Shell @ [10])" and ?resp = "shell_started (op_terminal_id op)"
  have lines: "lines_of [] (ch_written half) = [uds_ser (cl_uds env) Shell @ [10]]"
    using lines_of_one [OF one_line, of "[]"] by (simp add: half command_half_def)
  with socket(4) [of half] have eof: "concat (map from_client (evs half)) = [None]"
    by (simp add: client_inputs_def half command_half_def)
  from shell_session_ends [of "evs half" "net.truncate w" ot rawo later "de_ext denv" op "de_ser denv" te rest] eof daemon opened
  obtain n outs closing where n: "shell_session (de_ext denv) (de_ser denv) (evs half) None (net.truncate w) = (Done (Ok ()), n)"
    "uds_out n = uds_out w @ [de_ser denv ?resp @ [10]] @ outs"
    "outbox n = outbox w @ [enc_msg (de_ext denv) (MTerminalAction (Some (TOpen 0 24 80)))] @ closing"
    "closing \<in> {[], [enc_msg (de_ext denv) (MTerminalAction (Some (TClose (op_terminal_id op))))]}"
    "evs half = ShEof te # rest \<longrightarrow> closing \<noteq> []" by auto
  have "on_stream (shell_session (de_ext denv) (de_ser denv) (evs half)) None w = (Done (Ok ()), net.extend n (net.more w))"
    by (rule on_stream_Done) (rule n(1))
  then have handled: "handle_line denv cfg (evs half) ?line None w = (Done (Ok True), net.extend n (net.more w))"
    using there daemon(1)
    by (simp add: handle_line_def match_async_def switch_mode_def conn_type_for_command_def command_arm_def shell_arm_def
        bind_async_def try_async_def lift_apply)
  then have "shell_answers denv cfg w evs half =
      (Ok (), Ok (wire denv ?resp) # map (\<lambda>b. Ok (bytes_str b)) outs)"
    by (simp add: shell_answers_def lines n(2) wire_def)
  with socket returned have "send_to_daemon env Shell = Ok ?resp"
    by (simp add: send_to_daemon_def send_command_def bind_result_def with_ctx_def half)
  moreover from cli(1,2) obtain pm where pm: "from_flags (cl_machine env) (cli_skip_permissions cli) (cli_sandbox cli) = Ok pm"
    and "permitted_command env pm CmdShell" by (auto simp: permitted_def split: sum.splits)
  then have "ensure_shell_allowed pm (cl_user env 0) = Ok ()"
    using shell_cases [of pm "cl_user env 0"] by (auto simp: permitted_command_def)
  ultimately have "run env (Inr cli) = ([AskDaemon Shell, Printed (Stdout ''shell mode=interactive'')], Exit EXIT_SUCCESS)"
    using cli(2,3) pm
    by (simp add: run_def run_command_def shell_cli_def ask_daemon_def after_def shell_started_def resp_ok_with_data_def
        emit_def emit_response_def shell_response_def)
  with n(3-5) handled show ?thesis by (auto simp: half command_half_def)
qed

definition sh_denv :: "bytes daemon_env" where
  "sh_denv = demo_denv\<lparr>de_conn := peer_env\<lparr>ce_ext := exec_ext\<rparr>, parse_cmd := (\<lambda>_. Ok Shell)\<rparr>"

definition sh_dstate :: dstate where
  "sh_dstate = demo_dstate\<lparr>inbox := [(10, Ok [1])], d_conn_type := TerminalConn\<rparr>"

definition sh_events :: "client_half \<Rightarrow> shell_input list" where
  "sh_events half = map (\<lambda>c. case c of Some l \<Rightarrow> ShLine 5 l | None \<Rightarrow> ShEof 5) (client_inputs half)"

definition sh_env :: cli_env where
  "sh_env = demo_cli_env\<lparr>cl_uds := \<lparr>uds_connect = (\<lambda>_. Ok (shell_answers sh_denv demo_config sh_dstate sh_events)),
     uds_ser = (\<lambda>_. []), uds_parse = (\<lambda>_. Ok (shell_started 3))\<rparr>\<rparr>"

definition sh_cli :: Cli where
  "sh_cli = demo_exec\<lparr>cli_command := CmdShell\<rparr>"

theorem shell_opens_and_closes_witness:
  "run sh_env (Inr sh_cli) = ([AskDaemon Shell, Printed (Stdout ''shell mode=interactive'')], Exit EXIT_SUCCESS)"
proof (rule conjunct1 [OF shell_opens_and_closes [where w = sh_dstate and denv = sh_denv and cfg = demo_config and op = opened3
      and ot = 10 and rawo = "[1]" and later = "[]" and evs = sh_events
      and lock = "\<lparr>lf_pid = 1, lf_socket = SOCKET_PATH\<rparr>"]])
  show "permitted sh_env sh_cli"
    by (simp add: permitted_def sh_cli_def demo_exec_def sh_env_def from_flags_def bind_result_def permitted_command_def
        confirmed_def)
  show "concat (map from_client (sh_events half)) = client_inputs half" for half
  proof -
    have "concat (map from_client (map (\<lambda>c. case c of Some l \<Rightarrow> ShLine 5 l | None \<Rightarrow> ShEof 5) cs)) = cs" for cs
      by (induction cs) (auto split: option.splits)
    then show ?thesis by (simp add: sh_events_def)
  qed
qed (simp_all add: sh_env_def sh_cli_def sh_denv_def sh_dstate_def demo_exec_def demo_cli_env_def demo_dstate_def
    world_start_def world.defs demo_files_def demo_proc_def lock_read_def read_to_string_def bind_result_def
    exec_ext_decodes opened3_def)

section \<open>Keyboard and mouse\<close>

text \<open>What the commands for the keyboard and the mouse ask of the daemon, and what they print on success.\<close>

fun input_request :: "Commands \<Rightarrow> (SessionCommand \<times> Response) option" where
  "input_request (CmdType t) = Some (Type t, type_response t)"
| "input_request (CmdKey key mods) = Some (Key key, key_response key mods)"
| "input_request (CmdClick button dbl x y) = Some (Click x y (button_as_str button) dbl, click_response button x y dbl)"
| "input_request (CmdScroll x y delta) = Some (Scroll x y delta, scroll_response x y delta)"
| "input_request (CmdMove x y) = Some (Move x y, move_response x y)"
| "input_request (CmdDrag x1 y1 x2 y2) = Some (Drag x1 y1 x2 y2 ''left'', drag_response x1 y1 x2 y2)"
| "input_request _ = None"

lemma input_dispatch:
  assumes "state s = Connected" "input_request c = Some (cmd, out)"
  shows "\<exists>resp ms. dispatch cmd s = (Ok (resp, ms), s) \<and> success resp"
  using assms
  by (cases c) (auto simp: dispatch_def reply_arm_defs session_simps bind_op_def Let_def resp_ok_def resp_ok_with_data_def)

lemma input_request_plain:
  assumes "input_request c = Some (cmd, out)"
  shows "plain_command cmd" "execute_daemon_command denv cmd = dispatch_session cmd"
  using assms by (cases c; auto simp: plain_command_def execute_daemon_command_def fun_eq_iff)+

lemma input_request_run:
  assumes "input_request c = Some (cmd, out)" "send_to_daemon env cmd = Ok resp" "success resp"
  shows "run_command env jm pm c = after [AskDaemon cmd] (emit env jm out)"
  using assms by (cases c) (auto simp: run_command_def ask_daemon_def)

text \<open>
  C40. Keyboard and mouse commands report success and do nothing. When the daemon is connected to a peer and the JSON
  lines between the two parse back, a type, key, click, scroll, move or drag command prints its answer and ends with the
  exit code of that answer, whose line says that it was done, and in the daemon nothing at all has changed but the
  answer on the socket: no message was sent to the peer.
\<close>

theorem input_reported_but_not_sent:
  fixes w :: dstate
  assumes "permitted env cli" and "input_request (cli_command cli) = Some (cmd, out)" and "daemon_inv c w"
    and "d_conn_type w = DefaultConn" and "uds_faults w = []" and "cl_runtime env = Ok ()"
    and "lock_read (cl_proc env) (cl_files_later env) = Ok lock"
    and "uds_connect (cl_uds env) (lf_socket lock) = Ok (daemon_answers denv cfg w)"
    and "parse_cmd denv (trim (bytes_str (uds_ser (cl_uds env) cmd @ [10]))) = Ok cmd"
    and "\<forall>resp ms. fst (dispatch cmd (d_session w)) = Ok (resp, ms) \<longrightarrow>
      uds_parse (cl_uds env) (trim (wire denv resp)) = Ok resp"
  shows "run env (Inr cli) = after [AskDaemon cmd] (emit env (cli_json cli) out) \<and>
    (\<exists>line. handle_line denv cfg [] (bytes_str (uds_ser (cl_uds env) cmd @ [10])) None w =
       (Done (Ok True), w\<lparr>uds_out := uds_out w @ [line]\<rparr>))"
proof -
  obtain resp ms where d: "dispatch cmd (d_session w) = (Ok (resp, ms), d_session w)" "success resp"
    using input_dispatch [OF _ assms(2), of "d_session w"] assms(3) by (auto simp: daemon_inv_def)
  then have run: "execute_daemon_command denv cmd None w = (Done (Ok resp), w)"
    by (simp add: input_request_plain [OF assms(2)] dispatch_session_def)
  note plain = input_request_plain(1) [OF assms(2)]
  have "send_to_daemon env cmd = Ok resp"
    by (rule plain_command_answered [OF plain assms(6-9,4) run assms(5) refl]) (use assms(10) d(1) in auto)
  moreover from assms(1) obtain pm where "from_flags (cl_machine env) (cli_skip_permissions cli) (cli_sandbox cli) = Ok pm"
    by (auto simp: permitted_def split: sum.splits)
  ultimately have "run env (Inr cli) = after [AskDaemon cmd] (emit env (cli_json cli) out)"
    using input_request_run [OF assms(2) _ d(2)] by (simp add: run_def)
  with plain_line_run [OF plain assms(9,4) run assms(5)] show ?thesis by blast
qed

definition moved :: SessionResponse where
  "moved = resp_ok (''Moved to '' @ show_point 1 2)"

definition moved_dstate :: dstate where
  "moved_dstate = demo_dstate\<lparr>d_session := \<lparr>state = Connected, config = Some demo_peer,
     peer_info = Some \<lparr>ps_peer_id = ''1'', ps_username = [], ps_hostname = [], ps_displays = []\<rparr>\<rparr>, stream_key := Some []\<rparr>"

definition moved_env :: cli_env where
  "moved_env = demo_cli_env\<lparr>cl_uds := \<lparr>uds_connect = (\<lambda>_. Ok (daemon_answers demo_denv demo_config moved_dstate)),
     uds_ser = (\<lambda>_. []), uds_parse = (\<lambda>_. Ok moved)\<rparr>\<rparr>"

definition moved_cli :: Cli where
  "moved_cli = demo_exec\<lparr>cli_command := CmdMove 1 2\<rparr>"

theorem input_reported_but_not_sent_witness:
  "run moved_env (Inr moved_cli) = after [AskDaemon (Move 1 2)] (emit moved_env (cli_json moved_cli) (move_response 1 2))"
proof (rule conjunct1 [OF input_reported_but_not_sent [where w = moved_dstate and denv = demo_denv and cfg = demo_config
      and lock = "\<lparr>lf_pid = 1, lf_socket = SOCKET_PATH\<rparr>" and c = demo_peer]])
  show "permitted moved_env moved_cli"
    by (simp add: permitted_def moved_cli_def demo_exec_def moved_env_def from_flags_def bind_result_def permitted_command_def)
  show "\<forall>resp ms. fst (dispatch (Move 1 2) (d_session moved_dstate)) = Ok (resp, ms) \<longrightarrow>
      uds_parse (cl_uds moved_env) (trim (wire demo_denv resp)) = Ok resp"
    by (simp add: moved_env_def moved_dstate_def moved_def dispatch_def reply_arm_defs session_simps bind_op_def Let_def)
qed (simp_all add: moved_env_def moved_cli_def moved_dstate_def demo_exec_def demo_cli_env_def demo_dstate_def daemon_inv_def
    world_start_def world.defs dstate.defs demo_files_def demo_proc_def lock_read_def read_to_string_def bind_result_def
    demo_denv_def)

section \<open>Pushes\<close>

lemma send_next_block_uds:
  "send_next_block x t (w\<lparr>uds_out := u\<rparr>) = (case send_next_block x t w of (r, t', w') \<Rightarrow> (r, t', w'\<lparr>uds_out := u\<rparr>))"
  by (auto simp: send_next_block_def Let_def ctx_async_def send_message_def stream_send_def
      split: prod.splits sum.splits list.splits option.splits)

lemma next_block_keeps_uds:
  "send_next_block x t w = (r, t', w') \<Longrightarrow> uds_out w' = uds_out w \<and> uds_faults w' = uds_faults w"
  by (auto simp: send_next_block_def Let_def ctx_async_def send_message_def stream_send_def
      split: if_splits prod.splits sum.splits list.splits option.splits)

lemma push_blocks_uds:
  "push_blocks x t (w\<lparr>uds_out := u\<rparr>) = (case push_blocks x t w of (r, t', w') \<Rightarrow> (r, t', w'\<lparr>uds_out := u\<rparr>))"
  by (induction x t w rule: push_blocks.induct)
    (auto simp: push_blocks.simps [of _ _ "w\<lparr>uds_out := u\<rparr>" for w] push_blocks.simps [of x t w for x t w]
      send_next_block_uds split: prod.splits outcome.splits sum.splits)


lemma push_loop_step:
  fixes w :: net
  assumes "send_next_block x t w = (Done (Ok True), t1, w1)" and "uds_faults w = []"
  shows "push_file_loop x ser rp lr t w =
    (if report_due (push_progress t1) lr
     then push_file_loop x ser rp (pt_sent_bytes t1) t1
       (w1\<lparr>uds_out := uds_out w @ [ser (push_progress_response rp (push_progress t1)) @ [10]]\<rparr>)
     else push_file_loop x ser rp lr t1 w1)"
  using assms next_block_keeps_uds [OF assms(1)]
  by (subst push_file_loop.simps) (simp add: Let_def send_response_def uds_write_def push_progress_def)

text \<open>The reports of a push: the values of \<^verbatim>\<open>last_reported\<close> a report was due for, in order.\<close>

fun reports_due :: "u64 \<Rightarrow> PushProgress list \<Rightarrow> bool" where
  "reports_due lr [] = True"
| "reports_due lr (p # ps) = (report_due p lr \<and> reports_due (pp_sent_bytes p) ps)"

text \<open>
  C27. The daemon's push and the direct push send the same blocks. As long as the local socket takes the lines, the
  loop of \<^verbatim>\<open>push_file_command\<close> in the daemon ends as the plain loop over \<^verbatim>\<open>send_next_block\<close> does, with the same transfer and
  the same state of the connection; it only writes progress lines besides, each of them for the last byte or at least a
  megabyte after the one before.
\<close>

theorem push_loops_agree:
  fixes w :: net
  assumes "uds_faults w = []" and "push_blocks x t w = (r, t', w')"
  shows "\<exists>ps. push_file_loop x ser rp lr t w =
      (r, t', w'\<lparr>uds_out := uds_out w @ map (\<lambda>p. ser (push_progress_response rp p) @ [10]) ps\<rparr>) \<and> reports_due lr ps"
  using assms
proof (induction "length (fh_rest (pt_file t))" arbitrary: lr t w r t' w' rule: less_induct)
  case less
  obtain q t1 w1 where q: "send_next_block x t w = (q, t1, w1)" by (metis prod_cases3)
  note kept = next_block_keeps_uds [OF q]
  show ?case
  proof (cases "q = Done (Ok True)")
    case False
    then have "push_file_loop x ser rp lr t w = (r, t', w')" "uds_out w' = uds_out w"
      using less.prems(2) q kept
      by (auto simp: push_file_loop.simps [of x ser rp lr t w] push_blocks.simps [of x t w] split: outcome.splits sum.splits)
    then show ?thesis by (intro exI [of _ "[]"]) simp
  next
    case True
    note q = q [unfolded True]
    have rest: "push_blocks x t1 w1 = (r, t', w')" using less.prems(2) q by (simp add: push_blocks.simps [of x t w])
    have shorter: "length (fh_rest (pt_file t1)) < length (fh_rest (pt_file t))" using send_next_block_shorter [OF q [symmetric]] .
    note IH = less.hyps [OF shorter]
    show ?thesis
    proof (cases "report_due (push_progress t1) lr")
      case False
      from IH [of w1 r t' w' lr] rest kept less.prems(1) False show ?thesis
        by (simp add: push_loop_step [OF q less.prems(1)])
    next
      case True
      let ?line = "ser (push_progress_response rp (push_progress t1)) @ [10]"
      let ?w1 = "w1\<lparr>uds_out := uds_out w @ [?line]\<rparr>"
      have "push_blocks x t1 ?w1 = (r, t', w'\<lparr>uds_out := uds_out w @ [?line]\<rparr>)" by (simp add: push_blocks_uds rest)
      from IH [OF _ this, of "pt_sent_bytes t1"] kept less.prems(1) obtain ps where
        "push_file_loop x ser rp (pt_sent_bytes t1) t1 ?w1 =
          (r, t', w'\<lparr>uds_out := uds_out w @ map (\<lambda>p. ser (push_progress_response rp p) @ [10]) (push_progress t1 # ps)\<rparr>)"
        "reports_due (pt_sent_bytes t1) ps" by auto
      with True show ?thesis
        by (intro exI [of _ "push_progress t1 # ps"]) (simp add: push_loop_step [OF q less.prems(1)] push_progress_def)
    qed
  qed
qed


theorem push_loops_agree_witness:
  "\<exists>t w t' w' ps. push_blocks push_ext t w = (Done (Ok ()), t', w') \<and> fh_rest (pt_file t) = [98, 99] \<and>
     push_file_loop push_ext (\<lambda>_. []) ''b'' 1 t w = (Done (Ok ()), t', w'\<lparr>uds_out := uds_out w @ map (\<lambda>p. [10]) ps\<rparr>) \<and>
     reports_due 1 ps"
proof -
  let ?t = "\<lparr>pt_local_path = ''/tmp/a'', pt_remote_path = ''b'', pt_file = \<lparr>fh_rest = [98, 99], fh_reads = []\<rparr>,
    pt_total_bytes = 3, pt_sent_bytes = 1, pt_transferred_bytes = 0, pt_resumed_bytes = 1, pt_job_id = 1,
    pt_skip_transfer = False\<rparr>" and ?w = "net_start []"
  have z: "zstd_encode push_ext bs = Ok bs" for bs by (simp add: push_ext_def table_ext_def)
  obtain t' w' where b: "push_blocks push_ext ?t ?w = (Done (Ok ()), t', w')"
    by (simp add: push_blocks.simps send_next_block_def file_read_def FILE_TRANSFER_BLOCK_SIZE_def
        compress_chunk_def z ctx_async_def send_message_def stream_send_def)
  from push_loops_agree [OF _ b, of "\<lambda>_. []" "''b''" 1] obtain ps where
    "push_file_loop push_ext (\<lambda>_. []) ''b'' 1 ?t ?w = (Done (Ok ()), t', w'\<lparr>uds_out := uds_out ?w @ map (\<lambda>p. [10]) ps\<rparr>)"
    "reports_due 1 ps" by auto
  moreover have "fh_rest (pt_file ?t) = [98, 99]" by simp
  ultimately show ?thesis using b by blast
qed

end
