(* ===== verification/Spec2Isabelle.thy ===== *)
theory Spec2Isabelle
  imports Stream_Refinement Text_Session Rendezvous_Client End_To_End
begin

text \<open>
  Verification of rustdesk-cli, a command line client for RustDesk peers (\<^verbatim>\<open>src/src/*.rs\<close>).

  \<^bold>\<open>The program.\<close> A command line (\<^verbatim>\<open>main.rs\<close>) either does its work itself, over a connection of its own
  (\<^verbatim>\<open>direct_exec\<close>, \<^verbatim>\<open>direct_push\<close>, \<^verbatim>\<open>connect --terminal\<close>), or asks a daemon over a Unix socket. The daemon
  (\<^verbatim>\<open>daemon.rs\<close>) is a process started by \<^verbatim>\<open>connect\<close>; it keeps one encrypted connection to the peer, answers one local
  command at a time, sends heartbeats, reconnects with back-off and stops on a disconnect, a signal, a close reason or
  idleness. A connection (\<^verbatim>\<open>connection.rs\<close>) is made through a rendezvous server (\<^verbatim>\<open>rendezvous.rs\<close>) and a relay, over a
  framed (\<^verbatim>\<open>transport.rs\<close>) and then encrypted (\<^verbatim>\<open>crypto.rs\<close>) stream. On it run terminals (\<^verbatim>\<open>terminal.rs\<close>,
  \<^verbatim>\<open>text_session.rs\<close>), remote commands, file transfers (\<^verbatim>\<open>file_transfer.rs\<close>) and screenshots (\<^verbatim>\<open>capture.rs\<close>). The
  state machine of the session is \<^verbatim>\<open>session.rs\<close> with the types of \<^verbatim>\<open>protocol.rs\<close>; \<^verbatim>\<open>permissions.rs\<close> guards the commands
  that connect, execute or push.

  \<^bold>\<open>How code becomes definitions.\<close> Machine integers are words, strings are byte lists, an \<^verbatim>\<open>anyhow\<close> error is the list
  of its contexts, \<^verbatim>\<open>Result\<close> is a sum (\<open>Rust_Prelude\<close>, \<open>Rust_Strings\<close>, \<open>Utf8\<close>, \<open>Json\<close>). Synchronous byte streams are
  state transformers (\<open>op\<close>). Asynchronous code runs in \<open>Async_Env\<close>: a state with a clock in milliseconds, what the peer
  will send and when, and what was sent; an operation is given the deadline of the \<^verbatim>\<open>timeout\<close>s around it and ends with
  \<open>Done\<close>, \<open>Elapsed\<close> (cut off by that deadline) or \<open>Hang\<close> (waits for ever). \<open>Net_World\<close> extends the state by UDP,
  by the TCP connections that can be dialled and by the streams already left behind; \<open>Daemon\<close> by the state of the
  daemon. What the peer sends is a finite script, of any length, so loops over received messages end because each turn
  takes a message (\<open>function\<close> with a measure). That an operation returns says little by itself then; the theorems on waiting
  bound the time at which it does, by deadlines or by the first silence of the peer. There is no fuel but the number of ticks of the heartbeat task, which never ends by itself: one more tick than fits before it is
  aborted is enough (\<open>Rendezvous_Client\<close>). What \<^verbatim>\<open>select!\<close> picks is an event of the
  environment. A panic is an error marked as such that no \<^verbatim>\<open>match\<close> catches.

  \<^bold>\<open>Theories, from the wire up.\<close>
  \<^item> \<open>Framing\<close> (\<^verbatim>\<open>transport.rs\<close>, and the codec of \<^verbatim>\<open>rendezvous.rs\<close>): headers, \<open>framed_send\<close>, \<open>framed_recv\<close>; payloads of
    at most 64 MiB come back in order, truncation is an error, the two copies of the codec agree.
  \<^item> \<open>Crypto\<close> (\<^verbatim>\<open>crypto.rs\<close>): key exchange, \<open>es_send\<close>, \<open>es_recv\<close>; refinement of an ordered channel of messages and heartbeats,
    authenticity and freshness of nonces under the laws of the cipher.
  \<^item> \<open>Stream_Refinement\<close>: a simulation between the encrypted stream over frames over bytes and the stream of messages the
    rest is modelled on, for any sends, heartbeats and receives under any deadlines, and what a receive dropped inside a
    frame does to the next one.
  \<^item> \<open>Messages\<close>, \<open>Rendezvous\<close>, \<open>Rendezvous_Client\<close>, \<open>Connection\<close> (\<^verbatim>\<open>rendezvous.rs\<close>, \<^verbatim>\<open>connection.rs\<close>): the messages, registration, heartbeats,
    punch hole, relay, handshake and login; every wait of the handshake is bounded and the password leaves only on the encrypted stream.
  \<^item> \<open>Terminal\<close>, \<open>Text_Session\<close>, \<open>Exec\<close> (\<^verbatim>\<open>terminal.rs\<close>, \<^verbatim>\<open>text_session.rs\<close>, \<^verbatim>\<open>daemon.rs\<close> from \<^verbatim>\<open>exec_command\<close> on): waiting for
    responses, collecting output up to the sentinel, exit codes; exec returns after the first silence of the peer, with a bound on
    the time, and there is none for a terminal that never stops printing.
  \<^item> \<open>File_Transfer\<close> (\<^verbatim>\<open>file_transfer.rs\<close>): the blocks of a push are the file from the offset on that the peer's answer fixes.
    Success needs no confirmation: only an error the peer reports within 500 ms makes it fail.
  \<^item> \<open>Base64\<close>, \<open>Capture\<close> (\<^verbatim>\<open>capture.rs\<close>): round trips, bounds of a region, screenshots.
  \<^item> \<open>Session\<close> (\<^verbatim>\<open>session.rs\<close>, \<^verbatim>\<open>protocol.rs\<close>): \<open>dispatch\<close> with its invariant over all sessions that
    commands, the start of the daemon and its reconnections lead to.
  \<^item> \<open>Daemon\<close>, \<open>Daemon_Loop\<close>, \<open>Daemon_Process\<close> (\<^verbatim>\<open>daemon.rs\<close>): reconnecting, commands, the event loop as turns with an inductive
    set of reachable states and a calculus of triples for its invariant, then the process: its files, its
    arguments, starting and stopping.
  \<^item> \<open>Permissions\<close> (\<^verbatim>\<open>permissions.rs\<close>), \<open>Responses\<close>, \<open>Batch\<close>, \<open>Direct\<close>, \<open>Cli\<close> (\<^verbatim>\<open>main.rs\<close>): the four checks, every answer in text
    and JSON, the batch parser against a grammar, direct exec and push, and \<^verbatim>\<open>run\<close> as a function from the parsed command
    line to its effects and exit code.
  \<^item> \<open>End_To_End\<close>: the parts together. An exec from the command line over the socket and the daemon to the peer and back,
    a screenshot from the peer to the file, the shell, keyboard and mouse commands, and the two loops that push a file.

  \<^bold>\<open>Interfaces.\<close> Locales state what one part promises the next and are interpreted on the model: the byte streams and
  ciphers of \<open>Framing\<close> and \<open>Crypto\<close>; the frames of \<open>Net_World\<close> (which operations leave the local side, the service id, the
  background tasks alone), used for the daemon's invariant; \<open>permission_gate\<close> for the four checks; \<open>run_contract\<close> in
  \<open>Cli\<close>, proved once for all commands and interpreted for exit codes and for JSON output; \<open>simulation\<close> for the two
  streams of \<open>Stream_Refinement\<close>.

  \<^bold>\<open>Parameters.\<close> Code outside the repository is an argument with its documented laws as hypotheses: \<^verbatim>\<open>prost\<close>, \<^verbatim>\<open>zstd\<close>, the
  ciphers and signatures, \<^verbatim>\<open>image\<close>, \<^verbatim>\<open>serde_json\<close>, \<^verbatim>\<open>toml\<close>, \<^verbatim>\<open>clap\<close>, sockets, files, processes and the user. Each such
  hypothesis holds for a concrete instance in the witness of the property that has it.

  \<^bold>\<open>Not modelled.\<close> Back pressure: a send on the stream of messages (\<open>stream_send\<close>) succeeds or fails at once and takes no
  time, while \<^verbatim>\<open>write_all\<close> and \<^verbatim>\<open>flush\<close> can wait for a peer that does not read, so the bounds on time are those of the waits
  for the peer's messages. The parsing of arguments by \<^verbatim>\<open>clap\<close> (only its result), code generated from the \<^verbatim>\<open>.proto\<close> files,
  the derived \<^verbatim>\<open>serde\<close> code, the interleaving of the heartbeat task with the connection (the task is modelled by itself, and a
  connection only counts the running tasks, as nothing else uses the UDP socket then), the local terminal's own I/O
  errors, debug output on \<^verbatim>\<open>stderr\<close> except where its formatting can panic, and the percentage in progress lines.

  \<^bold>\<open>What the proofs found\<close> beside what is right: input commands report success and never leave
  the daemon (\<open>Daemon_Loop\<close>, \<open>End_To_End\<close>), a disconnect can fail behind a success message (\<open>Daemon_Loop\<close>, \<open>Cli\<close>), startup errors are deleted
  before they are read (\<open>Daemon_Process\<close>), heartbeat tasks leak on failed connections (\<open>Connection\<close>), unverified server keys
  are accepted (\<open>Rendezvous\<close>), sandbox rules are prefixes (\<open>Permissions\<close>), the shell command opens a terminal only to
  close it (\<open>End_To_End\<close>), a batch reports steps that were never carried out (\<open>Cli\<close>), draining the prompt has no overall
  limit (\<open>Exec\<close>, \<open>Direct\<close>), and a dropped receive loses the frame boundaries (\<open>Stream_Refinement\<close>).
\<close>

end
